(* ===== verification/Prelude.thy ===== *)
theory Prelude
  imports Main "HOL-Library.Word"
begin

text \<open>
  Shared vocabulary of the development: the fixed-width integers of the C++ sources, the
  faults that stand for undefined behaviour and for the loops that never end, the result type
  of an operation that may fault, bounds-checked reads, and the little-endian layout of 16-bit
  fields.
\<close>

unbundle bit_operations_syntax

section \<open>Integers\<close>

text \<open>The kernel's \<open>__u8\<close>, \<open>__u16\<close> (and \<open>__le16\<close>) and \<open>__u32\<close>. The sources assume a
  little-endian host: they copy descriptor bytes over structs and read the 16-bit fields as
  they are.\<close>

type_synonym u8 = "8 word"
type_synonym u16 = "16 word"
type_synonym u32 = "32 word"

type_synonym bytes = "u8 list"

text \<open>The bytes of a string literal.\<close>

definition ascii :: "string \<Rightarrow> bytes" where
  "ascii s = map (\<lambda>c. of_char c) s"

section \<open>Collections of facts\<close>

named_theorems res_simps \<open>inversion of operations that return a result\<close>
named_theorems inv_intros \<open>preservation of the components' invariants\<close>

section \<open>Results\<close>

text \<open>
  Every way in which the code leaves the defined behaviour of C++ (or never leaves a loop) is a
  value: a null pointer that is followed, an access outside the object that holds the bytes, a
  copy that is longer than the struct it fills, a read of bytes that nothing has written, a
  use of an object that has been released, a conversion to an integer type that cannot hold the
  number, a function that should return a value and does not, and a loop whose fuel is exhausted.
  \<open>Exits\<close> is a call of \<open>exit\<close>.
\<close>

datatype fault =
    NullDeref | OutOfBounds | StructOverflow | Uninit | UseAfterFree | BadConversion | NoReturn
  | OutOfFuel | Exits

type_synonym 'a res = "fault + 'a"

definition and_then :: "'a res \<Rightarrow> ('a \<Rightarrow> 'b res) \<Rightarrow> 'b res" where
  "and_then r f = (case r of Inl e \<Rightarrow> Inl e | Inr x \<Rightarrow> f x)"

lemma and_then_Inl [simp]: "and_then (Inl e) f = Inl e"
  and and_then_Inr [simp]: "and_then (Inr x) f = f x"
  by (simp_all add: and_then_def)

lemma and_then_eq_Inr [res_simps]:
  "and_then r f = Inr y \<longleftrightarrow> (\<exists>x. r = Inr x \<and> f x = Inr y)"
  by (cases r) simp_all

lemma and_then_eq_Inl:
  "and_then r f = Inl e \<longleftrightarrow> r = Inl e \<or> (\<exists>x. r = Inr x \<and> f x = Inl e)"
  by (cases r) auto

lemma and_then_assoc: "and_then (and_then r f) g = and_then r (\<lambda>x. and_then (f x) g)"
  by (cases r) simp_all

lemma and_then_cong [fundef_cong]:
  "r = r' \<Longrightarrow> (\<And>x. r' = Inr x \<Longrightarrow> f x = f' x) \<Longrightarrow> and_then r f = and_then r' f'"
  by (cases r') simp_all

text \<open>A pointer that may be NULL.\<close>

definition deref :: "'a option \<Rightarrow> 'a res" where
  "deref p = (case p of None \<Rightarrow> Inl NullDeref | Some x \<Rightarrow> Inr x)"

lemma deref_Some [simp]: "deref (Some x) = Inr x"
  and deref_None [simp]: "deref None = Inl NullDeref"
  by (simp_all add: deref_def)

lemma deref_eq_Inr [res_simps]: "deref p = Inr x \<longleftrightarrow> p = Some x"
  by (cases p) simp_all

text \<open>An element of an array, and an assignment to one.\<close>

definition index :: "'a list \<Rightarrow> nat \<Rightarrow> 'a res" where
  "index xs i = (if i < length xs then Inr (xs ! i) else Inl OutOfBounds)"

definition store :: "'a list \<Rightarrow> nat \<Rightarrow> 'a \<Rightarrow> 'a list res" where
  "store xs i x = (if i < length xs then Inr (xs[i := x]) else Inl OutOfBounds)"

lemma index_in [simp]: "i < length xs \<Longrightarrow> index xs i = Inr (xs ! i)"
  and index_out [simp]: "length xs \<le> i \<Longrightarrow> index xs i = Inl OutOfBounds"
  by (simp_all add: index_def)

lemma index_eq_Inr [res_simps]: "index xs i = Inr x \<longleftrightarrow> i < length xs \<and> xs ! i = x"
  by (auto simp: index_def)

lemma store_in [simp]: "i < length xs \<Longrightarrow> store xs i x = Inr (xs[i := x])"
  and store_out [simp]: "length xs \<le> i \<Longrightarrow> store xs i x = Inl OutOfBounds"
  by (simp_all add: store_def)

lemma store_eq_Inr [res_simps]:
  "store xs i x = Inr ys \<longleftrightarrow> i < length xs \<and> ys = xs[i := x]"
  by (auto simp: store_def)

text \<open>The first \<open>n\<close> elements from a pointer to the rest of a buffer or array: the source of a
  \<open>memcpy\<close>, or what a loop from 0 to \<open>n - 1\<close> visits.\<close>

definition first_n :: "'a list \<Rightarrow> nat \<Rightarrow> 'a list res" where
  "first_n buf n = (if n \<le> length buf then Inr (take n buf) else Inl OutOfBounds)"

lemma first_n_in [simp]: "n \<le> length buf \<Longrightarrow> first_n buf n = Inr (take n buf)"
  and first_n_out [simp]: "length buf < n \<Longrightarrow> first_n buf n = Inl OutOfBounds"
  by (simp_all add: first_n_def)

lemma first_n_eq_Inr [res_simps]:
  "first_n buf n = Inr bs \<longleftrightarrow> n \<le> length buf \<and> bs = take n buf"
  by (auto simp: first_n_def)

text \<open>Loops that add up numbers, or append bytes, one array element after the other.\<close>

fun sum_of :: "('a \<Rightarrow> nat res) \<Rightarrow> 'a list \<Rightarrow> nat res" where
  "sum_of f [] = Inr 0"
| "sum_of f (x # xs) = and_then (f x) (\<lambda>n. and_then (sum_of f xs) (\<lambda>m. Inr (n + m)))"

fun concat_of :: "('a \<Rightarrow> 'b list res) \<Rightarrow> 'a list \<Rightarrow> 'b list res" where
  "concat_of f [] = Inr []"
| "concat_of f (x # xs) = and_then (f x) (\<lambda>b. and_then (concat_of f xs) (\<lambda>bs. Inr (b @ bs)))"

lemma concat_of_eq_Inr [res_simps]:
  "concat_of f xs = Inr bs \<longleftrightarrow>
     (\<exists>bss. list_all2 (\<lambda>x b. f x = Inr b) xs bss \<and> bs = concat bss)"
proof (induction xs arbitrary: bs)
  case (Cons x xs)
  then show ?case by (force simp: res_simps list_all2_Cons1)
qed auto

lemma sum_of_length:
  assumes "\<And>x b. x \<in> set xs \<Longrightarrow> g x = Inr b \<Longrightarrow> f x = Inr (length b)"
    and "concat_of g xs = Inr bs"
  shows "sum_of f xs = Inr (length bs)"
  using assms
proof (induction xs arbitrary: bs)
  case (Cons x xs)
  then show ?case by (fastforce simp: and_then_eq_Inr)
qed simp

section \<open>Little-endian 16-bit fields\<close>

definition lo8 :: "u16 \<Rightarrow> u8" where
  "lo8 w = ucast w"

definition hi8 :: "u16 \<Rightarrow> u8" where
  "hi8 w = ucast (drop_bit 8 w)"

definition le16 :: "u8 \<Rightarrow> u8 \<Rightarrow> u16" where
  "le16 lo hi = ucast lo OR push_bit 8 (ucast hi)"

lemma le16_lo8_hi8 [simp]: "le16 (lo8 w) (hi8 w) = w"
  by (rule bit_word_eqI) (auto simp: le16_def lo8_def hi8_def bit_simps)

lemma lo8_le16 [simp]: "lo8 (le16 lo hi) = lo"
  by (rule bit_word_eqI) (auto simp: le16_def lo8_def bit_simps)

lemma hi8_le16 [simp]: "hi8 (le16 lo hi) = hi"
  by (rule bit_word_eqI) (auto simp: le16_def hi8_def bit_simps dest: bit_imp_le_length)

lemma unat_u8_less [simp]: "unat (x :: u8) < 256"
  using unsigned_less [of x] by simp

lemma unat_u8_le [simp]: "unat (x :: u8) \<le> 255"
  using unat_u8_less [of x] by linarith

lemma unat_le_u8: "(x :: u8) \<le> y \<longleftrightarrow> unat x \<le> unat y"
  by (rule word_le_nat_alt)

lemma unat_u16_less [simp]: "unat (x :: u16) < 65536"
  using unsigned_less [of x] by simp

lemma unat_of_nat_u8: "n < 256 \<Longrightarrow> unat (of_nat n :: u8) = n"
  by (simp add: unat_of_nat take_bit_eq_mod)

lemma unat_of_nat_u16: "n < 65536 \<Longrightarrow> unat (of_nat n :: u16) = n"
  by (simp add: unat_of_nat take_bit_eq_mod)

section \<open>Lists\<close>

lemma list_update_last [simp]: "(xs @ [y])[length xs := x] = xs @ [x]"
  by (simp add: list_update_append)

lemma sum_list_map_concat_length: "length (concat xss) = sum_list (map length xss)"
  by (simp add: length_concat)

lemma nth_in_set_Some: "i < length xs \<Longrightarrow> xs ! i = y \<Longrightarrow> y \<in> set xs"
  by auto

text \<open>The objects an array of pointers holds, in order: its non-NULL entries.\<close>

definition somes :: "'a option list \<Rightarrow> 'a list" where
  "somes ps = List.map_filter id ps"

lemma somes_simps [simp]:
  "somes [] = []" "somes (None # ps) = somes ps" "somes (Some x # ps) = x # somes ps"
  by (simp_all add: somes_def List.map_filter_def)

lemma somes_append [simp]: "somes (ps @ qs) = somes ps @ somes qs"
  by (simp add: somes_def List.map_filter_def)

lemma somes_map_Some [simp]: "somes (map Some xs) = xs"
  by (induction xs) simp_all

lemma somes_replicate_None [simp]: "somes (replicate n None) = []"
  by (induction n) simp_all

lemma set_somes: "set (somes ps) = {x. Some x \<in> set ps}"
  by (force simp: somes_def List.map_filter_def)

section \<open>The interface of a keyed store\<close>

text \<open>
  What the users of the block cache and of the settings of the configuration rely on: a value
  that is put under a key is the one that is seen there, and no other key is touched.
\<close>

locale keyed_store =
  fixes view :: "'s \<Rightarrow> 'k \<Rightarrow> 'v option"
    and put :: "'k \<Rightarrow> 'v \<Rightarrow> 's \<Rightarrow> 's"
  assumes view_put: "view (put k v s) k' = (if k' = k then Some v else view s k')"
begin

lemma last_put:
  "view (fold (\<lambda>(k, v). put k v) kvs s) k =
     (case map_of (rev kvs) k of Some v \<Rightarrow> Some v | None \<Rightarrow> view s k)"
proof (induction kvs arbitrary: s)
  case (Cons kv kvs)
  then show ?case
    by (auto simp: view_put map_add_def split: prod.split option.split)
qed simp

lemma put_put: "view (put k v (put k v' s)) k' = view (put k v s) k'"
  by (simp add: view_put)

lemma put_commute:
  "k1 \<noteq> k2 \<Longrightarrow> view (put k1 v1 (put k2 v2 s)) k = view (put k2 v2 (put k1 v1 s)) k"
  by (auto simp: view_put)

end

end
