(* ===== verification/Safe_Queue.thy ===== *)
theory Safe_Queue
  imports Prelude
begin

text \<open>
  The blocking queue between the relay threads (\<open>src/lib/SafeQueue.hpp\<close>): a bounded
  \<open>std::queue\<close> under one mutex, with a condition variable that readers wait on. The state holds,
  beside the queued items, how many threads are inside \<open>dequeue\<close>: \<open>sq_awake\<close> of them contend for
  the mutex or hold it, \<open>sq_waiting\<close> of them are blocked in \<open>c.wait\<close>. A critical section is one
  step. The locale \<open>bounded_fifo\<close> is the interface the relays rely on.
\<close>

section \<open>State and operations\<close>

definition QUEUE_MAX :: nat where
  "QUEUE_MAX = 10000"

definition QUEUE_FULL_WARNING_THRESHOLD :: nat where
  "QUEUE_FULL_WARNING_THRESHOLD = 1000"

record 'a safe_queue =
  sq_items :: "'a list"
  sq_warnings :: nat
  sq_awake :: nat
  sq_waiting :: nat

definition new_queue :: "'a safe_queue" where
  "new_queue = \<lparr>sq_items = [], sq_warnings = 0, sq_awake = 0, sq_waiting = 0\<rparr>"

text \<open>\<open>std::condition_variable::notify_one\<close>: unblocks one waiting thread, if there is one.\<close>

definition notify_one :: "'a safe_queue \<Rightarrow> 'a safe_queue" where
  "notify_one q =
     (if sq_waiting q = 0 then q
      else q\<lparr>sq_waiting := sq_waiting q - 1, sq_awake := Suc (sq_awake q)\<rparr>)"

definition push :: "'a \<Rightarrow> 'a safe_queue \<Rightarrow> 'a safe_queue" where
  "push t q = q\<lparr>sq_items := sq_items q @ [t]\<rparr>"

definition enqueue :: "'a \<Rightarrow> 'a safe_queue \<Rightarrow> 'a safe_queue" where
  "enqueue t q =
     (if sq_items q \<noteq> [] then
        (let size = length (sq_items q) in
         if QUEUE_MAX \<le> size then q
         else if size = QUEUE_MAX - QUEUE_FULL_WARNING_THRESHOLD
           then notify_one (push t (q\<lparr>sq_warnings := Suc (sq_warnings q)\<rparr>))
           else notify_one (push t q))
      else notify_one (push t q))"

text \<open>
  \<open>dequeue\<close>: a thread enters and takes the lock; then it tests the loop's condition, and either
  takes the front item or goes to wait. A waiting thread that is woken (by \<open>notify_one\<close> or
  spuriously) tests again.
\<close>

definition dequeue_enter :: "'a safe_queue \<Rightarrow> 'a safe_queue" where
  "dequeue_enter q = q\<lparr>sq_awake := Suc (sq_awake q)\<rparr>"

definition dequeue_test :: "'a safe_queue \<Rightarrow> 'a option \<times> 'a safe_queue" where
  "dequeue_test q =
     (case sq_items q of
        [] \<Rightarrow> (None, q\<lparr>sq_awake := sq_awake q - 1, sq_waiting := Suc (sq_waiting q)\<rparr>)
      | val # rest \<Rightarrow> (Some val, q\<lparr>sq_items := rest, sq_awake := sq_awake q - 1\<rparr>))"

definition dequeue :: "'a safe_queue \<Rightarrow> 'a option \<times> 'a safe_queue" where
  "dequeue q = dequeue_test (dequeue_enter q)"

lemma notify_one_items [simp]: "sq_items (notify_one q) = sq_items q"
  by (simp add: notify_one_def)

lemma push_simps [simp]:
  "sq_items (push t q) = sq_items q @ [t]" "sq_awake (push t q) = sq_awake q"
  "sq_waiting (push t q) = sq_waiting q"
  by (simp_all add: push_def)

lemma items_enqueue:
  "sq_items (enqueue t q) =
     (if length (sq_items q) < QUEUE_MAX then sq_items q @ [t] else sq_items q)"
  by (auto simp: enqueue_def Let_def QUEUE_MAX_def)

lemma new_queue_simps [simp]:
  "sq_items new_queue = []" "sq_awake new_queue = 0" "sq_waiting new_queue = 0"
  by (simp_all add: new_queue_def)

lemma dequeue_Nil: "sq_items q = [] \<Longrightarrow> fst (dequeue q) = None \<and> sq_items (snd (dequeue q)) = []"
  by (simp add: dequeue_def dequeue_test_def dequeue_enter_def)

lemma dequeue_Cons:
  "sq_items q = x # xs \<Longrightarrow> fst (dequeue q) = Some x \<and> sq_items (snd (dequeue q)) = xs"
  by (simp add: dequeue_def dequeue_test_def dequeue_enter_def)

section \<open>The interface: a bounded first-in first-out queue\<close>

text \<open>
  What the relays rely on: an item is appended while there is room and discarded otherwise, and
  items come out from the front.
\<close>

datatype 'a queue_op = Enq 'a | Deq

fun queue_run ::
  "('a \<Rightarrow> 'q \<Rightarrow> 'q) \<Rightarrow> ('q \<Rightarrow> 'a option \<times> 'q) \<Rightarrow> 'a queue_op list \<Rightarrow> 'q \<Rightarrow> 'a list \<times> 'q" where
  "queue_run enq deq [] q = ([], q)"
| "queue_run enq deq (Enq x # ops) q = queue_run enq deq ops (enq x q)"
| "queue_run enq deq (Deq # ops) q =
     (case deq q of
        (None, q') \<Rightarrow> queue_run enq deq ops q'
      | (Some x, q') \<Rightarrow> (let (out, q'') = queue_run enq deq ops q' in (x # out, q'')))"

text \<open>The items of a sequence of operations that find room, from the number of items at the
  start and the capacity alone.\<close>

fun accepted :: "nat \<Rightarrow> nat \<Rightarrow> 'a queue_op list \<Rightarrow> 'a list" where
  "accepted cap n [] = []"
| "accepted cap n (Enq x # ops) =
     (if n < cap then x # accepted cap (Suc n) ops else accepted cap n ops)"
| "accepted cap n (Deq # ops) = accepted cap (n - 1) ops"

locale bounded_fifo =
  fixes enq :: "'a \<Rightarrow> 'q \<Rightarrow> 'q"
    and deq :: "'q \<Rightarrow> 'a option \<times> 'q"
    and items :: "'q \<Rightarrow> 'a list"
    and cap :: nat
  assumes items_enq:
      "items (enq x q) = (if length (items q) < cap then items q @ [x] else items q)"
    and deq_empty: "items q = [] \<Longrightarrow> fst (deq q) = None \<and> items (snd (deq q)) = []"
    and deq_front: "items q = x # xs \<Longrightarrow> fst (deq q) = Some x \<and> items (snd (deq q)) = xs"
begin

lemma deq_cases:
  obtains (empty) q' where "items q = []" "deq q = (None, q')" "items q' = []"
  | (front) x xs q' where "items q = x # xs" "deq q = (Some x, q')" "items q' = xs"
  by (cases "items q"; cases "deq q") (use deq_empty deq_front in fastforce)+

lemma bound_enq: "length (items q) \<le> cap \<Longrightarrow> length (items (enq x q)) \<le> cap"
  by (simp add: items_enq)

lemma bound_deq: "length (items q) \<le> cap \<Longrightarrow> length (items (snd (deq q))) \<le> cap"
  by (rule deq_cases [of q]) auto

lemma run_fifo:
  "queue_run enq deq ops q = (out, q') \<Longrightarrow>
   out @ items q' = items q @ accepted cap (length (items q)) ops"
proof (induction ops arbitrary: q out)
  case Nil
  then show ?case by simp
next
  case (Cons oper ops)
  show ?case
  proof (cases oper)
    case (Enq x)
    with Cons.prems have "queue_run enq deq ops (enq x q) = (out, q')" by simp
    from Cons.IH [OF this] Enq show ?thesis by (simp add: items_enq)
  next
    case Deq
    show ?thesis
    proof (rule deq_cases [of q])
      fix q1 assume "items q = []" "deq q = (None, q1)" "items q1 = []"
      with Cons Deq show ?thesis by fastforce
    next
      fix x xs q1 assume front: "items q = x # xs" "deq q = (Some x, q1)" "items q1 = xs"
      with Cons.prems Deq obtain out1
        where "queue_run enq deq ops q1 = (out1, q')" "out = x # out1"
        by (auto split: prod.splits)
      with Cons.IH [of q1 out1] front Deq show ?thesis by simp
    qed
  qed
qed

lemma run_bound:
  "queue_run enq deq ops q = (out, q') \<Longrightarrow> length (items q) \<le> cap \<Longrightarrow> length (items q') \<le> cap"
proof (induction ops arbitrary: q out)
  case (Cons oper ops)
  then show ?case
    using bound_enq bound_deq
    by (cases oper) (auto split: prod.splits option.splits, (metis snd_conv)+)
qed simp

end

interpretation sq: bounded_fifo enqueue dequeue sq_items QUEUE_MAX
  by unfold_locales (simp_all add: items_enqueue dequeue_Nil dequeue_Cons)

section \<open>Threads on the queue\<close>

text \<open>
  The steps of any number of producers and consumers: a producer's \<open>enqueue\<close>, a consumer that
  enters \<open>dequeue\<close>, a consumer that is awake and tests the loop's condition, and a spurious
  wakeup, which the standard allows.
\<close>

inductive sq_step :: "'a safe_queue \<Rightarrow> 'a safe_queue \<Rightarrow> bool" where
  produce: "sq_step q (enqueue t q)"
| enter: "sq_step q (dequeue_enter q)"
| test: "0 < sq_awake q \<Longrightarrow> sq_step q (snd (dequeue_test q))"
| spurious: "0 < sq_waiting q \<Longrightarrow> sq_step q (notify_one q)"

inductive sq_reachable :: "'a safe_queue \<Rightarrow> bool" where
  initial: "sq_reachable new_queue"
| step: "sq_reachable q \<Longrightarrow> sq_step q q' \<Longrightarrow> sq_reachable q'"

inductive_cases sq_stepE: "sq_step q q'"

text \<open>While some thread waits, every queued item has a thread that is awake to take it.\<close>

definition sq_inv :: "'a safe_queue \<Rightarrow> bool" where
  "sq_inv q \<longleftrightarrow>
     length (sq_items q) \<le> QUEUE_MAX \<and>
     (0 < sq_waiting q \<longrightarrow> length (sq_items q) \<le> sq_awake q)"

lemma sq_inv_new [inv_intros]: "sq_inv new_queue"
  by (simp add: sq_inv_def)

lemma sq_inv_notify: "sq_inv q \<Longrightarrow> sq_inv (notify_one q)"
  by (auto simp: sq_inv_def notify_one_def)

lemma sq_inv_notify_push:
  "sq_inv q \<Longrightarrow> length (sq_items q) < QUEUE_MAX \<Longrightarrow> sq_inv (notify_one (push t q))"
  by (auto simp: sq_inv_def notify_one_def)

lemma sq_inv_warn: "sq_inv (q\<lparr>sq_warnings := n\<rparr>) = sq_inv q"
  by (simp add: sq_inv_def)

lemma sq_inv_enqueue [inv_intros]: "sq_inv q \<Longrightarrow> sq_inv (enqueue t q)"
  by (auto simp: enqueue_def Let_def QUEUE_MAX_def sq_inv_warn
      intro!: sq_inv_notify_push)

lemma sq_inv_enter [inv_intros]: "sq_inv q \<Longrightarrow> sq_inv (dequeue_enter q)"
  by (auto simp: sq_inv_def dequeue_enter_def)

lemma sq_inv_test [inv_intros]:
  "sq_inv q \<Longrightarrow> 0 < sq_awake q \<Longrightarrow> sq_inv (snd (dequeue_test q))"
  by (auto simp: sq_inv_def dequeue_test_def split: list.splits)

lemma sq_step_inv: "sq_step q q' \<Longrightarrow> sq_inv q \<Longrightarrow> sq_inv q'"
  by (erule sq_stepE) (auto intro: inv_intros sq_inv_notify)

lemma sq_reachable_inv: "sq_reachable q \<Longrightarrow> sq_inv q"
  by (induction rule: sq_reachable.induct) (auto intro: inv_intros sq_step_inv)

section \<open>Properties\<close>

text \<open>C6: in every reachable state of the queue and its threads, as long as some thread sleeps in
  \<open>dequeue\<close>, each queued item has a thread that is awake and will test the queue: no wakeup is
  lost. The queue never holds more than \<open>QUEUE_MAX\<close> items.
\<close>

theorem safe_queue_no_lost_wakeup:
  assumes "sq_reachable q"
  shows "length (sq_items q) \<le> QUEUE_MAX \<and>
    (sq_waiting q = 0 \<or> length (sq_items q) \<le> sq_awake q)"
  using sq_reachable_inv [OF assms] by (auto simp: sq_inv_def)

theorem safe_queue_no_lost_wakeup_witness:
  "sq_reachable (enqueue (7 :: nat) (snd (dequeue new_queue))) \<and>
   sq_waiting (snd (dequeue (new_queue :: nat safe_queue))) = 1 \<and>
   length (sq_items (enqueue (7 :: nat) (snd (dequeue new_queue)))) \<le> QUEUE_MAX"
proof -
  have "sq_reachable (dequeue_enter (new_queue :: nat safe_queue))"
    by (rule sq_reachable.step [OF sq_reachable.initial sq_step.enter])
  then have "sq_reachable (snd (dequeue (new_queue :: nat safe_queue)))"
    unfolding dequeue_def
    by (rule sq_reachable.step) (rule sq_step.test, simp add: dequeue_enter_def)
  then have r: "sq_reachable (enqueue (7 :: nat) (snd (dequeue new_queue)))"
    by (rule sq_reachable.step [OF _ sq_step.produce])
  show ?thesis
    using r safe_queue_no_lost_wakeup [OF r]
    by (simp add: dequeue_def dequeue_enter_def dequeue_test_def)
qed

text \<open>C15: over any sequence of enqueue and dequeue calls on a queue within its bound, what comes out
  followed by what is still queued is what was queued at the start followed by the items that
  found room: nothing is lost, duplicated or reordered but for the items that met a full queue.
\<close>

theorem safe_queue_fifo:
  "case queue_run enqueue dequeue ops q of
     (out, q') \<Rightarrow> out @ sq_items q' = sq_items q @ accepted QUEUE_MAX (length (sq_items q)) ops"
  by (auto split: prod.split intro: sq.run_fifo)

end
