(* ===== verification/Usb_Descriptors.thy ===== *)
theory Usb_Descriptors
  imports Prelude
begin

text \<open>
  The structs of \<open>linux/usb/ch9.h\<close> that the sources copy bytes over, with their packed layout,
  the control request, and \<open>definition_error\<close> (\<open>src/lib/DefinitionErrors.h\<close>), the value the
  \<open>is_defined\<close> checks of the device model return.
\<close>

section \<open>Constants of the USB specification\<close>

definition USB_DIR_IN :: u8 where "USB_DIR_IN = 0x80"
definition USB_DT_DEVICE :: u8 where "USB_DT_DEVICE = 1"
definition USB_DT_CONFIG :: u8 where "USB_DT_CONFIG = 2"
definition USB_DT_STRING :: u8 where "USB_DT_STRING = 3"
definition USB_DT_INTERFACE :: u8 where "USB_DT_INTERFACE = 4"
definition USB_DT_ENDPOINT :: u8 where "USB_DT_ENDPOINT = 5"
definition USB_DT_DEVICE_QUALIFIER :: u8 where "USB_DT_DEVICE_QUALIFIER = 6"
definition USB_DT_OTHER_SPEED_CONFIG :: u8 where "USB_DT_OTHER_SPEED_CONFIG = 7"
definition USB_DT_HID :: u8 where "USB_DT_HID = 0x21"
definition USB_REQ_GET_DESCRIPTOR :: u8 where "USB_REQ_GET_DESCRIPTOR = 6"
definition USB_REQ_GET_CONFIGURATION :: u8 where "USB_REQ_GET_CONFIGURATION = 8"
definition USB_REQ_SET_CONFIGURATION :: u8 where "USB_REQ_SET_CONFIGURATION = 9"
definition USB_REQ_GET_INTERFACE :: u8 where "USB_REQ_GET_INTERFACE = 10"
definition USB_RECIP_INTERFACE :: u8 where "USB_RECIP_INTERFACE = 1"

lemmas usb_consts =
  USB_DIR_IN_def USB_DT_DEVICE_def USB_DT_CONFIG_def USB_DT_STRING_def USB_DT_INTERFACE_def
  USB_DT_ENDPOINT_def USB_DT_DEVICE_QUALIFIER_def USB_DT_OTHER_SPEED_CONFIG_def USB_DT_HID_def
  USB_REQ_GET_DESCRIPTOR_def USB_REQ_GET_CONFIGURATION_def USB_REQ_SET_CONFIGURATION_def
  USB_REQ_GET_INTERFACE_def USB_RECIP_INTERFACE_def

section \<open>Control requests\<close>

record usb_ctrlrequest =
  cr_bRequestType :: u8
  cr_bRequest :: u8
  cr_wValue :: u16
  cr_wIndex :: u16
  cr_wLength :: u16

definition ctrl_bytes :: "usb_ctrlrequest \<Rightarrow> bytes" where
  "ctrl_bytes r =
     [cr_bRequestType r, cr_bRequest r, lo8 (cr_wValue r), hi8 (cr_wValue r),
      lo8 (cr_wIndex r), hi8 (cr_wIndex r), lo8 (cr_wLength r), hi8 (cr_wLength r)]"

definition ctrl_of_bytes :: "bytes \<Rightarrow> usb_ctrlrequest" where
  "ctrl_of_bytes b =
     \<lparr>cr_bRequestType = b ! 0, cr_bRequest = b ! 1, cr_wValue = le16 (b ! 2) (b ! 3),
      cr_wIndex = le16 (b ! 4) (b ! 5), cr_wLength = le16 (b ! 6) (b ! 7)\<rparr>"

lemma length_ctrl_bytes [simp]: "length (ctrl_bytes r) = 8"
  by (simp add: ctrl_bytes_def)

lemma ctrl_of_bytes_inverse [simp]: "ctrl_of_bytes (ctrl_bytes r @ rest) = r"
  by (simp add: ctrl_of_bytes_def ctrl_bytes_def)

text \<open>\<open>bRequestType\<close> with the direction bit set: a transfer from the device to the host.\<close>

definition is_in :: "usb_ctrlrequest \<Rightarrow> bool" where
  "is_in r \<longleftrightarrow> cr_bRequestType r AND 0x80 \<noteq> 0"

section \<open>Descriptors\<close>

text \<open>
  An endpoint descriptor is a 9-byte struct of which the endpoint's constructors write the first
  seven bytes; the last two, \<open>bRefresh\<close> and \<open>bSynchAddress\<close>, are \<open>None\<close> while nothing has written
  them.
\<close>

record endpoint_descriptor =
  ep_bLength :: u8
  ep_bDescriptorType :: u8
  ep_bEndpointAddress :: u8
  ep_bmAttributes :: u8
  ep_wMaxPacketSize :: u16
  ep_bInterval :: u8
  ep_bRefresh :: "u8 option"
  ep_bSynchAddress :: "u8 option"

definition endpoint_struct :: "endpoint_descriptor \<Rightarrow> u8 option list" where
  "endpoint_struct d =
     map Some [ep_bLength d, ep_bDescriptorType d, ep_bEndpointAddress d, ep_bmAttributes d,
       lo8 (ep_wMaxPacketSize d), hi8 (ep_wMaxPacketSize d), ep_bInterval d]
     @ [ep_bRefresh d, ep_bSynchAddress d]"

record interface_descriptor =
  if_bLength :: u8
  if_bDescriptorType :: u8
  if_bInterfaceNumber :: u8
  if_bAlternateSetting :: u8
  if_bNumEndpoints :: u8
  if_bInterfaceClass :: u8
  if_bInterfaceSubClass :: u8
  if_bInterfaceProtocol :: u8
  if_iInterface :: u8

definition interface_struct :: "interface_descriptor \<Rightarrow> bytes" where
  "interface_struct d =
     [if_bLength d, if_bDescriptorType d, if_bInterfaceNumber d, if_bAlternateSetting d,
      if_bNumEndpoints d, if_bInterfaceClass d, if_bInterfaceSubClass d,
      if_bInterfaceProtocol d, if_iInterface d]"

definition interface_of_bytes :: "bytes \<Rightarrow> interface_descriptor" where
  "interface_of_bytes b =
     \<lparr>if_bLength = b ! 0, if_bDescriptorType = b ! 1, if_bInterfaceNumber = b ! 2,
      if_bAlternateSetting = b ! 3, if_bNumEndpoints = b ! 4, if_bInterfaceClass = b ! 5,
      if_bInterfaceSubClass = b ! 6, if_bInterfaceProtocol = b ! 7, if_iInterface = b ! 8\<rparr>"

record config_descriptor =
  cf_bLength :: u8
  cf_bDescriptorType :: u8
  cf_wTotalLength :: u16
  cf_bNumInterfaces :: u8
  cf_bConfigurationValue :: u8
  cf_iConfiguration :: u8
  cf_bmAttributes :: u8
  cf_bMaxPower :: u8

definition config_struct :: "config_descriptor \<Rightarrow> bytes" where
  "config_struct d =
     [cf_bLength d, cf_bDescriptorType d, lo8 (cf_wTotalLength d), hi8 (cf_wTotalLength d),
      cf_bNumInterfaces d, cf_bConfigurationValue d, cf_iConfiguration d, cf_bmAttributes d,
      cf_bMaxPower d]"

definition config_of_bytes :: "bytes \<Rightarrow> config_descriptor" where
  "config_of_bytes b =
     \<lparr>cf_bLength = b ! 0, cf_bDescriptorType = b ! 1, cf_wTotalLength = le16 (b ! 2) (b ! 3),
      cf_bNumInterfaces = b ! 4, cf_bConfigurationValue = b ! 5, cf_iConfiguration = b ! 6,
      cf_bmAttributes = b ! 7, cf_bMaxPower = b ! 8\<rparr>"

record device_descriptor =
  dd_bLength :: u8
  dd_bDescriptorType :: u8
  dd_bcdUSB :: u16
  dd_bDeviceClass :: u8
  dd_bDeviceSubClass :: u8
  dd_bDeviceProtocol :: u8
  dd_bMaxPacketSize0 :: u8
  dd_idVendor :: u16
  dd_idProduct :: u16
  dd_bcdDevice :: u16
  dd_iManufacturer :: u8
  dd_iProduct :: u8
  dd_iSerialNumber :: u8
  dd_bNumConfigurations :: u8

definition device_struct :: "device_descriptor \<Rightarrow> bytes" where
  "device_struct d =
     [dd_bLength d, dd_bDescriptorType d, lo8 (dd_bcdUSB d), hi8 (dd_bcdUSB d),
      dd_bDeviceClass d, dd_bDeviceSubClass d, dd_bDeviceProtocol d, dd_bMaxPacketSize0 d,
      lo8 (dd_idVendor d), hi8 (dd_idVendor d), lo8 (dd_idProduct d), hi8 (dd_idProduct d),
      lo8 (dd_bcdDevice d), hi8 (dd_bcdDevice d), dd_iManufacturer d, dd_iProduct d,
      dd_iSerialNumber d, dd_bNumConfigurations d]"

definition device_of_bytes :: "bytes \<Rightarrow> device_descriptor" where
  "device_of_bytes b =
     \<lparr>dd_bLength = b ! 0, dd_bDescriptorType = b ! 1, dd_bcdUSB = le16 (b ! 2) (b ! 3),
      dd_bDeviceClass = b ! 4, dd_bDeviceSubClass = b ! 5, dd_bDeviceProtocol = b ! 6,
      dd_bMaxPacketSize0 = b ! 7, dd_idVendor = le16 (b ! 8) (b ! 9),
      dd_idProduct = le16 (b ! 10) (b ! 11), dd_bcdDevice = le16 (b ! 12) (b ! 13),
      dd_iManufacturer = b ! 14, dd_iProduct = b ! 15, dd_iSerialNumber = b ! 16,
      dd_bNumConfigurations = b ! 17\<rparr>"

record qualifier_descriptor =
  dq_bLength :: u8
  dq_bDescriptorType :: u8
  dq_bcdUSB :: u16
  dq_bDeviceClass :: u8
  dq_bDeviceSubClass :: u8
  dq_bDeviceProtocol :: u8
  dq_bMaxPacketSize0 :: u8
  dq_bNumConfigurations :: u8
  dq_bRESERVED :: u8

lemma struct_lengths [simp]:
  "length (endpoint_struct ed) = 9" "length (interface_struct i) = 9"
  "length (config_struct c) = 9" "length (device_struct d) = 18"
  by (simp_all add: endpoint_struct_def interface_struct_def config_struct_def
      device_struct_def)

lemma interface_of_bytes_inverse [simp]: "interface_of_bytes (interface_struct d @ rest) = d"
  by (simp add: interface_of_bytes_def interface_struct_def)

lemma config_of_bytes_inverse [simp]: "config_of_bytes (config_struct d @ rest) = d"
  by (simp add: config_of_bytes_def config_struct_def)

lemma device_of_bytes_inverse [simp]: "device_of_bytes (device_struct d @ rest) = d"
  by (simp add: device_of_bytes_def device_struct_def)

lemmas struct_of_bytes_inverse' [simp] =
  interface_of_bytes_inverse [of _ "[]", simplified]
  config_of_bytes_inverse [of _ "[]", simplified]
  device_of_bytes_inverse [of _ "[]", simplified]
  ctrl_of_bytes_inverse [of _ "[]", simplified]

text \<open>Bytes of a struct of which some may not have been written.\<close>

fun written :: "u8 option list \<Rightarrow> bytes res" where
  "written [] = Inr []"
| "written (None # bs) = Inl Uninit"
| "written (Some b # bs) = and_then (written bs) (\<lambda>r. Inr (b # r))"

lemma written_eq_Inr [res_simps]: "written ps = Inr bs \<longleftrightarrow> ps = map Some bs"
  by (induction ps arbitrary: bs rule: written.induct) (auto simp: res_simps)

lemma written_map_Some_append [simp]:
  "written (map Some bs @ ps) = and_then (written ps) (\<lambda>r. Inr (bs @ r))"
  by (induction bs) (simp_all add: and_then_assoc and_then_def split: sum.split)

lemma written_map_Some [simp]: "written (map Some bs) = Inr bs"
  by (simp add: written_eq_Inr)

section \<open>Definition errors\<close>

datatype de_obj_type =
  DE_OBJ_NONE | DE_OBJ_DEVICE | DE_OBJ_CONFIG | DE_OBJ_STRING | DE_OBJ_INTERFACE
  | DE_OBJ_ENDPOINT | DE_OBJ_QUALIFIER | DE_OBJ_OS_CONFIG | DE_OBJ_INTERFACEGROUP

datatype de_error =
  DE_ERR_NONE | DE_ERR_INVALID_DESCRIPTOR | DE_ERR_NULL_OBJECT | DE_ERR_MISSING_LANGUAGE
  | DE_ERR_MISPLACED_OBJECT | DE_ERR_MISPLACED_IF_NUM

record definition_error =
  de_err :: de_error
  de_detail :: u16
  de_object :: de_obj_type
  de_configId :: u8
  de_interfaceNum :: u8
  de_interfaceAlternate :: u8
  de_endpointNum :: u8

definition no_error :: definition_error where
  "no_error =
     \<lparr>de_err = DE_ERR_NONE, de_detail = 0, de_object = DE_OBJ_NONE, de_configId = 0,
      de_interfaceNum = 0, de_interfaceAlternate = 0, de_endpointNum = 0\<rparr>"

definition def_error ::
  "de_error \<Rightarrow> u16 \<Rightarrow> de_obj_type \<Rightarrow> u8 \<Rightarrow> u8 \<Rightarrow> u8 \<Rightarrow> u8 \<Rightarrow> definition_error" where
  "def_error e detail obj cfg num alt ep =
     \<lparr>de_err = e, de_detail = detail, de_object = obj, de_configId = cfg,
      de_interfaceNum = num, de_interfaceAlternate = alt, de_endpointNum = ep\<rparr>"

lemma de_err_simps [simp]:
  "de_err no_error = DE_ERR_NONE" "de_err (def_error e detail obj cfg num alt ep) = e"
  by (simp_all add: no_error_def def_error_def)

text \<open>
  The checks run in sequence and the first error is returned: \<open>first_error f xs\<close> is the loop
  that applies \<open>f\<close> to each element and stops at the first result that is an error.
\<close>

fun first_error :: "('a \<Rightarrow> definition_error res) \<Rightarrow> 'a list \<Rightarrow> definition_error res" where
  "first_error f [] = Inr no_error"
| "first_error f (x # xs) =
     and_then (f x) (\<lambda>rc. if de_err rc \<noteq> DE_ERR_NONE then Inr rc else first_error f xs)"

lemma first_error_none:
  "first_error f xs = Inr rc \<Longrightarrow>
   de_err rc = DE_ERR_NONE \<longleftrightarrow>
     (\<forall>x\<in>set xs. \<exists>rc'. f x = Inr rc' \<and> de_err rc' = DE_ERR_NONE)"
  by (induction xs) (auto simp: res_simps split: if_splits)

lemma first_error_none_iff:
  "(\<exists>rc. first_error f xs = Inr rc \<and> de_err rc = DE_ERR_NONE) \<longleftrightarrow>
     (\<forall>x\<in>set xs. \<exists>rc. f x = Inr rc \<and> de_err rc = DE_ERR_NONE)"
  by (induction xs) (auto simp: res_simps split: if_splits)

lemma first_error_cong [fundef_cong]:
  "xs = ys \<Longrightarrow> (\<And>x. x \<in> set ys \<Longrightarrow> f x = g x) \<Longrightarrow> first_error f xs = first_error g ys"
proof (hypsubst_thin, induction ys)
  case (Cons y ys)
  then have "first_error f ys = first_error g ys" by simp
  with Cons.prems show ?case by (simp cong: if_cong)
qed simp

end
