(* ===== verification/Endpoint_Model.thy ===== *)
theory Endpoint_Model
  imports Usb_Descriptors
begin

text \<open>
  Endpoints and HID descriptors (\<open>src/lib/Endpoint.cpp\<close>, \<open>src/lib/HID.cpp\<close>). An endpoint object is
  its descriptor (the pointer to its interface is left to the interface, which owns it); a HID
  object is the block of \<open>bLength\<close> bytes that it copied.
\<close>

section \<open>Endpoints\<close>

text \<open>\<open>Endpoint(Interface*, const __u8*)\<close>: seven bytes are copied from the buffer.\<close>

definition endpoint_of_buffer :: "bytes \<Rightarrow> endpoint_descriptor res" where
  "endpoint_of_buffer p =
     and_then (first_n p 7) (\<lambda>b. Inr
       \<lparr>ep_bLength = b ! 0, ep_bDescriptorType = b ! 1, ep_bEndpointAddress = b ! 2,
        ep_bmAttributes = b ! 3, ep_wMaxPacketSize = le16 (b ! 4) (b ! 5),
        ep_bInterval = b ! 6, ep_bRefresh = None, ep_bSynchAddress = None\<rparr>)"

definition new_endpoint :: "u8 \<Rightarrow> u8 \<Rightarrow> u16 \<Rightarrow> u8 \<Rightarrow> endpoint_descriptor" where
  "new_endpoint bEndpointAddress bmAttributes wMaxPacketSize bInterval =
     \<lparr>ep_bLength = 7, ep_bDescriptorType = USB_DT_ENDPOINT,
      ep_bEndpointAddress = bEndpointAddress, ep_bmAttributes = bmAttributes,
      ep_wMaxPacketSize = wMaxPacketSize, ep_bInterval = bInterval,
      ep_bRefresh = None, ep_bSynchAddress = None\<rparr>"

definition endpoint_full_length :: "endpoint_descriptor \<Rightarrow> nat" where
  "endpoint_full_length d = unat (ep_bLength d)"

text \<open>\<open>get_full_descriptor\<close> copies \<open>bLength\<close> bytes out of the 9-byte struct.\<close>

definition endpoint_full :: "endpoint_descriptor \<Rightarrow> bytes res" where
  "endpoint_full d = and_then (first_n (endpoint_struct d) (unat (ep_bLength d))) written"

definition endpoint_is_defined ::
  "u8 \<Rightarrow> u8 \<Rightarrow> u8 \<Rightarrow> endpoint_descriptor \<Rightarrow> definition_error" where
  "endpoint_is_defined configId interfaceNum interfaceAlternate d =
     (let err = (\<lambda>detail. def_error DE_ERR_INVALID_DESCRIPTOR detail DE_OBJ_ENDPOINT
                   configId interfaceNum interfaceAlternate (ep_bEndpointAddress d)) in
      if ep_bLength d \<noteq> 7 then err 0x01
      else if ep_bDescriptorType d \<noteq> USB_DT_ENDPOINT then err 0x02
      else if ep_bEndpointAddress d AND 0x70 \<noteq> 0 then err 0x03
      else if ep_bmAttributes d AND 0xC0 \<noteq> 0
        \<or> (ep_bmAttributes d AND 0x03 \<noteq> 1 \<and> ep_bmAttributes d AND 0xFC \<noteq> 0) then err 0x04
      else if (ep_bmAttributes d AND 0x03 = 1 \<and> ep_bInterval d \<noteq> 1)
        \<or> (ep_bmAttributes d AND 0x03 = 3 \<and> ep_bInterval d = 1) then err 0x05
      else no_error)"

text \<open>The endpoints that the check accepts.\<close>

definition endpoint_ok :: "endpoint_descriptor \<Rightarrow> bool" where
  "endpoint_ok d \<longleftrightarrow>
     ep_bLength d = 7 \<and> ep_bDescriptorType d = USB_DT_ENDPOINT \<and>
     ep_bEndpointAddress d AND 0x70 = 0 \<and>
     ep_bmAttributes d AND 0xC0 = 0 \<and>
     (ep_bmAttributes d AND 0x03 = 1 \<or> ep_bmAttributes d AND 0xFC = 0) \<and>
     (ep_bmAttributes d AND 0x03 = 1 \<longrightarrow> ep_bInterval d = 1) \<and>
     (ep_bmAttributes d AND 0x03 = 3 \<longrightarrow> ep_bInterval d \<noteq> 1)"

lemma endpoint_is_defined_iff:
  "de_err (endpoint_is_defined c n a d) = DE_ERR_NONE \<longleftrightarrow> endpoint_ok d"
  by (auto simp: endpoint_is_defined_def endpoint_ok_def Let_def)

text \<open>A 7-byte descriptor, as the constructors leave it.\<close>

definition endpoint_plain :: "endpoint_descriptor \<Rightarrow> bool" where
  "endpoint_plain d \<longleftrightarrow>
     ep_bLength d = 7 \<and> ep_bDescriptorType d = USB_DT_ENDPOINT \<and>
     ep_bRefresh d = None \<and> ep_bSynchAddress d = None"

definition endpoint_bytes :: "endpoint_descriptor \<Rightarrow> bytes" where
  "endpoint_bytes d =
     [ep_bLength d, ep_bDescriptorType d, ep_bEndpointAddress d, ep_bmAttributes d,
      lo8 (ep_wMaxPacketSize d), hi8 (ep_wMaxPacketSize d), ep_bInterval d]"

lemma length_endpoint_bytes [simp]: "length (endpoint_bytes d) = 7"
  by (simp add: endpoint_bytes_def)

lemma endpoint_bytes_nth [simp]:
  "endpoint_bytes d ! 0 = ep_bLength d" "endpoint_bytes d ! Suc 0 = ep_bDescriptorType d"
  by (simp_all add: endpoint_bytes_def)

lemma endpoint_full_plain: "endpoint_plain d \<Longrightarrow> endpoint_full d = Inr (endpoint_bytes d)"
  by (simp add: endpoint_full_def endpoint_plain_def endpoint_struct_def endpoint_bytes_def)

lemma endpoint_full_length_eq: "endpoint_full d = Inr bs \<Longrightarrow> endpoint_full_length d = length bs"
  by (auto simp: endpoint_full_def endpoint_full_length_def res_simps
      dest!: arg_cong [where f = length])

lemma endpoint_of_buffer_bytes:
  "endpoint_plain d \<Longrightarrow> endpoint_of_buffer (endpoint_bytes d @ rest) = Inr d"
  by (simp add: endpoint_of_buffer_def endpoint_plain_def endpoint_bytes_def)

section \<open>HID and generic descriptors\<close>

text \<open>
  Both are blocks on the heap that hold the \<open>bLength\<close> bytes copied from the buffer, the first
  byte being \<open>bLength\<close> itself.
\<close>

definition block_of_buffer :: "bytes \<Rightarrow> bytes res" where
  "block_of_buffer p = and_then (index p 0) (\<lambda>n. first_n p (unat n))"

definition block_full_length :: "bytes \<Rightarrow> nat res" where
  "block_full_length b = and_then (index b 0) (\<lambda>n. Inr (unat n))"

definition block_full :: "bytes \<Rightarrow> bytes res" where
  "block_full b = and_then (index b 0) (\<lambda>n. first_n b (unat n))"

text \<open>\<open>HID(bcdHID, bCountryCode, bNumDescriptors, descriptors)\<close>; \<open>bLength\<close> is a byte, and the
  block has \<open>6 + 3 * bNumDescriptors\<close> of them.\<close>

definition new_hid :: "u16 \<Rightarrow> u8 \<Rightarrow> u8 \<Rightarrow> bytes \<Rightarrow> bytes res" where
  "new_hid bcdHID bCountryCode bNumDescriptors descriptors =
     (let bLength = 6 + unat bNumDescriptors * 3 in
      and_then (if bNumDescriptors \<noteq> 0 then first_n descriptors (unat bNumDescriptors * 3)
                else Inr [])
        (\<lambda>ds. Inr ([of_nat bLength, USB_DT_HID, lo8 bcdHID, hi8 bcdHID, bCountryCode,
                    bNumDescriptors] @ ds)))"

definition block_ok :: "bytes \<Rightarrow> bool" where
  "block_ok b \<longleftrightarrow> 2 \<le> length b \<and> unat (b ! 0) = length b"

lemma block_ok_length: "block_ok b \<Longrightarrow> length b < 256"
  unfolding block_ok_def by (metis unat_u8_less)

lemma block_ok_index [simp]:
  assumes "block_ok b"
  shows "index (b @ rest) 0 = Inr (of_nat (length b))"
proof -
  have "b ! 0 = of_nat (length b)"
    using assms by (metis block_ok_def unsigned_word_eqI unat_of_nat_u8 block_ok_length)
  with assms show ?thesis by (cases b) (auto simp: block_ok_def index_def)
qed

lemma block_full_ok: "block_ok b \<Longrightarrow> block_full b = Inr b"
  using block_ok_index [of b "[]"] block_ok_length [of b]
  by (simp add: block_full_def unat_of_nat_u8)

lemma block_full_length_eq: "block_full b = Inr bs \<Longrightarrow> block_full_length b = Inr (length bs)"
  by (auto simp: block_full_def block_full_length_def res_simps)

lemma block_of_buffer_ok: "block_ok b \<Longrightarrow> block_of_buffer (b @ rest) = Inr b"
  using block_ok_length [of b] by (simp add: block_of_buffer_def unat_of_nat_u8)

lemma new_hid_block:
  assumes "new_hid bcd cc n ds = Inr b" "unat n \<le> 83"
  shows "block_ok b"
proof -
  have len: "unat (of_nat (6 + unat n * 3) :: u8) = 6 + unat n * 3"
    using assms(2) by (intro unat_of_nat_u8) simp
  from assms(1) show ?thesis
    by (auto simp: new_hid_def block_ok_def res_simps Let_def len
        simp del: of_nat_add of_nat_mult split: if_splits)
qed

end
