(* ===== verification/Interface_Model.thy ===== *)
theory Interface_Model
  imports Endpoint_Model "HOL-Library.Sublist"
begin

text \<open>
  One alternate setting of an interface (\<open>src/lib/Interface.cpp\<close>): its descriptor, an array of
  \<open>bNumEndpoints\<close> endpoint pointers, an optional HID descriptor and the class-specific
  descriptors the code calls generic. The parsing constructor reads a configuration descriptor
  through a pointer \<open>*p\<close> that it advances; a pointer is the list of the bytes from it to the end
  \<open>e\<close> of the buffer, and an access past \<open>e\<close> is a fault.
\<close>

section \<open>State\<close>

record iface =
  if_descriptor :: interface_descriptor
  if_endpoints :: "endpoint_descriptor option list"
  if_hid :: "bytes option"
  if_generics :: "bytes list"

text \<open>The endpoint array is never resized.\<close>

definition iface_wf :: "iface \<Rightarrow> bool" where
  "iface_wf ic \<longleftrightarrow>
     length (if_endpoints ic) = unat (if_bNumEndpoints (if_descriptor ic)) \<and>
     length (if_generics ic) < 256"

definition iface_of_descriptor :: "interface_descriptor \<Rightarrow> iface" where
  "iface_of_descriptor d =
     \<lparr>if_descriptor = d, if_endpoints = replicate (unat (if_bNumEndpoints d)) None,
      if_hid = None, if_generics = []\<rparr>"

definition new_iface :: "u8 \<Rightarrow> u8 \<Rightarrow> u8 \<Rightarrow> u8 \<Rightarrow> u8 \<Rightarrow> u8 \<Rightarrow> u8 \<Rightarrow> iface" where
  "new_iface bInterfaceNumber bAlternateSetting bNumEndpoints bInterfaceClass
     bInterfaceSubClass bInterfaceProtocol iInterface =
     iface_of_descriptor
       \<lparr>if_bLength = 9, if_bDescriptorType = USB_DT_INTERFACE,
        if_bInterfaceNumber = bInterfaceNumber, if_bAlternateSetting = bAlternateSetting,
        if_bNumEndpoints = bNumEndpoints, if_bInterfaceClass = bInterfaceClass,
        if_bInterfaceSubClass = bInterfaceSubClass,
        if_bInterfaceProtocol = bInterfaceProtocol, if_iInterface = iInterface\<rparr>"

section \<open>Parsing\<close>

text \<open>
  The generic descriptors live in an array that is reallocated for \<open>generic_descriptor_count\<close>
  pointers, a byte: after 255 of them the count wraps to 0 and the store goes to index -1.
\<close>

definition append_generic :: "bytes list \<Rightarrow> bytes \<Rightarrow> bytes list res" where
  "append_generic gs d = (if length gs = 255 then Inl OutOfBounds else Inr (gs @ [d]))"

text \<open>The loop before the interface descriptor; its condition reads \<open>(*p)[1]\<close> before it
  compares \<open>*p\<close> with \<open>e\<close>.\<close>

fun skip_generics :: "nat \<Rightarrow> bytes list \<Rightarrow> bytes \<Rightarrow> (bytes list \<times> bytes) res" where
  "skip_generics 0 gs p = Inl OutOfFuel"
| "skip_generics (Suc fuel) gs p =
     and_then (index p 1) (\<lambda>ty.
       if ty = 4 \<or> p = [] then Inr (gs, p)
       else and_then (block_of_buffer p) (\<lambda>d.
         and_then (append_generic gs d) (\<lambda>gs'.
           skip_generics fuel gs' (drop (unat (p ! 0)) p))))"

text \<open>\<open>memcpy(&descriptor,*p,**p)\<close>: the length in the buffer, not the size of the struct, says how
  many bytes are copied. More than nine overwrite the members after the struct, fewer leave
  fields without a value.\<close>

definition read_descriptor :: "bytes \<Rightarrow> interface_descriptor res" where
  "read_descriptor p =
     and_then (block_of_buffer p) (\<lambda>b.
       if length b > 9 then Inl StructOverflow
       else if length b < 9 then Inl Uninit
       else Inr (interface_of_bytes b))"

text \<open>The \<open>switch\<close> of the main loop; \<open>ep\<close> is the next free endpoint.\<close>

definition parse_item :: "nat \<Rightarrow> iface \<Rightarrow> bytes \<Rightarrow> (nat \<times> iface) res" where
  "parse_item ep ic p =
     and_then (index p 1) (\<lambda>ty.
       if ty = 5 then
         and_then (endpoint_of_buffer p) (\<lambda>d.
           and_then (store (if_endpoints ic) ep (Some d)) (\<lambda>es.
             Inr (Suc ep, ic\<lparr>if_endpoints := es\<rparr>)))
       else if ty = 0x21 then
         and_then (block_of_buffer p) (\<lambda>h. Inr (ep, ic\<lparr>if_hid := Some h\<rparr>))
       else
         and_then (block_of_buffer p) (\<lambda>d.
           and_then (append_generic (if_generics ic) d) (\<lambda>gs.
             Inr (ep, ic\<lparr>if_generics := gs\<rparr>))))"

fun parse_items :: "nat \<Rightarrow> nat \<Rightarrow> iface \<Rightarrow> bytes \<Rightarrow> (iface \<times> bytes) res" where
  "parse_items 0 ep ic p = Inl OutOfFuel"
| "parse_items (Suc fuel) ep ic p =
     (if p = [] then Inr (ic, p)
      else and_then (index p 1) (\<lambda>ty.
        if ty = 4 then Inr (ic, p)
        else and_then (parse_item ep ic p) (\<lambda>(ep', ic').
          parse_items fuel ep' ic' (drop (unat (p ! 0)) p))))"

text \<open>\<open>Interface(Configuration*, __u8**, const __u8*)\<close>: the interface and the advanced pointer.\<close>

definition parse_iface :: "nat \<Rightarrow> bytes \<Rightarrow> (iface \<times> bytes) res" where
  "parse_iface fuel p =
     and_then (skip_generics fuel [] p) (\<lambda>(gs, p1).
       and_then (read_descriptor p1) (\<lambda>d.
         parse_items fuel 0
           \<lparr>if_descriptor = d, if_endpoints = replicate (unat (if_bNumEndpoints d)) None,
            if_hid = None, if_generics = gs\<rparr>
           (drop (unat (p1 ! 0)) p1)))"

section \<open>Serialisation\<close>

definition the_endpoints :: "iface \<Rightarrow> endpoint_descriptor option list res" where
  "the_endpoints ic = first_n (if_endpoints ic) (unat (if_bNumEndpoints (if_descriptor ic)))"

definition iface_full_length :: "iface \<Rightarrow> nat res" where
  "iface_full_length ic =
     and_then (case if_hid ic of None \<Rightarrow> Inr 0 | Some h \<Rightarrow> block_full_length h) (\<lambda>h.
       and_then (sum_of block_full_length (if_generics ic)) (\<lambda>g.
         and_then (the_endpoints ic) (\<lambda>es.
           and_then (sum_of (\<lambda>e. case e of None \<Rightarrow> Inr 0 | Some d \<Rightarrow> Inr (endpoint_full_length d)) es)
             (\<lambda>n. Inr (unat (if_bLength (if_descriptor ic)) + h + g + n)))))"

definition iface_full :: "iface \<Rightarrow> bytes res" where
  "iface_full ic =
     and_then (first_n (interface_struct (if_descriptor ic))
                 (unat (if_bLength (if_descriptor ic)))) (\<lambda>b.
       and_then (case if_hid ic of None \<Rightarrow> Inr [] | Some h \<Rightarrow> block_full h) (\<lambda>h.
         and_then (concat_of block_full (if_generics ic)) (\<lambda>g.
           and_then (the_endpoints ic) (\<lambda>es.
             and_then (concat_of (\<lambda>e. case e of None \<Rightarrow> Inr [] | Some d \<Rightarrow> endpoint_full d) es)
               (\<lambda>n. Inr (b @ h @ g @ n))))))"

section \<open>Endpoints and generic descriptors\<close>

fun place_endpoint ::
  "endpoint_descriptor \<Rightarrow> endpoint_descriptor option list \<Rightarrow> endpoint_descriptor option list" where
  "place_endpoint e [] = []"
| "place_endpoint e (None # es) = Some e # es"
| "place_endpoint e (Some e' # es) =
     (if ep_bEndpointAddress e' = ep_bEndpointAddress e then Some e # es
      else Some e' # place_endpoint e es)"

text \<open>\<open>add_endpoint\<close>: the first entry that is free or has the same address takes the endpoint;
  when there is none the endpoint is dropped. (The message about storage space is printed in
  every case.)\<close>

definition add_endpoint :: "iface \<Rightarrow> endpoint_descriptor \<Rightarrow> iface res" where
  "add_endpoint ic e =
     and_then (the_endpoints ic) (\<lambda>es.
       Inr (ic\<lparr>if_endpoints := place_endpoint e es @ drop (length es) (if_endpoints ic)\<rparr>))"

definition get_endpoint_by_idx :: "iface \<Rightarrow> u8 \<Rightarrow> endpoint_descriptor option res" where
  "get_endpoint_by_idx ic i =
     (if i \<ge> if_bNumEndpoints (if_descriptor ic) then Inr None
      else index (if_endpoints ic) (unat i))"

fun find_endpoint ::
  "u8 \<Rightarrow> endpoint_descriptor option list \<Rightarrow> endpoint_descriptor option res" where
  "find_endpoint a [] = Inr None"
| "find_endpoint a (e # es) =
     and_then (deref e) (\<lambda>d.
       if ep_bEndpointAddress d = a then Inr (Some d) else find_endpoint a es)"

definition get_endpoint_by_address :: "iface \<Rightarrow> u8 \<Rightarrow> endpoint_descriptor option res" where
  "get_endpoint_by_address ic a = and_then (the_endpoints ic) (find_endpoint a)"

definition get_endpoint_count :: "iface \<Rightarrow> u8" where
  "get_endpoint_count ic = if_bNumEndpoints (if_descriptor ic)"

definition get_generic_descriptor :: "iface \<Rightarrow> u8 \<Rightarrow> bytes option res" where
  "get_generic_descriptor ic i =
     (if unat i \<ge> length (if_generics ic) then Inr None
      else and_then (index (if_generics ic) (unat i)) (\<lambda>g. Inr (Some g)))"

definition get_generic_descriptor_count :: "iface \<Rightarrow> u8" where
  "get_generic_descriptor_count ic = of_nat (length (if_generics ic))"

text \<open>\<open>add_generic_descriptor\<close> does not change the count: it overwrites the last pointer, and with
  none it stores before the array.\<close>

definition add_generic_descriptor :: "iface \<Rightarrow> bytes \<Rightarrow> iface res" where
  "add_generic_descriptor ic gd =
     and_then (block_full gd) (\<lambda>d.
       if if_generics ic = [] then Inl OutOfBounds
       else Inr (ic\<lparr>if_generics := butlast (if_generics ic) @ [d]\<rparr>))"

definition has_HID :: "iface \<Rightarrow> bool" where
  "has_HID ic = (if_hid ic \<noteq> None)"

definition get_HID_descriptor_length :: "iface \<Rightarrow> nat res" where
  "get_HID_descriptor_length ic = and_then (deref (if_hid ic)) block_full_length"

section \<open>The definition check\<close>

definition iface_is_defined :: "u8 \<Rightarrow> u8 \<Rightarrow> iface \<Rightarrow> definition_error res" where
  "iface_is_defined configId interfaceNum ic =
     (let d = if_descriptor ic;
          alt = if_bAlternateSetting d;
          err = (\<lambda>detail. Inr (def_error DE_ERR_INVALID_DESCRIPTOR detail DE_OBJ_INTERFACE
                   configId interfaceNum alt 0)) in
      if if_bLength d \<noteq> 9 then err 0x01
      else if if_bDescriptorType d \<noteq> USB_DT_INTERFACE then err 0x02
      else and_then (the_endpoints ic) (\<lambda>es.
        first_error
          (\<lambda>(i, e). case e of
             None \<Rightarrow> Inr (def_error DE_ERR_NULL_OBJECT 0 DE_OBJ_ENDPOINT configId interfaceNum
                       alt (of_nat i))
           | Some ed \<Rightarrow> Inr (endpoint_is_defined configId interfaceNum alt ed))
          (enumerate 0 es)))"

section \<open>Lemmas: the definition check and serialisation\<close>

definition iface_defined :: "iface \<Rightarrow> bool" where
  "iface_defined ic \<longleftrightarrow>
     if_bLength (if_descriptor ic) = 9 \<and>
     if_bDescriptorType (if_descriptor ic) = USB_DT_INTERFACE \<and>
     (\<forall>e\<in>set (if_endpoints ic). \<exists>d. e = Some d \<and> endpoint_ok d)"

lemma the_endpoints_wf [simp]: "iface_wf ic \<Longrightarrow> the_endpoints ic = Inr (if_endpoints ic)"
  by (simp add: the_endpoints_def iface_wf_def)

lemma ball_enumerate_snd:
  "(\<forall>(i, x)\<in>set (enumerate n xs). P x) \<longleftrightarrow> (\<forall>x\<in>set xs. P x)"
  by (induction xs arbitrary: n) auto

lemma iface_is_defined_iff:
  assumes "iface_wf ic"
  shows "(\<exists>rc. iface_is_defined c n ic = Inr rc \<and> de_err rc = DE_ERR_NONE) \<longleftrightarrow> iface_defined ic"
proof -
  have *: "(\<exists>rc. (case p of (i, e) \<Rightarrow> case e of
        None \<Rightarrow> Inr (def_error DE_ERR_NULL_OBJECT 0 DE_OBJ_ENDPOINT c n a (of_nat i))
      | Some ed \<Rightarrow> Inr (endpoint_is_defined c n a ed)) = Inr rc \<and> de_err rc = DE_ERR_NONE)
      \<longleftrightarrow> (case p of (i, e) \<Rightarrow> \<exists>d. e = Some d \<and> endpoint_ok d)" for a p
    by (auto simp: endpoint_is_defined_iff split: option.splits prod.splits)
  show ?thesis
    using assms ball_enumerate_snd [of 0 "if_endpoints ic" "\<lambda>e. \<exists>d. e = Some d \<and> endpoint_ok d"]
    by (simp add: iface_is_defined_def iface_defined_def Let_def first_error_none_iff *)
qed

lemma iface_full_length_eq:
  assumes "iface_full ic = Inr bs"
  shows "iface_full_length ic = Inr (length bs)"
proof -
  from assms obtain h g es n where
    h: "(case if_hid ic of None \<Rightarrow> Inr [] | Some h \<Rightarrow> block_full h) = Inr h"
    and g: "concat_of block_full (if_generics ic) = Inr g"
    and es: "the_endpoints ic = Inr es"
    and n: "concat_of (\<lambda>e. case e of None \<Rightarrow> Inr [] | Some d \<Rightarrow> endpoint_full d) es = Inr n"
    and bs: "unat (if_bLength (if_descriptor ic)) \<le> 9"
      "bs = take (unat (if_bLength (if_descriptor ic))) (interface_struct (if_descriptor ic)) @ h @ g @ n"
    by (auto simp: iface_full_def and_then_eq_Inr first_n_eq_Inr)
  have "(case if_hid ic of None \<Rightarrow> Inr 0 | Some h \<Rightarrow> block_full_length h) = Inr (length h)"
    using h by (auto split: option.splits intro: block_full_length_eq)
  moreover have "sum_of block_full_length (if_generics ic) = Inr (length g)"
    using g by (rule sum_of_length [rotated]) (rule block_full_length_eq)
  moreover have "sum_of (\<lambda>e. case e of None \<Rightarrow> Inr 0 | Some d \<Rightarrow> Inr (endpoint_full_length d)) es
      = Inr (length n)"
    using n by (rule sum_of_length [rotated])
      (auto split: option.splits simp: endpoint_full_length_eq)
  ultimately show ?thesis using es bs by (simp add: iface_full_length_def)
qed

text \<open>An interface whose descriptors all have the lengths and types that the parser expects.\<close>

definition generic_ok :: "bytes \<Rightarrow> bool" where
  "generic_ok g \<longleftrightarrow> block_ok g \<and> g ! 1 \<notin> {4, 5, 0x21}"

definition hid_ok :: "bytes \<Rightarrow> bool" where
  "hid_ok h \<longleftrightarrow> block_ok h \<and> h ! 1 = 0x21"

definition iface_plain :: "iface \<Rightarrow> bool" where
  "iface_plain ic \<longleftrightarrow>
     iface_wf ic \<and> if_bLength (if_descriptor ic) = 9 \<and>
     if_bDescriptorType (if_descriptor ic) = USB_DT_INTERFACE \<and>
     (\<forall>h. if_hid ic = Some h \<longrightarrow> hid_ok h) \<and>
     (\<forall>g\<in>set (if_generics ic). generic_ok g) \<and>
     (\<forall>e\<in>set (if_endpoints ic). \<exists>d. e = Some d \<and> endpoint_plain d)"

definition iface_bytes :: "iface \<Rightarrow> bytes" where
  "iface_bytes ic =
     interface_struct (if_descriptor ic)
     @ (case if_hid ic of None \<Rightarrow> [] | Some h \<Rightarrow> h)
     @ concat (if_generics ic)
     @ concat (map endpoint_bytes (somes (if_endpoints ic)))"

lemma iface_plainD:
  assumes "iface_plain ic"
  shows "iface_wf ic" "if_bLength (if_descriptor ic) = 9"
    "if_bDescriptorType (if_descriptor ic) = 4" "length (if_generics ic) < 256"
    "length (if_endpoints ic) = unat (if_bNumEndpoints (if_descriptor ic))"
    "if_hid ic = Some h \<Longrightarrow> hid_ok h" "g \<in> set (if_generics ic) \<Longrightarrow> generic_ok g"
    "e \<in> set (if_endpoints ic) \<Longrightarrow> \<exists>d. e = Some d \<and> endpoint_plain d"
  using assms by (auto simp: iface_plain_def iface_wf_def usb_consts)

lemma concat_of_Inr: "(\<And>x. x \<in> set xs \<Longrightarrow> f x = Inr (g x)) \<Longrightarrow> concat_of f xs = Inr (concat (map g xs))"
  by (induction xs) simp_all

lemma concat_of_endpoints:
  "\<forall>e\<in>set es. \<exists>d. e = Some d \<and> endpoint_plain d \<Longrightarrow>
   concat_of (\<lambda>e. case e of None \<Rightarrow> Inr [] | Some d \<Rightarrow> endpoint_full d) es
     = Inr (concat (map endpoint_bytes (somes es)))"
  by (induction es) (auto simp: endpoint_full_plain)

lemma iface_full_plain:
  assumes "iface_plain ic"
  shows "iface_full ic = Inr (iface_bytes ic)"
proof -
  note D = iface_plainD [OF assms]
  have "concat_of block_full (if_generics ic) = Inr (concat (map id (if_generics ic)))"
    using D(7) by (intro concat_of_Inr) (simp add: generic_ok_def block_full_ok)
  moreover have "(case if_hid ic of None \<Rightarrow> Inr [] | Some h \<Rightarrow> block_full h)
      = Inr (case if_hid ic of None \<Rightarrow> [] | Some h \<Rightarrow> h)"
    using D(6) by (auto simp: hid_ok_def block_full_ok split: option.splits)
  ultimately show ?thesis
    using D(1,2) concat_of_endpoints [of "if_endpoints ic"] D(8)
    by (simp add: iface_full_def iface_bytes_def)
qed

section \<open>Lemmas: parsing what was serialised\<close>

text \<open>Where the constructor stops: at the end of the buffer or before the next interface
  descriptor.\<close>

definition at_stop :: "bytes \<Rightarrow> bool" where
  "at_stop p \<longleftrightarrow> p = [] \<or> (1 < length p \<and> p ! 1 = 4)"

lemma block_ok_Cons:
  assumes "block_ok b"
  obtains n ty bs where "b = n # ty # bs" "unat n = length b"
  using assms by (cases b rule: remdups_adj.cases) (auto simp: block_ok_def)

lemma parse_items_stop: "at_stop p \<Longrightarrow> parse_items (Suc fuel) ep ic p = Inr (ic, p)"
  by (auto simp: at_stop_def)

lemma parse_items_hid:
  "hid_ok h \<Longrightarrow> parse_items (Suc fuel) ep ic (h @ rest) = parse_items fuel ep (ic\<lparr>if_hid := Some h\<rparr>) rest"
  using block_of_buffer_ok [of h rest]
  by (auto simp: hid_ok_def parse_item_def elim!: block_ok_Cons)

lemma parse_items_generic:
  assumes "generic_ok g" "length (if_generics ic) < 255"
  shows "parse_items (Suc fuel) ep ic (g @ rest)
    = parse_items fuel ep (ic\<lparr>if_generics := if_generics ic @ [g]\<rparr>) rest"
  using assms block_of_buffer_ok [of g rest]
  by (auto simp: generic_ok_def parse_item_def append_generic_def elim!: block_ok_Cons)

lemma parse_items_generics:
  assumes "\<And>g. g \<in> set gs \<Longrightarrow> generic_ok g" "length (if_generics ic) + length gs < 256"
  shows "parse_items (length gs + fuel) ep ic (concat gs @ rest)
    = parse_items fuel ep (ic\<lparr>if_generics := if_generics ic @ gs\<rparr>) rest"
  using assms
proof (induction gs arbitrary: ic)
  case (Cons g gs)
  then show ?case by (simp del: parse_items.simps add: parse_items_generic)
qed simp

lemma parse_items_endpoint:
  assumes "endpoint_plain d" "ep < length (if_endpoints ic)"
  shows "parse_items (Suc fuel) ep ic (endpoint_bytes d @ rest)
    = parse_items fuel (Suc ep) (ic\<lparr>if_endpoints := (if_endpoints ic)[ep := Some d]\<rparr>) rest"
proof -
  obtain bs where bs: "endpoint_bytes d = 7 # 5 # bs" "length bs = 5"
    using assms by (simp add: endpoint_bytes_def endpoint_plain_def usb_consts)
  have "endpoint_of_buffer (7 # 5 # bs @ rest) = Inr d"
    using endpoint_of_buffer_bytes [OF assms(1), of rest] by (simp add: bs(1))
  with bs(2) assms(2) show ?thesis by (simp add: bs(1) parse_item_def)
qed

lemma parse_items_endpoints:
  assumes "\<And>d. d \<in> set ds \<Longrightarrow> endpoint_plain d"
    and "if_endpoints ic = map Some ds' @ replicate (length ds) None"
  shows "parse_items (length ds + fuel) (length ds') ic (concat (map endpoint_bytes ds) @ rest)
    = parse_items fuel (length ds' + length ds)
        (ic\<lparr>if_endpoints := map Some (ds' @ ds)\<rparr>) rest"
  using assms
proof (induction ds arbitrary: ds' ic)
  case (Cons d ds)
  let ?ic = "ic\<lparr>if_endpoints := map Some (ds' @ [d]) @ replicate (length ds) None\<rparr>"
  have "parse_items (Suc (length ds + fuel)) (length ds') ic
      (endpoint_bytes d @ concat (map endpoint_bytes ds) @ rest)
    = parse_items (length ds + fuel) (Suc (length ds')) ?ic (concat (map endpoint_bytes ds) @ rest)"
    using Cons.prems by (subst parse_items_endpoint) (auto simp: list_update_append)
  then show ?case using Cons.IH [where ds' = "ds' @ [d]" and ic = ?ic] Cons.prems
    by (simp del: parse_items.simps)
next
  case Nil
  then have "ic\<lparr>if_endpoints := map Some ds'\<rparr> = ic" by (cases ic) simp
  then show ?case by simp
qed

lemma skip_generics_stop: "1 < length p \<Longrightarrow> p ! 1 = 4 \<Longrightarrow> skip_generics (Suc fuel) gs p = Inr (gs, p)"
  by simp

lemma read_descriptor_struct:
  "if_bLength d = 9 \<Longrightarrow> read_descriptor (interface_struct d @ rest) = Inr d"
proof -
  assume *: "if_bLength d = 9"
  then have "block_ok (interface_struct d)"
    by (simp add: block_ok_def interface_struct_def)
  with block_of_buffer_ok [OF this, of rest] show ?thesis by (simp add: read_descriptor_def)
qed

text \<open>The number of descriptors in an interface, and so the fuel its loops need.\<close>

definition iface_items :: "iface \<Rightarrow> nat" where
  "iface_items ic =
     (if if_hid ic = None then 0 else 1) + length (if_generics ic) + length (if_endpoints ic)"

lemma somes_all:
  "\<forall>e\<in>set es. \<exists>d. e = Some d \<and> P d \<Longrightarrow> es = map Some (somes es) \<and> (\<forall>d\<in>set (somes es). P d)"
  by (induction es) auto

lemma parse_items_bytes:
  assumes "iface_plain ic" "at_stop rest" "iface_items ic < fuel"
    and ic0: "ic0 = ic\<lparr>if_endpoints := replicate (length (if_endpoints ic)) None,
      if_hid := None, if_generics := []\<rparr>"
  shows "parse_items fuel 0 ic0
      ((case if_hid ic of None \<Rightarrow> [] | Some h \<Rightarrow> h) @ concat (if_generics ic)
        @ concat (map endpoint_bytes (somes (if_endpoints ic))) @ rest) = Inr (ic, rest)"
proof -
  note D = iface_plainD [OF assms(1)]
  define ds where "ds = somes (if_endpoints ic)"
  have ds: "if_endpoints ic = map Some ds" "\<And>d. d \<in> set ds \<Longrightarrow> endpoint_plain d"
    using D(8) somes_all [of "if_endpoints ic" endpoint_plain] by (auto simp: ds_def)
  define ic1 where "ic1 = ic0\<lparr>if_hid := if_hid ic\<rparr>"
  have ic1: "if_generics ic1 = []" "if_endpoints ic1 = replicate (length ds) None"
    "ic1\<lparr>if_generics := if_generics ic, if_endpoints := map Some ds\<rparr> = ic"
    unfolding ic1_def ic0 using ds(1) by (cases ic; simp)+
  obtain f where f: "fuel = (if if_hid ic = None then 0 else 1)
      + (length (if_generics ic) + (length ds + Suc f))"
    using assms(3) ds(1) by (auto simp: iface_items_def dest!: less_imp_Suc_add)
  have "parse_items (length (if_generics ic) + (length ds + Suc f)) 0 ic1
      (concat (if_generics ic) @ concat (map endpoint_bytes ds) @ rest)
    = parse_items (length ds + Suc f) 0 (ic1\<lparr>if_generics := if_generics ic\<rparr>)
      (concat (map endpoint_bytes ds) @ rest)"
    using D(4,7) ic1(1) by (subst parse_items_generics) simp_all
  also have "\<dots> = parse_items (Suc f) (length ds) ic rest"
    using parse_items_endpoints [of ds "ic1\<lparr>if_generics := if_generics ic\<rparr>" "[]" "Suc f" rest]
      ds(2) ic1(2,3) by (simp del: parse_items.simps)
  also have "\<dots> = Inr (ic, rest)"
    using assms(2) by (rule parse_items_stop)
  finally have main: "parse_items (length (if_generics ic) + (length ds + Suc f)) 0 ic1
      (concat (if_generics ic) @ concat (map endpoint_bytes ds) @ rest) = Inr (ic, rest)" .
  show ?thesis
  proof (cases "if_hid ic")
    case None
    then have "ic1 = ic0" by (simp add: ic1_def ic0)
    with main None f show ?thesis by (simp add: ds_def del: parse_items.simps)
  next
    case (Some h)
    with D(6) have "hid_ok h" by simp
    with main Some f show ?thesis
      by (simp add: ds_def ic1_def parse_items_hid del: parse_items.simps)
  qed
qed

lemma parse_iface_bytes:
  assumes "iface_plain ic" "at_stop rest" "iface_items ic < fuel"
  shows "parse_iface fuel (iface_bytes ic @ rest) = Inr (ic, rest)"
proof -
  note D = iface_plainD [OF assms(1)]
  let ?d = "if_descriptor ic"
  let ?body = "(case if_hid ic of None \<Rightarrow> [] | Some h \<Rightarrow> h) @ concat (if_generics ic)
        @ concat (map endpoint_bytes (somes (if_endpoints ic))) @ rest"
  have p: "iface_bytes ic @ rest = interface_struct ?d @ ?body" by (simp add: iface_bytes_def)
  have "skip_generics fuel [] (interface_struct ?d @ ?body) = Inr ([], interface_struct ?d @ ?body)"
    using D(3) assms(3) by (cases fuel) (simp_all add: interface_struct_def)
  moreover have "read_descriptor (interface_struct ?d @ ?body) = Inr ?d"
    using D(2) by (rule read_descriptor_struct)
  moreover have "drop (unat ((interface_struct ?d @ ?body) ! 0)) (interface_struct ?d @ ?body) = ?body"
    using D(2) by (simp add: interface_struct_def)
  moreover have "parse_items fuel 0
      \<lparr>if_descriptor = ?d, if_endpoints = replicate (unat (if_bNumEndpoints ?d)) None,
       if_hid = None, if_generics = []\<rparr> ?body = Inr (ic, rest)"
    using assms by (rule parse_items_bytes) (cases ic, use D(5) in simp)
  ultimately show ?thesis unfolding p parse_iface_def by simp
qed

section \<open>Lemmas: invariant, progress and fuel\<close>

lemma append_generic_eq_Inr [res_simps]:
  "append_generic gs d = Inr gs' \<longleftrightarrow> length gs \<noteq> 255 \<and> gs' = gs @ [d]"
  by (auto simp: append_generic_def)

lemma skip_generics_inv:
  "skip_generics fuel gs p = Inr (gs', p') \<Longrightarrow> length gs < 256 \<Longrightarrow>
   length gs' < 256 \<and> suffix p' p \<and> 1 < length p' \<and> p' ! 1 = 4"
proof (induction fuel gs p rule: skip_generics.induct)
  case (2 fuel gs p)
  show ?case
  proof (cases "p ! 1 = 4 \<or> p = []")
    case True
    with 2 show ?thesis by (auto simp: res_simps)
  next
    case False
    with 2 show ?thesis
      by (fastforce simp: res_simps intro: suffix_order.trans [OF _ suffix_drop])
  qed
qed simp

lemma parse_item_inv:
  assumes "parse_item ep ic p = Inr (ep', ic')" "iface_wf ic"
  shows "iface_wf ic' \<and> if_descriptor ic' = if_descriptor ic"
  using assms
  by (auto simp: parse_item_def iface_wf_def res_simps split: if_splits)

lemma parse_items_inv:
  "parse_items fuel ep ic p = Inr (ic', p') \<Longrightarrow> iface_wf ic \<Longrightarrow>
   iface_wf ic' \<and> at_stop p' \<and> suffix p' p \<and> if_descriptor ic' = if_descriptor ic"
proof (induction fuel ep ic p rule: parse_items.induct)
  case (2 fuel ep ic p)
  show ?case
  proof (cases "p = [] \<or> p ! 1 = 4")
    case True
    with 2(2,3) show ?thesis by (auto simp: res_simps at_stop_def split: if_splits)
  next
    case False
    with 2(2) obtain ep1 ic1 where *: "index p 1 = Inr (p ! 1)"
      "parse_item ep ic p = Inr (ep1, ic1)"
      "parse_items fuel ep1 ic1 (drop (unat (p ! 0)) p) = Inr (ic', p')"
      by (auto simp: res_simps)
    with 2(1) [OF _ *(1) _ *(2) refl *(3)] parse_item_inv [OF *(2)] 2(3) False show ?thesis
      using suffix_order.trans [OF _ suffix_drop] by auto
  qed
qed simp

lemma read_descriptor_length: "read_descriptor p = Inr d \<Longrightarrow> 9 \<le> length p \<and> unat (p ! 0) = 9"
  by (auto simp: read_descriptor_def block_of_buffer_def res_simps split: if_splits)

lemma parse_iface_inv:
  assumes "parse_iface fuel p = Inr (ic, rest)"
  shows "iface_wf ic" "at_stop rest" "suffix rest p" "length rest < length p"
proof -
  from assms obtain gs p1 d where
    1: "skip_generics fuel [] p = Inr (gs, p1)" and 2: "read_descriptor p1 = Inr d"
    and 3: "parse_items fuel 0 \<lparr>if_descriptor = d,
       if_endpoints = replicate (unat (if_bNumEndpoints d)) None, if_hid = None,
       if_generics = gs\<rparr> (drop (unat (p1 ! 0)) p1) = Inr (ic, rest)"
    by (auto simp: parse_iface_def res_simps)
  have p1: "length gs < 256" "suffix p1 p" using skip_generics_inv [OF 1] by auto
  then have "iface_wf ic \<and> at_stop rest \<and> suffix rest (drop (unat (p1 ! 0)) p1)"
    using parse_items_inv [OF 3] by (simp add: iface_wf_def)
  moreover from this have "length rest + 9 \<le> length p1"
    using read_descriptor_length [OF 2] suffix_length_le by fastforce
  ultimately show "iface_wf ic" "at_stop rest" "suffix rest p" "length rest < length p"
    using p1(2) suffix_length_le [OF p1(2)]
    by (auto intro: suffix_order.trans [OF suffix_order.trans [OF _ suffix_drop]])
qed

text \<open>
  Termination. A descriptor of length 0 makes no progress through the buffer. A generic one or an
  endpoint still uses up the arrays, so the loop runs into their end; a HID descriptor does
  not, and the constructor never returns.
\<close>

definition zero_hid :: "bytes \<Rightarrow> bool" where
  "zero_hid p \<longleftrightarrow> sublist [0, 0x21] p"

lemma zero_hid_drop: "\<not> zero_hid p \<Longrightarrow> \<not> zero_hid (drop n p)"
  unfolding zero_hid_def using sublist_order.order_trans sublist_drop by blast

lemma zero_hid_suffix: "\<not> zero_hid p \<Longrightarrow> suffix q p \<Longrightarrow> \<not> zero_hid q"
  unfolding zero_hid_def using suffix_imp_sublist sublist_order.order_trans by blast

lemma zero_hid_head:
  assumes "\<not> zero_hid p" "1 < length p" "p ! 1 = 0x21"
  shows "p ! 0 \<noteq> 0"
proof
  assume "p ! 0 = 0"
  with assms have "p = [0, 0x21] @ drop 2 p"
    by (cases p rule: remdups_adj.cases) auto
  then have "sublist [0, 0x21] p" by (metis prefixI prefix_imp_sublist)
  with assms(1) show False by (simp add: zero_hid_def)
qed

lemma skip_generics_fuel:
  "length gs \<le> 255 \<Longrightarrow> 255 - length gs < fuel \<Longrightarrow> skip_generics fuel gs p \<noteq> Inl OutOfFuel"
proof (induction fuel gs p rule: skip_generics.induct)
  case (2 fuel gs p)
  then show ?case
    by (auto simp: and_then_eq_Inl index_def block_of_buffer_def first_n_def append_generic_def
        split: if_splits)
qed simp

definition items_bound :: "nat \<Rightarrow> iface \<Rightarrow> bytes \<Rightarrow> nat" where
  "items_bound ep ic p = length p + (255 - length (if_generics ic)) + (length (if_endpoints ic) - ep)"

lemma parse_item_bound:
  assumes "parse_item ep ic p = Inr (ep', ic')" "\<not> zero_hid p" "p \<noteq> []" "length (if_generics ic) \<le> 255"
  shows "items_bound ep' ic' (drop (unat (p ! 0)) p) < items_bound ep ic p
    \<and> length (if_generics ic') \<le> 255"
proof -
  have pos: "1 < length p" using assms(1) by (auto simp: parse_item_def res_simps)
  show ?thesis
  proof (cases "p ! 1 = 0x21")
    case True
    with zero_hid_head assms pos have "unat (p ! 0) \<noteq> 0" by (simp add: unat_eq_0)
    with assms True pos show ?thesis
      by (auto simp: parse_item_def res_simps items_bound_def)
  next
    case False
    with assms pos show ?thesis
      by (auto simp: parse_item_def res_simps items_bound_def split: if_splits)
  qed
qed

lemma parse_item_no_fuel: "parse_item ep ic p \<noteq> Inl OutOfFuel"
  by (auto simp: parse_item_def and_then_eq_Inl index_def block_of_buffer_def first_n_def
      append_generic_def store_def endpoint_of_buffer_def split: if_splits)

lemma parse_items_fuel:
  "\<not> zero_hid p \<Longrightarrow> length (if_generics ic) \<le> 255 \<Longrightarrow> items_bound ep ic p < fuel \<Longrightarrow>
   parse_items fuel ep ic p \<noteq> Inl OutOfFuel"
proof (induction fuel ep ic p rule: parse_items.induct)
  case (2 fuel ep ic p)
  show ?case
  proof
    assume "parse_items (Suc fuel) ep ic p = Inl OutOfFuel"
    then obtain ep' ic' where *: "p \<noteq> []" "1 < length p" "p ! 1 \<noteq> 4"
      "parse_item ep ic p = Inr (ep', ic')"
      "parse_items fuel ep' ic' (drop (unat (p ! 0)) p) = Inl OutOfFuel"
      by (auto simp: and_then_eq_Inl res_simps parse_item_no_fuel index_def split: if_splits)
    have "index p 1 = Inr (p ! 1)" using * by simp
    from 2(1) [OF *(1) this *(3) *(4) refl] parse_item_bound [OF *(4) 2(2) *(1) 2(3)] *(5)
      zero_hid_drop [OF 2(2)] 2(4)
    show False by simp
  qed
qed simp

lemma parse_items_zero_hid: "parse_items fuel ep ic (0 # 0x21 # q) = Inl OutOfFuel"
  by (induction fuel arbitrary: ic)
    (simp_all add: parse_item_def block_of_buffer_def)

lemma skip_generics_mono:
  "skip_generics fuel gs p = r \<Longrightarrow> r \<noteq> Inl OutOfFuel \<Longrightarrow> fuel \<le> fuel' \<Longrightarrow>
   skip_generics fuel' gs p = r"
proof (induction fuel gs p arbitrary: fuel' rule: skip_generics.induct)
  case (2 fuel gs p)
  then obtain f where [simp]: "fuel' = Suc f" by (cases fuel') simp_all
  show ?case
  proof (cases "index p 1")
    case (Inr ty)
    show ?thesis
    proof (cases "ty = 4 \<or> p = []")
      case False
      show ?thesis
      proof (cases "and_then (block_of_buffer p) (append_generic gs)")
        case Inl with 2(2) Inr False show ?thesis by (auto simp: and_then_def split: sum.splits)
      next
        case (Inr gs')
        then obtain d where *: "block_of_buffer p = Inr d" "append_generic gs d = Inr gs'"
          by (auto simp: and_then_eq_Inr)
        let ?k = "\<lambda>n. skip_generics n gs' (drop (unat (p ! 0)) p)"
        have k: "skip_generics (Suc n) gs p = ?k n" for n
          using * False \<open>index p 1 = Inr ty\<close> by simp
        have "?k fuel = r" "r \<noteq> Inl OutOfFuel" "fuel \<le> f" using 2(2-4) k by simp_all
        from 2(1) [OF \<open>index p 1 = Inr ty\<close> False * this] show ?thesis using k by simp
      qed
    qed (use 2(2) Inr in auto)
  qed (use 2(2) in auto)
qed simp

lemma parse_items_mono:
  "parse_items fuel ep ic p = r \<Longrightarrow> r \<noteq> Inl OutOfFuel \<Longrightarrow> fuel \<le> fuel' \<Longrightarrow>
   parse_items fuel' ep ic p = r"
proof (induction fuel ep ic p arbitrary: fuel' rule: parse_items.induct)
  case (2 fuel ep ic p)
  then obtain f where [simp]: "fuel' = Suc f" by (cases fuel') simp_all
  show ?case
  proof (cases "p = [] \<or> index p 1 = Inr 4 \<or> (\<exists>e. index p 1 = Inl e)")
    case False
    then obtain ty where ty: "p \<noteq> []" "index p 1 = Inr ty" "ty \<noteq> 4" by (cases "index p 1") auto
    show ?thesis
    proof (cases "parse_item ep ic p")
      case Inl with 2(2) ty show ?thesis by simp
    next
      case (Inr q)
      obtain ep' ic' where q: "q = (ep', ic')" by (cases q)
      let ?k = "\<lambda>n. parse_items n ep' ic' (drop (unat (p ! 0)) p)"
      have k: "parse_items (Suc n) ep ic p = ?k n" for n using ty Inr q by simp
      have "?k fuel = r" "r \<noteq> Inl OutOfFuel" "fuel \<le> f" using 2(2-4) k by simp_all
      from 2(1) [OF ty Inr q [symmetric] this] show ?thesis using k by simp
    qed
  qed (use 2(2) in auto)
qed simp

lemma parse_iface_mono:
  assumes "parse_iface fuel p = r" "r \<noteq> Inl OutOfFuel" "fuel \<le> fuel'"
  shows "parse_iface fuel' p = r"
proof -
  have "skip_generics fuel [] p \<noteq> Inl OutOfFuel"
    using assms(1,2) unfolding parse_iface_def by auto
  from skip_generics_mono [OF refl this assms(3)]
  have skip: "skip_generics fuel' [] p = skip_generics fuel [] p" .
  consider (1) e where "skip_generics fuel [] p = Inl e"
    | (2) gs p1 e where "skip_generics fuel [] p = Inr (gs, p1)" "read_descriptor p1 = Inl e"
    | (3) gs p1 d where "skip_generics fuel [] p = Inr (gs, p1)" "read_descriptor p1 = Inr d"
    by (metis sum.exhaust surj_pair)
  then show ?thesis
  proof cases
    case 3
    let ?k = "\<lambda>n. parse_items n 0 \<lparr>if_descriptor = d,
      if_endpoints = replicate (unat (if_bNumEndpoints d)) None, if_hid = None,
      if_generics = gs\<rparr> (drop (unat (p1 ! 0)) p1)"
    have k: "parse_iface fuel p = ?k fuel" "parse_iface fuel' p = ?k fuel'"
      unfolding parse_iface_def skip 3(1) by (simp_all add: 3(2))
    from parse_items_mono [OF _ assms(2,3)] assms(1) k show ?thesis by metis
  qed (use skip assms(1) in \<open>simp_all add: parse_iface_def\<close>)
qed

lemma parse_iface_fuel:
  assumes "\<not> zero_hid p" "length p + 511 < fuel"
  shows "parse_iface fuel p \<noteq> Inl OutOfFuel"
proof
  assume "parse_iface fuel p = Inl OutOfFuel"
  moreover have "skip_generics fuel [] p \<noteq> Inl OutOfFuel"
    using assms(2) by (intro skip_generics_fuel) simp_all
  moreover have "read_descriptor q \<noteq> Inl OutOfFuel" for q
    by (auto simp: read_descriptor_def and_then_eq_Inl block_of_buffer_def index_def
        first_n_def split: if_splits)
  ultimately obtain gs p1 d where
    1: "skip_generics fuel [] p = Inr (gs, p1)" "read_descriptor p1 = Inr d"
    "parse_items fuel 0 \<lparr>if_descriptor = d,
       if_endpoints = replicate (unat (if_bNumEndpoints d)) None, if_hid = None,
       if_generics = gs\<rparr> (drop (unat (p1 ! 0)) p1) = Inl OutOfFuel" (is "parse_items _ _ ?ic ?p = _")
    by (auto simp: parse_iface_def and_then_eq_Inl)
  have s: "length gs < 256" "suffix ?p p" "length ?p \<le> length p"
    using skip_generics_inv [OF 1(1)] suffix_length_le
    by (auto intro: suffix_order.trans [OF suffix_drop] dest: suffix_length_le)
  have "parse_items fuel 0 ?ic ?p \<noteq> Inl OutOfFuel"
  proof (rule parse_items_fuel)
    have "items_bound 0 ?ic ?p \<le> length ?p + 255 + unat (if_bNumEndpoints d)"
      by (simp add: items_bound_def)
    then show "items_bound 0 ?ic ?p < fuel"
      using s(3) assms(2) unat_u8_less [of "if_bNumEndpoints d"] by linarith
  qed (use s(1) zero_hid_suffix [OF assms(1) s(2)] in simp_all)
  with 1(3) show False by simp
qed

section \<open>Lemmas: endpoints\<close>

lemma length_place_endpoint [simp]: "length (place_endpoint e es) = length es"
  by (induction e es rule: place_endpoint.induct) auto

lemma add_endpoint_wf [inv_intros]:
  "add_endpoint ic e = Inr ic' \<Longrightarrow> iface_wf ic \<Longrightarrow> iface_wf ic'"
  by (auto simp: add_endpoint_def iface_wf_def res_simps the_endpoints_def)

text \<open>There is room for an endpoint: a free entry, or one with its address.\<close>

definition has_room :: "u8 \<Rightarrow> endpoint_descriptor option list \<Rightarrow> bool" where
  "has_room a es \<longleftrightarrow> (\<exists>e\<in>set es. e = None \<or> (\<exists>d. e = Some d \<and> ep_bEndpointAddress d = a))"

definition addresses :: "endpoint_descriptor option list \<Rightarrow> u8 list" where
  "addresses es = map ep_bEndpointAddress (somes es)"

text \<open>The free entries of an array that is only filled by \<open>add_endpoint\<close> are its last ones.\<close>

fun filled :: "'a option list \<Rightarrow> bool" where
  "filled [] \<longleftrightarrow> True"
| "filled (None # es) \<longleftrightarrow> (\<forall>e\<in>set es. e = None)"
| "filled (Some e # es) \<longleftrightarrow> filled es"

lemma filled_None: "\<forall>e\<in>set es. e = None \<Longrightarrow> filled es"
  by (induction es) auto

lemma somes_None: "\<forall>e\<in>set es. e = None \<Longrightarrow> somes es = []"
  by (induction es) auto

lemma filled_place: "filled es \<Longrightarrow> filled (place_endpoint e es)"
  by (induction e es rule: place_endpoint.induct) (auto intro: filled_None)

lemma place_endpoint_find:
  "filled es \<Longrightarrow> has_room (ep_bEndpointAddress e) es \<Longrightarrow>
   find_endpoint (ep_bEndpointAddress e) (place_endpoint e es) = Inr (Some e)"
  by (induction e es rule: place_endpoint.induct) (auto simp: has_room_def)

lemma place_endpoint_no_room:
  "\<not> has_room (ep_bEndpointAddress e) es \<Longrightarrow> place_endpoint e es = es"
  by (induction e es rule: place_endpoint.induct) (auto simp: has_room_def)

lemma place_endpoint_distinct:
  "filled es \<Longrightarrow> distinct (addresses es) \<Longrightarrow> distinct (addresses (place_endpoint e es)) \<and>
   set (addresses (place_endpoint e es)) \<subseteq> insert (ep_bEndpointAddress e) (set (addresses es))"
proof (induction e es rule: place_endpoint.induct)
  case (2 e es)
  then have "somes es = []" by (simp add: somes_None)
  then show ?case by (simp add: addresses_def)
qed (auto simp: addresses_def)

lemma find_endpoint_place_other:
  "find_endpoint a es = Inr (Some d) \<Longrightarrow> a \<noteq> ep_bEndpointAddress e \<Longrightarrow>
   find_endpoint a (place_endpoint e es) = Inr (Some d)"
  by (induction e es rule: place_endpoint.induct) (auto split: if_splits)

text \<open>An interface that \<open>add_endpoint\<close> filled has an entry for the new endpoint's address
  afterwards when there was room for it, its addresses stay distinct, and the endpoints at other
  addresses are found as before.\<close>

theorem add_endpoint_find:
  assumes "iface_wf ic" "filled (if_endpoints ic)" "distinct (addresses (if_endpoints ic))"
    and "has_room (ep_bEndpointAddress e) (if_endpoints ic)"
  shows "\<exists>ic'. add_endpoint ic e = Inr ic' \<and> iface_wf ic' \<and> filled (if_endpoints ic') \<and>
    distinct (addresses (if_endpoints ic')) \<and>
    get_endpoint_by_address ic' (ep_bEndpointAddress e) = Inr (Some e) \<and>
    (\<forall>a d. a \<noteq> ep_bEndpointAddress e \<longrightarrow> get_endpoint_by_address ic a = Inr (Some d) \<longrightarrow>
      get_endpoint_by_address ic' a = Inr (Some d))"
proof -
  let ?ic = "ic\<lparr>if_endpoints := place_endpoint e (if_endpoints ic)\<rparr>"
  have add: "add_endpoint ic e = Inr ?ic" using assms(1) by (simp add: add_endpoint_def)
  from add_endpoint_wf [OF this assms(1)] have wf: "iface_wf ?ic" .
  show ?thesis
    using add wf assms filled_place place_endpoint_distinct place_endpoint_find
    by (auto simp: get_endpoint_by_address_def find_endpoint_place_other)
qed

theorem add_endpoint_find_witness:
  "\<exists>ic'. add_endpoint (new_iface 0 0 1 3 1 1 0) (new_endpoint 0x81 3 8 10) = Inr ic' \<and>
     iface_wf ic' \<and> filled (if_endpoints ic') \<and> distinct (addresses (if_endpoints ic')) \<and>
     get_endpoint_by_address ic' (ep_bEndpointAddress (new_endpoint 0x81 3 8 10))
       = Inr (Some (new_endpoint 0x81 3 8 10)) \<and>
     (\<forall>a d. a \<noteq> ep_bEndpointAddress (new_endpoint 0x81 3 8 10) \<longrightarrow>
       get_endpoint_by_address (new_iface 0 0 1 3 1 1 0) a = Inr (Some d) \<longrightarrow>
       get_endpoint_by_address ic' a = Inr (Some d))"
  by (rule add_endpoint_find)
    (simp_all add: new_iface_def iface_of_descriptor_def iface_wf_def addresses_def has_room_def)

end
