(* ===== verification/InterfaceGroup_Model.thy ===== *)
theory InterfaceGroup_Model
  imports Interface_Model
begin

text \<open>
  The alternate settings of one interface number (\<open>src/lib/InterfaceGroup.cpp\<close>): an array of
  \<open>alternateCount\<close> interface pointers that grows to the highest alternate setting added, and
  the index of the active one, -1 while it is not known.
\<close>

record igroup =
  ig_number :: u8
  ig_alternateCount :: u8
  ig_activeAlternateIndex :: int
  ig_interfaces :: "iface option list"

definition new_igroup :: "u8 \<Rightarrow> igroup" where
  "new_igroup n =
     \<lparr>ig_number = n, ig_alternateCount = 0, ig_activeAlternateIndex = -1, ig_interfaces = []\<rparr>"

text \<open>The entries the loops visit.\<close>

definition the_interfaces :: "igroup \<Rightarrow> iface option list res" where
  "the_interfaces g = first_n (ig_interfaces g) (unat (ig_alternateCount g))"

definition igroup_full_length :: "igroup \<Rightarrow> nat res" where
  "igroup_full_length g =
     and_then (the_interfaces g)
       (sum_of (\<lambda>i. case i of None \<Rightarrow> Inr 0 | Some ic \<Rightarrow> iface_full_length ic))"

definition igroup_full :: "igroup \<Rightarrow> bytes res" where
  "igroup_full g =
     and_then (the_interfaces g)
       (concat_of (\<lambda>i. case i of None \<Rightarrow> Inr [] | Some ic \<Rightarrow> iface_full ic))"

text \<open>\<open>add_interface\<close>: a larger array is allocated when the alternate setting is not below
  \<open>alternateCount\<close>, whose new value \<open>alternate+1\<close> is stored in a byte.\<close>

definition igroup_add :: "igroup \<Rightarrow> iface \<Rightarrow> igroup res" where
  "igroup_add g ic =
     (let alternate = if_bAlternateSetting (if_descriptor ic) in
      and_then
        (if alternate \<ge> ig_alternateCount g then
           and_then (first_n (ig_interfaces g) (unat (ig_alternateCount g))) (\<lambda>old.
             Inr (g\<lparr>ig_interfaces := old @ replicate (unat alternate + 1 - length old) None,
                    ig_alternateCount := alternate + 1\<rparr>))
         else Inr g)
        (\<lambda>g'. and_then (store (ig_interfaces g') (unat alternate) (Some ic)) (\<lambda>is.
           Inr (g'\<lparr>ig_interfaces := is\<rparr>))))"

definition igroup_get :: "igroup \<Rightarrow> u8 \<Rightarrow> iface option res" where
  "igroup_get g alternate =
     (if alternate \<ge> ig_alternateCount g then Inr None
      else index (ig_interfaces g) (unat alternate))"

text \<open>\<open>get_active_interface\<close>; the \<open>int\<close> index is passed as a byte.\<close>

definition igroup_active :: "igroup \<Rightarrow> iface option res" where
  "igroup_active g =
     (if ig_activeAlternateIndex g < 0 then Inr None
      else igroup_get g (of_int (ig_activeAlternateIndex g)))"

definition igroup_is_defined :: "u8 \<Rightarrow> igroup \<Rightarrow> definition_error res" where
  "igroup_is_defined configId g =
     (if ig_alternateCount g = 0 then
        Inr (def_error DE_ERR_NULL_OBJECT 0 DE_OBJ_INTERFACE configId (ig_number g) 0 0)
      else and_then (the_interfaces g) (\<lambda>is.
        first_error
          (\<lambda>(i, ic). case ic of
             None \<Rightarrow> Inr (def_error DE_ERR_NULL_OBJECT 0 DE_OBJ_INTERFACE configId (ig_number g)
                       (of_nat i) 0)
           | Some ic \<Rightarrow>
               (let d = if_descriptor ic; alt = if_bAlternateSetting d in
                if if_bInterfaceNumber d \<noteq> ig_number g then
                  Inr (def_error DE_ERR_MISPLACED_IF_NUM (ucast alt) DE_OBJ_INTERFACE configId
                    (ig_number g) (of_nat i) 0)
                else if unat alt \<noteq> i then
                  Inr (def_error DE_ERR_MISPLACED_OBJECT (ucast alt) DE_OBJ_INTERFACE configId
                    (ig_number g) (of_nat i) 0)
                else iface_is_defined configId (ig_number g) ic))
          (enumerate 0 is)))"

section \<open>Invariant\<close>

definition igroup_wf :: "igroup \<Rightarrow> bool" where
  "igroup_wf g \<longleftrightarrow>
     length (ig_interfaces g) = unat (ig_alternateCount g) \<and>
     (\<forall>ic. Some ic \<in> set (ig_interfaces g) \<longrightarrow> iface_wf ic)"

lemma new_igroup_wf [simp]: "igroup_wf (new_igroup n)"
  by (simp add: igroup_wf_def new_igroup_def)

lemma the_interfaces_wf [simp]: "igroup_wf g \<Longrightarrow> the_interfaces g = Inr (ig_interfaces g)"
  by (simp add: the_interfaces_def igroup_wf_def)

lemma unat_plus_one_u8:
  assumes "(x :: u8) \<noteq> 255"
  shows "unat (x + 1) = unat x + 1"
proof -
  have "unat x \<noteq> unat (255 :: u8)" using assms unsigned_word_eqI by blast
  moreover have "unat x < 256" by simp
  ultimately have "unat x + 1 < 256" by (simp del: unat_u8_less)
  then show ?thesis by (simp add: unat_word_ariths)
qed

text \<open>What an addition does to the array, while \<open>alternate\<close> is not 255.\<close>

definition place_interface :: "nat \<Rightarrow> iface \<Rightarrow> iface option list \<Rightarrow> iface option list" where
  "place_interface n ic is = (is @ replicate (n + 1 - length is) None)[n := Some ic]"

lemma set_place_interface:
  "Some x \<in> set (place_interface n ic ics) \<Longrightarrow> x = ic \<or> Some x \<in> set ics"
  by (auto simp: place_interface_def dest!: set_update_subset_insert [THEN subsetD])

lemma length_place_interface [simp]:
  "length (place_interface n ic ics) = max (length ics) (n + 1)"
  by (simp add: place_interface_def)

lemma igroup_add_ok:
  assumes "igroup_wf g" "if_bAlternateSetting (if_descriptor ic) \<noteq> 255"
  shows "igroup_add g ic = Inr (g
    \<lparr>ig_interfaces := place_interface (unat (if_bAlternateSetting (if_descriptor ic))) ic (ig_interfaces g),
     ig_alternateCount := max (ig_alternateCount g) (if_bAlternateSetting (if_descriptor ic) + 1)\<rparr>)"
proof -
  let ?a = "if_bAlternateSetting (if_descriptor ic)"
  have len: "length (ig_interfaces g) = unat (ig_alternateCount g)"
    using assms(1) by (simp add: igroup_wf_def)
  have suc: "unat (?a + 1) = unat ?a + 1" using assms(2) by (rule unat_plus_one_u8)
  show ?thesis
  proof (cases "ig_alternateCount g \<le> ?a")
    case True
    then have le: "unat (ig_alternateCount g) \<le> unat ?a" by (simp add: unat_le_u8)
    then have "max (ig_alternateCount g) (?a + 1) = ?a + 1"
      using suc by (simp add: max_def unat_le_u8)
    with True len le show ?thesis
      by (simp add: igroup_add_def Let_def place_interface_def)
  next
    case False
    then have gt: "unat ?a < unat (ig_alternateCount g)" by (simp add: unat_le_u8)
    then have "max (ig_alternateCount g) (?a + 1) = ig_alternateCount g"
      using suc by (simp add: max_def unat_le_u8 order_antisym_conv) (metis unat_le_u8
          Suc_eq_plus1 Suc_leI order_antisym_conv suc word_unat_eq_iff)
    with False len gt show ?thesis
      by (cases g) (simp add: igroup_add_def Let_def place_interface_def)
  qed
qed

lemma igroup_add_wf [inv_intros]:
  assumes "igroup_add g ic = Inr g'" "igroup_wf g" "iface_wf ic"
    "if_bAlternateSetting (if_descriptor ic) \<noteq> 255"
  shows "igroup_wf g'"
proof -
  let ?a = "if_bAlternateSetting (if_descriptor ic)"
  have "unat (max (ig_alternateCount g) (?a + 1)) = max (unat (ig_alternateCount g)) (unat ?a + 1)"
    using unat_plus_one_u8 [OF assms(4)] by (simp add: max_def unat_le_u8)
  moreover have "iface_wf x" if "Some x \<in> set (place_interface (unat ?a) ic (ig_interfaces g))" for x
    using set_place_interface [OF that] assms(2,3) by (auto simp: igroup_wf_def)
  ultimately show ?thesis
    using assms(1,2) igroup_add_ok [OF assms(2,4)] by (auto simp: igroup_wf_def)
qed

lemma igroup_full_length_eq:
  assumes "igroup_full g = Inr bs"
  shows "igroup_full_length g = Inr (length bs)"
proof -
  from assms obtain ics where ics: "the_interfaces g = Inr ics"
    "concat_of (\<lambda>i. case i of None \<Rightarrow> Inr [] | Some ic \<Rightarrow> iface_full ic) ics = Inr bs"
    by (auto simp: igroup_full_def and_then_eq_Inr)
  have "sum_of (\<lambda>i. case i of None \<Rightarrow> Inr 0 | Some ic \<Rightarrow> iface_full_length ic) ics = Inr (length bs)"
    using ics(2) by (rule sum_of_length [rotated])
      (auto split: option.splits simp: iface_full_length_eq)
  with ics(1) show ?thesis by (simp add: igroup_full_length_def)
qed

section \<open>The definition check\<close>

definition igroup_defined :: "igroup \<Rightarrow> bool" where
  "igroup_defined g \<longleftrightarrow>
     ig_interfaces g \<noteq> [] \<and>
     (\<forall>i<length (ig_interfaces g). \<exists>ic. ig_interfaces g ! i = Some ic \<and>
        if_bInterfaceNumber (if_descriptor ic) = ig_number g \<and>
        unat (if_bAlternateSetting (if_descriptor ic)) = i \<and> iface_defined ic)"

lemma ball_enumerate:
  "(\<forall>p\<in>set (enumerate 0 xs). Q p) \<longleftrightarrow> (\<forall>i<length xs. Q (i, xs ! i))"
  by (auto simp: in_set_enumerate_eq)

lemma igroup_is_defined_iff:
  assumes "igroup_wf g"
  shows "(\<exists>rc. igroup_is_defined c g = Inr rc \<and> de_err rc = DE_ERR_NONE) \<longleftrightarrow> igroup_defined g"
proof -
  have wf: "iface_wf ic" if "i < length (ig_interfaces g)" "ig_interfaces g ! i = Some ic" for i ic
    using assms that by (metis igroup_wf_def nth_mem)
  have 0: "ig_alternateCount g = 0 \<longleftrightarrow> ig_interfaces g = []"
    using assms by (auto simp: igroup_wf_def unat_eq_0)
  show ?thesis
    using assms
    by (auto simp: igroup_is_defined_def igroup_defined_def 0 first_error_none_iff ball_enumerate
        Let_def iface_is_defined_iff [OF wf] split: option.splits if_splits)
qed

section \<open>The last alternate setting\<close>

text \<open>Adding an interface whose alternate setting is 255 wraps the group's count to 0, so the
  serialised group and every lookup forget all of its settings.\<close>

theorem alternate_255_empties_group:
  assumes "igroup_wf g" "if_bAlternateSetting (if_descriptor ic) = 255"
  shows "\<exists>g'. igroup_add g ic = Inr g' \<and> ig_alternateCount g' = 0 \<and>
    igroup_full g' = Inr [] \<and> (\<forall>a. igroup_get g' a = Inr None)"
proof -
  have "ig_alternateCount g \<le> 255" by (simp add: unat_le_u8)
  moreover have "length (ig_interfaces g) = unat (ig_alternateCount g)"
    using assms(1) by (simp add: igroup_wf_def)
  moreover have "unat (ig_alternateCount g) \<le> 255" by simp
  moreover have "(256 :: u8) \<le> a" for a by (simp add: unat_le_u8)
  ultimately show ?thesis
    using assms(2)
    by (simp add: igroup_add_def Let_def igroup_full_def the_interfaces_def igroup_get_def)
qed

theorem alternate_255_empties_group_witness:
  "\<exists>g'. igroup_add (new_igroup 3) (new_iface 3 255 0 0 0 0 0) = Inr g' \<and>
     ig_alternateCount g' = 0 \<and> igroup_full g' = Inr [] \<and> (\<forall>a. igroup_get g' a = Inr None)"
  by (rule alternate_255_empties_group)
    (simp_all add: new_iface_def iface_of_descriptor_def)

end
