(* ===== verification/Configuration_Model.thy ===== *)
theory Configuration_Model
  imports InterfaceGroup_Model
begin

text \<open>
  Configurations (\<open>src/lib/Configuration.cpp\<close>): the descriptor and one interface group per
  interface number. One constructor reads the configuration from a device through a device proxy:
  the proxy's \<open>control_request\<close> is the parameter \<open>creq\<close>, a function of the request and the
  proxy's state that answers the return code, the bytes stored in the buffer (their number is what
  it reports through \<open>nbytes\<close>) and the new state.
\<close>

type_synonym 'd creq = "usb_ctrlrequest \<Rightarrow> 'd \<Rightarrow> (int \<times> bytes) \<times> 'd"

record config =
  cf_descriptor :: config_descriptor
  cf_groups :: "igroup option list"

definition config_of_descriptor :: "config_descriptor \<Rightarrow> config" where
  "config_of_descriptor d =
     \<lparr>cf_descriptor = d, cf_groups = replicate (unat (cf_bNumInterfaces d)) None\<rparr>"

definition new_config :: "u16 \<Rightarrow> u8 \<Rightarrow> u8 \<Rightarrow> u8 \<Rightarrow> u8 \<Rightarrow> u8 \<Rightarrow> bool \<Rightarrow> config" where
  "new_config wTotalLength bNumInterfaces bConfigurationValue iConfiguration bmAttributes
     bMaxPower highSpeed =
     config_of_descriptor
       \<lparr>cf_bLength = 9,
        cf_bDescriptorType = (if highSpeed then USB_DT_OTHER_SPEED_CONFIG else USB_DT_CONFIG),
        cf_wTotalLength = wTotalLength, cf_bNumInterfaces = bNumInterfaces,
        cf_bConfigurationValue = bConfigurationValue, cf_iConfiguration = iConfiguration,
        cf_bmAttributes = bmAttributes, cf_bMaxPower = bMaxPower\<rparr>"

section \<open>Interfaces\<close>

definition the_groups :: "config \<Rightarrow> igroup option list res" where
  "the_groups c = first_n (cf_groups c) (unat (cf_bNumInterfaces (cf_descriptor c)))"

text \<open>\<open>add_interface\<close> indexes the groups with the interface's number, without a check.\<close>

definition config_add :: "config \<Rightarrow> iface \<Rightarrow> config res" where
  "config_add c ic =
     (let number = if_bInterfaceNumber (if_descriptor ic) in
      and_then (index (cf_groups c) (unat number)) (\<lambda>g.
        and_then (igroup_add (case g of None \<Rightarrow> new_igroup number | Some g \<Rightarrow> g) ic) (\<lambda>g'.
          and_then (store (cf_groups c) (unat number) (Some g')) (\<lambda>gs.
            Inr (c\<lparr>cf_groups := gs\<rparr>)))))"

definition get_interface_alternate :: "config \<Rightarrow> u8 \<Rightarrow> u8 \<Rightarrow> iface option res" where
  "get_interface_alternate c number alternate =
     (if number \<ge> cf_bNumInterfaces (cf_descriptor c) then Inr None
      else and_then (index (cf_groups c) (unat number)) (\<lambda>g.
        case g of None \<Rightarrow> Inr None | Some g \<Rightarrow> igroup_get g alternate))"

definition get_interface :: "config \<Rightarrow> u8 \<Rightarrow> iface option res" where
  "get_interface c number =
     (if number \<ge> cf_bNumInterfaces (cf_descriptor c) then Inr None
      else and_then (index (cf_groups c) (unat number)) (\<lambda>g.
        case g of None \<Rightarrow> Inr None | Some g \<Rightarrow> igroup_active g))"

definition get_interface_alternate_count :: "config \<Rightarrow> u8 \<Rightarrow> u8 res" where
  "get_interface_alternate_count c number =
     and_then (index (cf_groups c) (unat number)) (\<lambda>g.
       Inr (case g of None \<Rightarrow> 0 | Some g \<Rightarrow> ig_alternateCount g))"

definition config_is_highspeed :: "config \<Rightarrow> bool" where
  "config_is_highspeed c = (cf_bDescriptorType (cf_descriptor c) = USB_DT_OTHER_SPEED_CONFIG)"

section \<open>Serialisation\<close>

definition config_full_length :: "config \<Rightarrow> nat res" where
  "config_full_length c =
     and_then (the_groups c) (\<lambda>gs.
       and_then (sum_of (\<lambda>g. case g of None \<Rightarrow> Inr 0 | Some g \<Rightarrow> igroup_full_length g) gs)
         (\<lambda>n. Inr (unat (cf_bLength (cf_descriptor c)) + n)))"

text \<open>\<open>get_full_descriptor\<close> allocates \<open>get_full_descriptor_length()\<close> bytes and lets every group
  append to them: bytes past the allocation are a fault.\<close>

definition config_full :: "config \<Rightarrow> bytes res" where
  "config_full c =
     and_then (config_full_length c) (\<lambda>allocated.
       and_then (first_n (config_struct (cf_descriptor c))
                   (unat (cf_bLength (cf_descriptor c)))) (\<lambda>b.
         and_then (the_groups c) (\<lambda>gs.
           and_then (concat_of (\<lambda>g. case g of None \<Rightarrow> Inr [] | Some g \<Rightarrow> igroup_full g) gs) (\<lambda>n.
             if length (b @ n) > allocated then Inl OutOfBounds else Inr (b @ n)))))"

section \<open>Reading a configuration from a device\<close>

text \<open>One transfer into a buffer of \<open>room\<close> bytes; the constructor exits when it fails.\<close>

definition transfer :: "'d creq \<Rightarrow> usb_ctrlrequest \<Rightarrow> nat \<Rightarrow> 'd \<Rightarrow> (bytes \<times> 'd) res" where
  "transfer creq r room d =
     (case creq r d of ((rc, bs), d') \<Rightarrow>
        if length bs > room then Inl OutOfBounds
        else if rc < 0 then Inl Exits
        else Inr (bs, d'))"

text \<open>\<open>while (p<e) add_interface(new Interface(this,&p,e))\<close>. Every interface takes nine bytes or
  more, so this loop ends; \<open>fuel\<close> bounds the loops of the interface's constructor.\<close>

function parse_ifaces :: "nat \<Rightarrow> config \<Rightarrow> bytes \<Rightarrow> config res" where
  "parse_ifaces fuel c p =
     (if p = [] then Inr c
      else and_then (parse_iface fuel p) (\<lambda>(ic, rest).
        and_then (config_add c ic) (\<lambda>c'. parse_ifaces fuel c' rest)))"
  by pat_completeness auto
termination
  by (relation "measure (\<lambda>(fuel, c, p). length p)") (auto dest: parse_iface_inv(4))

definition get_interface_request :: "nat \<Rightarrow> usb_ctrlrequest" where
  "get_interface_request i =
     \<lparr>cr_bRequestType = USB_DIR_IN OR USB_RECIP_INTERFACE, cr_bRequest = USB_REQ_GET_INTERFACE,
      cr_wValue = 0, cr_wIndex = of_nat i, cr_wLength = 1\<rparr>"

text \<open>The last loop of the constructor: an interface with one setting has it active, the device
  is asked about the others. An answer without a byte leaves \<open>result\<close> without a value.\<close>

fun query_active ::
  "'d creq \<Rightarrow> nat \<Rightarrow> igroup option list \<Rightarrow> 'd \<Rightarrow> (igroup option list \<times> 'd) res" where
  "query_active creq i [] d = Inr ([], d)"
| "query_active creq i (g # gs) d =
     and_then (deref g) (\<lambda>g.
       and_then
         (if ig_alternateCount g = 1 then Inr (g\<lparr>ig_activeAlternateIndex := 0\<rparr>, d)
          else and_then (transfer creq (get_interface_request i) 1 d) (\<lambda>(bs, d').
            case bs of [] \<Rightarrow> Inl Uninit
            | result # _ \<Rightarrow> Inr (g\<lparr>ig_activeAlternateIndex := uint result\<rparr>, d')))
         (\<lambda>(g', d'). and_then (query_active creq (Suc i) gs d') (\<lambda>(gs', d'').
            Inr (Some g' # gs', d''))))"

definition get_config_request :: "int \<Rightarrow> bool \<Rightarrow> u16 \<Rightarrow> usb_ctrlrequest" where
  "get_config_request idx otherSpeed len =
     \<lparr>cr_bRequestType = USB_DIR_IN, cr_bRequest = USB_REQ_GET_DESCRIPTOR,
      cr_wValue = push_bit 8 (ucast (if otherSpeed then USB_DT_OTHER_SPEED_CONFIG else USB_DT_CONFIG))
        OR of_int idx,
      cr_wIndex = 0, cr_wLength = len\<rparr>"

text \<open>
  \<open>Configuration(Device*, DeviceProxy*, int, bool)\<close>: nine bytes first, for \<open>wTotalLength\<close>, then
  the whole descriptor into a buffer of that size, whose first bytes are those of the first
  answer. The bytes that the second answer stored are parsed.
\<close>

definition config_from_proxy ::
  "nat \<Rightarrow> 'd creq \<Rightarrow> int \<Rightarrow> bool \<Rightarrow> 'd \<Rightarrow> (config \<times> 'd) res" where
  "config_from_proxy fuel creq idx otherSpeed d0 =
     and_then (transfer creq (get_config_request idx otherSpeed 9) 9 d0) (\<lambda>(b1, d1).
       if length b1 < 4 then Inl Uninit
       else let len = le16 (b1 ! 2) (b1 ! 3) in
         and_then (transfer creq (get_config_request idx otherSpeed len) (unat len) d1)
           (\<lambda>(b2, d2).
             let buf = b2 @ drop (length b2) b1 in
             if unat len < 9 then Inl OutOfBounds
             else if length buf < 9 then Inl Uninit
             else and_then
               (parse_ifaces fuel (config_of_descriptor (config_of_bytes buf)) (drop 9 b2))
               (\<lambda>c. and_then (the_groups c) (\<lambda>gs.
                 and_then (query_active creq 0 gs d2) (\<lambda>(gs', d3).
                   Inr (c\<lparr>cf_groups := gs'\<rparr>, d3))))))"

section \<open>The definition check\<close>

definition check_group :: "u8 \<Rightarrow> nat \<times> igroup option \<Rightarrow> definition_error res" where
  "check_group cid = (\<lambda>(i, g). case g of
     None \<Rightarrow> Inr (def_error DE_ERR_NULL_OBJECT 0 DE_OBJ_INTERFACEGROUP cid (of_nat i) 0 0)
   | Some g \<Rightarrow>
       if unat (ig_number g) \<noteq> i then
         Inr (def_error DE_ERR_MISPLACED_OBJECT (ucast (ig_number g)) DE_OBJ_INTERFACEGROUP cid
           (of_nat i) 0 0)
       else igroup_is_defined cid g)"

definition config_is_defined :: "bool \<Rightarrow> config \<Rightarrow> definition_error res" where
  "config_is_defined highSpeed c =
     (let d = cf_descriptor c;
          obj = (if highSpeed then DE_OBJ_OS_CONFIG else DE_OBJ_CONFIG);
          cid = (if highSpeed then 0x80 else 0x00) OR cf_bConfigurationValue d;
          err = (\<lambda>detail. Inr (def_error DE_ERR_INVALID_DESCRIPTOR detail obj cid 0 0 0)) in
      if cf_bLength d \<noteq> 9 then err 0x01
      else if cf_bDescriptorType d \<noteq>
        (if highSpeed then USB_DT_OTHER_SPEED_CONFIG else USB_DT_CONFIG) then err 0x02
      else and_then (config_full_length c) (\<lambda>len.
        if unat (cf_wTotalLength d) \<noteq> len then err 0x03
        else if cf_bNumInterfaces d = 0 then err 0x05
        else if cf_bmAttributes d AND 0x9f \<noteq> 0x80 then err 0x08
        else and_then (the_groups c) (\<lambda>gs. first_error (check_group cid) (enumerate 0 gs))))"

section \<open>Lemmas\<close>

declare parse_ifaces.simps [simp del]

lemma length_config_groups [simp]:
  "length (cf_groups (config_of_descriptor d)) = unat (cf_bNumInterfaces d)"
  by (simp add: config_of_descriptor_def)

definition config_wf :: "config \<Rightarrow> bool" where
  "config_wf c \<longleftrightarrow>
     length (cf_groups c) = unat (cf_bNumInterfaces (cf_descriptor c)) \<and>
     (\<forall>g. Some g \<in> set (cf_groups c) \<longrightarrow> igroup_wf g)"

lemma config_of_descriptor_wf [simp]: "config_wf (config_of_descriptor d)"
  by (simp add: config_wf_def config_of_descriptor_def)

lemma the_groups_wf [simp]: "config_wf c \<Longrightarrow> the_groups c = Inr (cf_groups c)"
  by (simp add: the_groups_def config_wf_def)

text \<open>The lengths that are added up are the bytes that are copied, so no copy leaves the buffer
  that \<open>get_full_descriptor\<close> allocates.\<close>

definition config_pieces :: "config \<Rightarrow> bytes res" where
  "config_pieces c =
     and_then (first_n (config_struct (cf_descriptor c)) (unat (cf_bLength (cf_descriptor c)))) (\<lambda>b.
       and_then (the_groups c) (\<lambda>gs.
         and_then (concat_of (\<lambda>g. case g of None \<Rightarrow> Inr [] | Some g \<Rightarrow> igroup_full g) gs) (\<lambda>n.
           Inr (b @ n))))"

lemma config_pieces_length:
  assumes "config_pieces c = Inr bs"
  shows "config_full_length c = Inr (length bs)"
proof -
  from assms obtain gs n where
    b: "unat (cf_bLength (cf_descriptor c)) \<le> 9"
      "bs = take (unat (cf_bLength (cf_descriptor c))) (config_struct (cf_descriptor c)) @ n"
    and gs: "the_groups c = Inr gs"
    and n: "concat_of (\<lambda>g. case g of None \<Rightarrow> Inr [] | Some g \<Rightarrow> igroup_full g) gs = Inr n"
    by (auto simp: config_pieces_def and_then_eq_Inr first_n_eq_Inr)
  have "sum_of (\<lambda>g. case g of None \<Rightarrow> Inr 0 | Some g \<Rightarrow> igroup_full_length g) gs = Inr (length n)"
    using n by (rule sum_of_length [rotated])
      (auto split: option.splits simp: igroup_full_length_eq)
  with b gs show ?thesis by (simp add: config_full_length_def)
qed

lemma config_full_eq_pieces: "config_pieces c = Inr bs \<Longrightarrow> config_full c = Inr bs"
  using config_pieces_length [of c bs]
  by (auto simp: config_full_def config_pieces_def and_then_eq_Inr)

lemma config_full_length_eq: "config_full c = Inr bs \<Longrightarrow> config_full_length c = Inr (length bs)"
  by (rule config_pieces_length) (auto simp: config_full_def config_pieces_def res_simps split: if_splits)

text \<open>The configurations that the check accepts.\<close>

definition config_defined :: "bool \<Rightarrow> config \<Rightarrow> bool" where
  "config_defined highSpeed c \<longleftrightarrow>
     cf_bLength (cf_descriptor c) = 9 \<and>
     cf_bDescriptorType (cf_descriptor c) =
       (if highSpeed then USB_DT_OTHER_SPEED_CONFIG else USB_DT_CONFIG) \<and>
     config_full_length c = Inr (unat (cf_wTotalLength (cf_descriptor c))) \<and>
     cf_groups c \<noteq> [] \<and>
     cf_bmAttributes (cf_descriptor c) AND 0x9f = 0x80 \<and>
     (\<forall>i<length (cf_groups c). \<exists>g. cf_groups c ! i = Some g \<and> unat (ig_number g) = i \<and>
        igroup_defined g)"

lemma config_is_defined_iff:
  assumes "config_wf c"
  shows "(\<exists>rc. config_is_defined hs c = Inr rc \<and> de_err rc = DE_ERR_NONE) \<longleftrightarrow> config_defined hs c"
proof -
  have wf: "igroup_wf g" if "i < length (cf_groups c)" "cf_groups c ! i = Some g" for i g
    using assms that by (metis config_wf_def nth_mem)
  have 0: "cf_bNumInterfaces (cf_descriptor c) = 0 \<longleftrightarrow> cf_groups c = []"
    using assms by (auto simp: config_wf_def unat_eq_0)
  show ?thesis
  proof (cases "config_full_length c")
    case Inl
    then show ?thesis by (auto simp: config_is_defined_def config_defined_def Let_def)
  next
    case (Inr len)
    have "(\<exists>rc. first_error (check_group cid) (enumerate 0 (cf_groups c)) = Inr rc
          \<and> de_err rc = DE_ERR_NONE) \<longleftrightarrow>
      (\<forall>i<length (cf_groups c). \<exists>g. cf_groups c ! i = Some g \<and> unat (ig_number g) = i \<and>
        igroup_defined g)" for cid
      unfolding first_error_none_iff ball_enumerate check_group_def
      by (auto simp: igroup_is_defined_iff [OF wf] split: option.splits if_splits)
    with assms Inr show ?thesis
      by (auto simp: config_is_defined_def config_defined_def Let_def 0)
  qed
qed

section \<open>Lemmas: reading back a serialised configuration\<close>

fun add_all :: "config \<Rightarrow> iface list \<Rightarrow> config res" where
  "add_all c [] = Inr c"
| "add_all c (ic # ics) = and_then (config_add c ic) (\<lambda>c'. add_all c' ics)"

lemma add_all_append: "add_all c (xs @ ys) = and_then (add_all c xs) (\<lambda>c'. add_all c' ys)"
  by (induction xs arbitrary: c) (simp_all add: and_then_assoc)

lemma iface_bytes_stop: "iface_plain ic \<Longrightarrow> at_stop (iface_bytes ic @ rest) \<and> iface_bytes ic \<noteq> []"
  by (simp add: at_stop_def iface_bytes_def interface_struct_def iface_plainD)

lemma iface_items_plain: "iface_plain ic \<Longrightarrow> iface_items ic < 512"
proof -
  assume "iface_plain ic"
  then have "length (if_generics ic) < 256" "length (if_endpoints ic) < 256"
    using iface_plainD(4,5) by auto
  then show ?thesis by (simp add: iface_items_def)
qed

lemma parse_ifaces_bytes:
  "\<forall>ic\<in>set ics. iface_plain ic \<Longrightarrow> 512 \<le> fuel \<Longrightarrow>
   parse_ifaces fuel c (concat (map iface_bytes ics)) = add_all c ics"
proof (induction ics arbitrary: c)
  case (Cons ic ics)
  let ?rest = "concat (map iface_bytes ics)"
  have "at_stop ?rest"
    using Cons.prems(1) by (cases ics) (auto simp: iface_bytes_stop at_stop_def [of "[]"])
  then have "parse_iface fuel (iface_bytes ic @ ?rest) = Inr (ic, ?rest)"
    using Cons.prems iface_items_plain [of ic] by (intro parse_iface_bytes) auto
  with Cons show ?case
    using iface_bytes_stop [of ic "[]"] by (subst parse_ifaces.simps) simp
qed (simp add: parse_ifaces.simps)

text \<open>The settings of interface \<open>n\<close>, in order, as \<open>add_interface\<close> groups them.\<close>

definition settings :: "u8 \<Rightarrow> iface list \<Rightarrow> bool" where
  "settings n ics \<longleftrightarrow> length ics < 256 \<and>
     (\<forall>j<length ics. if_bInterfaceNumber (if_descriptor (ics ! j)) = n \<and>
        unat (if_bAlternateSetting (if_descriptor (ics ! j))) = j \<and> iface_plain (ics ! j))"

definition group_of :: "u8 \<Rightarrow> iface list \<Rightarrow> igroup" where
  "group_of n ics =
     \<lparr>ig_number = n, ig_alternateCount = of_nat (length ics), ig_activeAlternateIndex = -1,
      ig_interfaces = map Some ics\<rparr>"

lemma settings_snoc:
  "settings n (ics @ [ic]) \<longleftrightarrow> length ics < 255 \<and> settings n ics \<and>
     if_bInterfaceNumber (if_descriptor ic) = n \<and>
     unat (if_bAlternateSetting (if_descriptor ic)) = length ics \<and> iface_plain ic"
  by (auto simp: settings_def nth_append All_less_Suc)

lemma group_of_wf: "settings n ics \<Longrightarrow> igroup_wf (group_of n ics)"
  by (auto simp: settings_def group_of_def igroup_wf_def unat_of_nat_u8 in_set_conv_nth
      intro!: iface_plainD(1))

lemma igroup_add_group_of:
  assumes "settings n (ics @ [ic])"
  shows "igroup_add (group_of n ics) ic = Inr (group_of n (ics @ [ic]))"
proof -
  from assms have *: "length ics < 255" "settings n ics"
    "unat (if_bAlternateSetting (if_descriptor ic)) = length ics" by (simp_all add: settings_snoc)
  then have ne: "if_bAlternateSetting (if_descriptor ic) \<noteq> 255" by auto
  have "if_bAlternateSetting (if_descriptor ic) = of_nat (length ics)"
    using *(3) by (metis of_nat_unat ucast_id)
  then have "max (of_nat (length ics)) (if_bAlternateSetting (if_descriptor ic) + 1)
      = (of_nat (length (ics @ [ic])) :: u8)"
    using unat_plus_one_u8 [OF ne] *(3) by (simp add: max_def unat_le_u8 add.commute)
  with *(3) igroup_add_ok [OF group_of_wf [OF *(2)] ne] show ?thesis
    by (simp add: group_of_def place_interface_def list_update_append)
qed

lemma add_settings:
  assumes "settings n ics" "ics \<noteq> []" "unat n < length (cf_groups c)" "cf_groups c ! unat n = None"
  shows "add_all c ics = Inr (c\<lparr>cf_groups := (cf_groups c)[unat n := Some (group_of n ics)]\<rparr>)"
  using assms(1,2)
proof (induction ics rule: rev_induct)
  case (snoc ic ics)
  then have s: "settings n ics" "if_bInterfaceNumber (if_descriptor ic) = n"
    by (simp_all add: settings_snoc)
  have new: "new_igroup n = group_of n []" by (simp add: new_igroup_def group_of_def)
  show ?case
  proof (cases "ics = []")
    case True
    with s snoc.prems(1) igroup_add_group_of [of n "[]" ic] assms(3,4) show ?thesis
      by (simp add: config_add_def new)
  next
    case False
    with s snoc.IH snoc.prems(1) igroup_add_group_of [of n ics ic] assms(3) show ?thesis
      by (simp add: add_all_append config_add_def)
  qed
qed simp

definition group_ifaces :: "igroup \<Rightarrow> iface list" where
  "group_ifaces g = somes (ig_interfaces g)"

text \<open>A group as the constructor builds it, before the active setting is known.\<close>

definition igroup_plain :: "igroup \<Rightarrow> bool" where
  "igroup_plain g \<longleftrightarrow> group_ifaces g \<noteq> [] \<and> settings (ig_number g) (group_ifaces g) \<and>
     g\<lparr>ig_activeAlternateIndex := -1\<rparr> = group_of (ig_number g) (group_ifaces g)"

lemma add_groups:
  assumes "\<forall>g\<in>set gs. igroup_plain g"
    and "\<forall>i<length gs. unat (ig_number (gs ! i)) = i"
    and "cf_groups c = replicate (length gs + k) None"
  shows "add_all c (concat (map group_ifaces gs)) =
    Inr (c\<lparr>cf_groups := map (\<lambda>g. Some (g\<lparr>ig_activeAlternateIndex := -1\<rparr>)) gs @ replicate k None\<rparr>)"
  using assms
proof (induction gs arbitrary: k rule: rev_induct)
  case Nil
  then have "c\<lparr>cf_groups := replicate k None\<rparr> = c" by (cases c) simp
  then show ?case by simp
next
  case (snoc g gs)
  let ?gs = "map (\<lambda>g. Some (g\<lparr>ig_activeAlternateIndex := -1\<rparr>)) gs"
  have "\<forall>i<length gs. unat (ig_number (gs ! i)) = i"
    using snoc.prems(2) by (auto simp: nth_append dest: less_SucI)
  then have "add_all c (concat (map group_ifaces gs)) =
      Inr (c\<lparr>cf_groups := ?gs @ replicate (Suc k) None\<rparr>)"
    using snoc.prems snoc.IH [of "Suc k"] by simp
  moreover have n: "unat (ig_number g) = length gs" using snoc.prems(2) by auto
  have "add_all (c\<lparr>cf_groups := ?gs @ replicate (Suc k) None\<rparr>) (group_ifaces g)
      = Inr (c\<lparr>cf_groups := ?gs @ Some (g\<lparr>ig_activeAlternateIndex := -1\<rparr>) # replicate k None\<rparr>)"
    using snoc.prems(1) n
    by (subst add_settings) (auto simp: igroup_plain_def nth_append list_update_append)
  ultimately show ?case by (simp add: add_all_append)
qed

text \<open>A device that answers descriptor requests with the bytes that \<open>get_full_descriptor\<close> builds
  for \<open>c\<close>, at most \<open>wLength\<close> of them, and interface requests with the active setting.\<close>

definition serve_config :: "config \<Rightarrow> unit creq" where
  "serve_config c r d =
     ((if cr_bRequest r = USB_REQ_GET_INTERFACE then
         (case cf_groups c ! unat (cr_wIndex r) of
            None \<Rightarrow> (-1, [])
          | Some g \<Rightarrow> (0, [of_int (ig_activeAlternateIndex g)]))
       else case config_full c of
         Inl e \<Rightarrow> (-1, [])
       | Inr bs \<Rightarrow> (0, take (unat (cr_wLength r)) bs)), d)"

definition active_ok :: "igroup \<Rightarrow> bool" where
  "active_ok g \<longleftrightarrow>
     (if ig_alternateCount g = 1 then ig_activeAlternateIndex g = 0
      else ig_activeAlternateIndex g \<in> {0..<256})"

definition config_bytes :: "config \<Rightarrow> bytes" where
  "config_bytes c = config_struct (cf_descriptor c)
     @ concat (map iface_bytes (concat (map group_ifaces (somes (cf_groups c)))))"

definition config_plain :: "config \<Rightarrow> bool" where
  "config_plain c \<longleftrightarrow>
     length (cf_groups c) = unat (cf_bNumInterfaces (cf_descriptor c)) \<and>
     cf_bLength (cf_descriptor c) = 9 \<and>
     unat (cf_wTotalLength (cf_descriptor c)) = length (config_bytes c) \<and>
     (\<forall>i<length (cf_groups c). \<exists>g. cf_groups c ! i = Some g \<and> unat (ig_number g) = i \<and>
        igroup_plain g \<and> active_ok g)"

lemma concat_of_map_Some:
  "concat_of (\<lambda>g. case g of None \<Rightarrow> Inr [] | Some g \<Rightarrow> f g) (map Some xs) = concat_of f xs"
  by (induction xs) simp_all

lemma igroup_plain_bytes:
  assumes "igroup_plain g"
  shows "igroup_full g = Inr (concat (map iface_bytes (group_ifaces g)))"
proof -
  let ?ics = "group_ifaces g"
  have "ig_interfaces g = ig_interfaces (group_of (ig_number g) ?ics)"
    "ig_alternateCount g = ig_alternateCount (group_of (ig_number g) ?ics)"
    using assms by (metis igroup_plain_def igroup.ext_inject igroup.surjective igroup.update_convs(3))+
  then have g: "ig_interfaces g = map Some ?ics" "ig_alternateCount g = of_nat (length ?ics)"
    by (simp_all add: group_of_def)
  have "length ?ics < 256" using assms by (simp add: igroup_plain_def settings_def)
  then have "the_interfaces g = Inr (map Some ?ics)"
    by (simp add: the_interfaces_def g unat_of_nat_u8)
  moreover have "concat_of iface_full ?ics = Inr (concat (map iface_bytes ?ics))"
    using assms
    by (intro concat_of_Inr) (auto simp: igroup_plain_def settings_def in_set_conv_nth
        intro!: iface_full_plain)
  ultimately show ?thesis by (simp add: igroup_full_def concat_of_map_Some)
qed

lemma concat_of_groups:
  "\<forall>g\<in>set gs. igroup_plain g \<Longrightarrow>
   concat_of igroup_full gs = Inr (concat (map iface_bytes (concat (map group_ifaces gs))))"
  by (induction gs) (simp_all add: igroup_plain_bytes)

lemma config_plain_groups:
  assumes "config_plain c"
  obtains gs where "cf_groups c = map Some gs" "\<forall>g\<in>set gs. igroup_plain g"
    "\<forall>g\<in>set gs. active_ok g" "\<forall>i<length gs. unat (ig_number (gs ! i)) = i"
proof
  let ?gs = "somes (cf_groups c)"
  have "\<forall>g\<in>set (cf_groups c). \<exists>x. g = Some x \<and> igroup_plain x \<and> active_ok x"
    using assms by (fastforce simp: config_plain_def in_set_conv_nth)
  from somes_all [OF this] show *: "cf_groups c = map Some ?gs" "\<forall>g\<in>set ?gs. igroup_plain g"
    "\<forall>g\<in>set ?gs. active_ok g" by auto
  show "\<forall>i<length ?gs. unat (ig_number (?gs ! i)) = i"
  proof (intro allI impI)
    fix i assume "i < length ?gs"
    with assms *(1) show "unat (ig_number (?gs ! i)) = i"
      unfolding config_plain_def by (metis length_map nth_map option.inject)
  qed
qed

lemma config_full_plain:
  assumes "config_plain c"
  shows "config_full c = Inr (config_bytes c)"
proof (rule config_full_eq_pieces)
  from assms obtain gs where gs: "cf_groups c = map Some gs" "\<forall>g\<in>set gs. igroup_plain g"
    by (rule config_plain_groups)
  then show "config_pieces c = Inr (config_bytes c)"
    using assms concat_of_groups [OF gs(2)]
    by (simp add: config_pieces_def config_bytes_def config_plain_def the_groups_def
        concat_of_map_Some)
qed

lemma query_active_serve:
  assumes "\<forall>g\<in>set gs. active_ok g" "cf_groups c = gs0 @ map Some gs" "length (cf_groups c) < 256"
  shows "query_active (serve_config c) (length gs0)
      (map (\<lambda>g. Some (g\<lparr>ig_activeAlternateIndex := -1\<rparr>)) gs) () = Inr (map Some gs, ())"
  using assms(1,2)
proof (induction gs arbitrary: gs0)
  case (Cons g gs)
  have idx: "cf_groups c ! unat (of_nat (length gs0) :: u16) = Some g"
    using Cons.prems(2) assms(3) by (simp add: unat_of_nat_u16 nth_append)
  have up: "g\<lparr>ig_activeAlternateIndex := ig_activeAlternateIndex g\<rparr> = g" by (cases g) simp
  have "uint (of_int (ig_activeAlternateIndex g) :: u8) = ig_activeAlternateIndex g"
    if "ig_alternateCount g \<noteq> 1"
    using that Cons.prems(1) by (simp add: active_ok_def uint_word_of_int)
  with Cons.prems Cons.IH [of "gs0 @ [Some g]"] idx up show ?case
    by (auto simp: transfer_def serve_config_def get_interface_request_def usb_consts active_ok_def)
qed simp

lemma config_read_back:
  assumes plain: "config_plain c" and fuel: "512 \<le> fuel"
  shows "config_from_proxy fuel (serve_config c) idx otherSpeed () = Inr (c, ())"
proof -
  let ?d = "cf_descriptor c"
  obtain gs where gs: "cf_groups c = map Some gs" "\<forall>g\<in>set gs. igroup_plain g"
    "\<forall>g\<in>set gs. active_ok g" "\<forall>i<length gs. unat (ig_number (gs ! i)) = i"
    using plain by (rule config_plain_groups)
  define body where "body = concat (map iface_bytes (concat (map group_ifaces gs)))"
  have bs: "config_bytes c = config_struct ?d @ body" by (simp add: config_bytes_def gs(1) body_def)
  have len: "unat (cf_wTotalLength ?d) = 9 + length body"
    using plain bs by (simp add: config_plain_def)
  have n: "length gs = unat (cf_bNumInterfaces ?d)" using plain gs(1) by (simp add: config_plain_def)
  have t: "transfer (serve_config c) (get_config_request idx otherSpeed l) (unat l) () =
      Inr (take (unat l) (config_bytes c), ())" for l
    using config_full_plain [OF plain]
    by (simp add: transfer_def serve_config_def get_config_request_def usb_consts)
  have t9: "transfer (serve_config c) (get_config_request idx otherSpeed 9) 9 () =
      Inr (config_struct ?d, ())"
    using t [of 9] by (simp add: bs)
  have le: "le16 (config_struct ?d ! 2) (config_struct ?d ! 3) = cf_wTotalLength ?d"
    by (simp add: config_struct_def)
  let ?c = "c\<lparr>cf_groups := map (\<lambda>g. Some (g\<lparr>ig_activeAlternateIndex := -1\<rparr>)) gs\<rparr>"
  have ifs: "\<forall>ic\<in>set (concat (map group_ifaces gs)). iface_plain ic"
    using gs(2) by (fastforce simp: igroup_plain_def settings_def in_set_conv_nth)
  have "parse_ifaces fuel (config_of_descriptor ?d) body = Inr ?c"
    unfolding body_def parse_ifaces_bytes [OF ifs fuel]
    using add_groups [OF gs(2,4), of "config_of_descriptor ?d" 0] n
    by (simp add: config_of_descriptor_def)
  moreover have "the_groups ?c = Inr (cf_groups ?c)" using n by (simp add: the_groups_def)
  moreover have "query_active (serve_config c) 0 (cf_groups ?c) () = Inr (map Some gs, ())"
    using query_active_serve [of gs c "[]"] gs(1,3) n by simp
  moreover have "c\<lparr>cf_groups := map Some gs\<rparr> = c" using gs(1) by (cases c) simp
  ultimately show ?thesis
    using t [of "cf_wTotalLength ?d"] len
    by (simp add: config_from_proxy_def t9 le bs)
qed

section \<open>Properties\<close>

lemma config_add_no_fuel: "config_add c ic \<noteq> Inl OutOfFuel"
  by (auto simp: config_add_def Let_def and_then_eq_Inl index_def igroup_add_def first_n_def
      store_def split: if_splits)



text \<open>A HID descriptor of length zero is never skipped: the constructor does not return, for
  any fuel, when the device sends one after an interface descriptor.\<close>

theorem zero_length_hid_hangs:
  assumes "if_bLength d = 9" "if_bDescriptorType d = USB_DT_INTERFACE"
  shows "parse_ifaces fuel c (interface_struct d @ [0, 0x21] @ q) = Inl OutOfFuel"
proof -
  let ?p = "interface_struct d @ [0, 0x21] @ q"
  have "skip_generics fuel [] ?p = (if fuel = 0 then Inl OutOfFuel else Inr ([], ?p))"
    using assms(2) by (cases fuel) (simp_all add: interface_struct_def usb_consts)
  moreover have "drop (unat (?p ! 0)) ?p = [0, 0x21] @ q"
    using assms(1) by (simp add: interface_struct_def)
  ultimately have "parse_iface fuel ?p = Inl OutOfFuel"
    using read_descriptor_struct [OF assms(1), of "[0, 0x21] @ q"] parse_items_zero_hid
    by (simp add: parse_iface_def)
  then show ?thesis by (subst parse_ifaces.simps) (simp add: interface_struct_def)
qed

theorem zero_length_hid_hangs_witness:
  "parse_ifaces 1000 (new_config 11 1 1 0 0x80 50 False)
     (interface_struct (if_descriptor (new_iface 0 0 1 3 0 0 0)) @ [0, 0x21] @ []) = Inl OutOfFuel"
  by (rule zero_length_hid_hangs) (simp_all add: new_iface_def iface_of_descriptor_def)

text \<open>C25: \<open>get_full_descriptor\<close> stays inside the buffer it allocates: when the pieces of the
  configuration can be read, what it writes is exactly their concatenation, and its length is
  what \<open>get_full_descriptor_length\<close> returned.\<close>

theorem full_descriptor_fits:
  assumes "config_pieces c = Inr bs"
  shows "config_full c = Inr bs \<and> config_full_length c = Inr (length bs)"
  using assms by (simp add: config_full_eq_pieces config_pieces_length)

text \<open>\<open>is_defined\<close> reports no error exactly for the configurations that are consistent: all
  groups, settings and endpoints present and at their own index, \<open>wTotalLength\<close> the length of
  the serialised configuration, attributes with the reserved bits set as the standard wants.\<close>

theorem config_check_exact:
  assumes "config_wf c"
  shows "(\<exists>rc. config_is_defined hs c = Inr rc \<and> de_err rc = DE_ERR_NONE) \<longleftrightarrow> config_defined hs c"
  using assms by (rule config_is_defined_iff)

text \<open>C5: a configuration read from a device is the device's: for every configuration whose
  descriptors have the lengths they announce, the constructor that talks to a device which serves
  the serialised configuration rebuilds it, active settings included.\<close>

theorem config_round_trip:
  assumes "config_plain c" "512 \<le> fuel"
  shows "config_from_proxy fuel (serve_config c) idx otherSpeed () = Inr (c, ())"
  using assms by (rule config_read_back)

definition sample_iface :: iface where
  "sample_iface =
     \<lparr>if_descriptor = \<lparr>if_bLength = 9, if_bDescriptorType = 4, if_bInterfaceNumber = 0,
        if_bAlternateSetting = 0, if_bNumEndpoints = 1, if_bInterfaceClass = 3,
        if_bInterfaceSubClass = 1, if_bInterfaceProtocol = 1, if_iInterface = 0\<rparr>,
      if_endpoints = [Some (new_endpoint 0x81 3 8 10)],
      if_hid = Some [9, 0x21, 0x11, 1, 0, 1, 0x22, 63, 0], if_generics = [[3, 0x24, 7]]\<rparr>"

definition sample_config :: config where
  "sample_config =
     \<lparr>cf_descriptor = \<lparr>cf_bLength = 9, cf_bDescriptorType = 2, cf_wTotalLength = 37,
        cf_bNumInterfaces = 1, cf_bConfigurationValue = 1, cf_iConfiguration = 0,
        cf_bmAttributes = 0x80, cf_bMaxPower = 50\<rparr>,
      cf_groups = [Some \<lparr>ig_number = 0, ig_alternateCount = 1, ig_activeAlternateIndex = 0,
        ig_interfaces = [Some sample_iface]\<rparr>]\<rparr>"

lemma sample_iface_plain: "iface_plain sample_iface"
  by (simp add: sample_iface_def iface_plain_def iface_wf_def hid_ok_def block_ok_def
      generic_ok_def endpoint_plain_def new_endpoint_def usb_consts)

lemma sample_config_plain: "config_plain sample_config"
proof -
  have "length (iface_bytes sample_iface) = 28"
    by (simp add: iface_bytes_def sample_iface_def)
  with sample_iface_plain show ?thesis
    by (simp add: config_plain_def sample_config_def config_bytes_def group_ifaces_def
        igroup_plain_def settings_def group_of_def active_ok_def)
      (simp add: sample_iface_def)
qed

theorem full_descriptor_fits_witness:
  "config_full sample_config = Inr (config_bytes sample_config) \<and>
     config_full_length sample_config = Inr (length (config_bytes sample_config))"
proof (rule full_descriptor_fits)
  show "config_pieces sample_config = Inr (config_bytes sample_config)"
    using config_full_plain [OF sample_config_plain]
    by (auto simp: config_full_def config_pieces_def res_simps split: if_splits)
qed

theorem config_check_exact_witness:
  "(\<exists>rc. config_is_defined False sample_config = Inr rc \<and> de_err rc = DE_ERR_NONE)
     \<longleftrightarrow> config_defined False sample_config"
  by (rule config_check_exact)
    (use sample_iface_plain in \<open>simp add: config_wf_def sample_config_def igroup_wf_def iface_plain_def\<close>)

theorem config_round_trip_witness:
  "config_from_proxy 512 (serve_config sample_config) 0 False () = Inr (sample_config, ())"
  by (rule config_round_trip) (simp_all add: sample_config_plain)

section \<open>Well-formed results\<close>

text \<open>A group counts its settings in a byte, so 256 of them count as none.\<close>

definition igroup_counted :: "igroup \<Rightarrow> bool" where
  "igroup_counted g \<longleftrightarrow> length (ig_interfaces g) \<le> 256 \<and>
     ig_alternateCount g = of_nat (length (ig_interfaces g)) \<and>
     (\<forall>ic. Some ic \<in> set (ig_interfaces g) \<longrightarrow> iface_wf ic)"

lemma igroup_add_counted [inv_intros]:
  assumes "igroup_add g ic = Inr g'" "igroup_counted g" "iface_wf ic"
  shows "igroup_counted g'"
proof -
  let ?a = "if_bAlternateSetting (if_descriptor ic)"
  show ?thesis
  proof (cases "ig_alternateCount g \<le> ?a")
    case True
    then have le: "unat (ig_alternateCount g) \<le> unat ?a" by (simp add: unat_le_u8)
    define old where "old = take (unat (ig_alternateCount g)) (ig_interfaces g)"
    from assms(1) True have n: "unat (ig_alternateCount g) \<le> length (ig_interfaces g)"
      and g': "g' = g\<lparr>ig_interfaces := (old @ replicate (unat ?a + 1 - length old) None)[unat ?a := Some ic],
        ig_alternateCount := ?a + 1\<rparr>"
      by (auto simp: igroup_add_def Let_def res_simps old_def)
    have "length (ig_interfaces g') = unat ?a + 1" using le n by (simp add: g' old_def)
    moreover have "set old \<subseteq> set (ig_interfaces g)" by (simp add: old_def set_take_subset)
    ultimately show ?thesis
      using assms(2,3) unat_u8_le [of ?a]
      by (auto simp: igroup_counted_def g' simp del: unat_u8_le dest!: set_update_subset_insert [THEN subsetD])
  next
    case False
    with assms show ?thesis
      by (auto simp: igroup_add_def Let_def res_simps igroup_counted_def
          dest!: set_update_subset_insert [THEN subsetD])
  qed
qed

definition config_counted :: "config \<Rightarrow> bool" where
  "config_counted c \<longleftrightarrow>
     length (cf_groups c) = unat (cf_bNumInterfaces (cf_descriptor c)) \<and>
     (\<forall>g. Some g \<in> set (cf_groups c) \<longrightarrow> igroup_counted g)"

lemma config_add_counted [inv_intros]:
  assumes "config_add c ic = Inr c'" "config_counted c" "iface_wf ic"
  shows "config_counted c'"
proof -
  let ?n = "unat (if_bInterfaceNumber (if_descriptor ic))"
  obtain g where g: "?n < length (cf_groups c)"
    "igroup_add (case cf_groups c ! ?n of None \<Rightarrow> new_igroup (if_bInterfaceNumber (if_descriptor ic)) | Some g \<Rightarrow> g) ic = Inr g"
    "c' = c\<lparr>cf_groups := (cf_groups c)[?n := Some g]\<rparr>"
    using assms(1) by (auto simp: config_add_def Let_def res_simps)
  have "igroup_counted (case cf_groups c ! ?n of None \<Rightarrow> new_igroup (if_bInterfaceNumber (if_descriptor ic)) | Some g \<Rightarrow> g)"
    using assms(2) g(1)
    by (auto simp: config_counted_def igroup_counted_def new_igroup_def split: option.split) (metis nth_mem)+
  then have "igroup_counted g" using igroup_add_counted [OF g(2)] assms(3) by blast
  then show ?thesis
    using assms(2) g(3) by (auto simp: config_counted_def dest!: set_update_subset_insert [THEN subsetD])
qed

lemma parse_ifaces_counted:
  "parse_ifaces fuel c p = Inr c' \<Longrightarrow> config_counted c \<Longrightarrow> config_counted c'"
proof (induction fuel c p rule: parse_ifaces.induct)
  case (1 fuel c p)
  show ?case
  proof (cases "p = []")
    case True
    then show ?thesis using "1.prems" by (simp add: parse_ifaces.simps)
  next
    case False
    then obtain ic rest c1 where "parse_iface fuel p = Inr (ic, rest)" "config_add c ic = Inr c1"
      "parse_ifaces fuel c1 rest = Inr c'"
      using "1.prems"(1) by (subst (asm) parse_ifaces.simps) (auto simp: res_simps)
    then show ?thesis
      using "1.IH" [OF False, of "(ic, rest)" ic rest c1] config_add_counted [of c ic c1] "1.prems"(2)
        parse_iface_inv [of fuel p ic rest] by auto
  qed
qed

lemma query_active_step:
  assumes "query_active creq i (g # gs) d = Inr (gs', d')"
  obtains h k d1 gs1 where "g = Some h" "gs' = Some (h\<lparr>ig_activeAlternateIndex := k\<rparr>) # gs1"
    "query_active creq (Suc i) gs d1 = Inr (gs1, d')"
proof -
  from assms obtain h h' d1 gs1 where h: "g = Some h" "gs' = Some h' # gs1"
    "query_active creq (Suc i) gs d1 = Inr (gs1, d')"
    and h': "(if ig_alternateCount h = 1 then Inr (h\<lparr>ig_activeAlternateIndex := 0\<rparr>, d)
          else and_then (transfer creq (get_interface_request i) 1 d) (\<lambda>(bs, d').
            case bs of [] \<Rightarrow> Inl Uninit
            | result # _ \<Rightarrow> Inr (h\<lparr>ig_activeAlternateIndex := uint result\<rparr>, d'))) = Inr (h', d1)"
    by (auto simp: res_simps)
  from h' have "\<exists>k. h' = h\<lparr>ig_activeAlternateIndex := k\<rparr>"
  proof (cases "ig_alternateCount h = 1")
    case True
    then show ?thesis using h' by auto
  next
    case False
    then obtain bs d2 where "transfer creq (get_interface_request i) 1 d = Inr (bs, d2)"
      using h' by (cases "transfer creq (get_interface_request i) 1 d") auto
    then show ?thesis using h' False by (cases bs) auto
  qed
  with h that show thesis by blast
qed

lemma query_active_counted:
  "query_active creq i gs d = Inr (gs', d') \<Longrightarrow> \<forall>g. Some g \<in> set gs \<longrightarrow> igroup_counted g \<Longrightarrow>
   length gs' = length gs \<and> (\<forall>g\<in>set gs'. \<exists>h. g = Some h \<and> igroup_counted h)"
proof (induction gs arbitrary: i d gs' d')
  case (Cons g gs)
  have same: "igroup_counted (h\<lparr>ig_activeAlternateIndex := k\<rparr>) = igroup_counted h" for h k
    by (simp add: igroup_counted_def)
  from Cons.prems(1) obtain h k d1 gs1 where "g = Some h" "gs' = Some (h\<lparr>ig_activeAlternateIndex := k\<rparr>) # gs1"
    "query_active creq (Suc i) gs d1 = Inr (gs1, d')"
    by (rule query_active_step)
  then show ?case using Cons.IH [of "Suc i" d1 gs1 d'] Cons.prems(2) by (auto simp: same)
qed simp

lemma config_from_proxy_counted:
  assumes "config_from_proxy fuel creq idx otherSpeed d = Inr (c, d')"
  shows "length (cf_groups c) = unat (cf_bNumInterfaces (cf_descriptor c)) \<and>
    (\<forall>g\<in>set (cf_groups c). \<exists>h. g = Some h \<and> igroup_counted h)"
proof -
  obtain desc p c1 gs d2 gs' where c1: "parse_ifaces fuel (config_of_descriptor desc) p = Inr c1"
    "the_groups c1 = Inr gs" "query_active creq 0 gs d2 = Inr (gs', d')" "c = c1\<lparr>cf_groups := gs'\<rparr>"
    using assms by (auto simp: config_from_proxy_def Let_def res_simps split: if_splits)
  have "config_counted (config_of_descriptor desc)"
    by (simp add: config_counted_def config_of_descriptor_def)
  then have wf: "config_counted c1" using parse_ifaces_counted [OF c1(1)] by simp
  then have "gs = cf_groups c1" using c1(2) by (simp add: the_groups_def config_counted_def)
  then show ?thesis
    using query_active_counted [OF c1(3)] wf c1(4) by (auto simp: config_counted_def)
qed

text \<open>C14: every configuration that is read from a device, whatever the device answers, is well-formed: it
  has one group for each interface it announces and none is missing, every group counts its settings
  (256 settings count as none), and every setting has as many endpoint slots as its descriptor
  announces.\<close>

theorem read_configuration_wf:
  assumes "config_from_proxy fuel creq idx otherSpeed d = Inr (c, d')"
  shows "length (cf_groups c) = unat (cf_bNumInterfaces (cf_descriptor c)) \<and>
    (\<forall>g\<in>set (cf_groups c). \<exists>h. g = Some h \<and> igroup_counted h)"
  using assms by (rule config_from_proxy_counted)

theorem read_configuration_wf_witness:
  "length (cf_groups sample_config) = unat (cf_bNumInterfaces (cf_descriptor sample_config)) \<and>
   igroup_counted (the (hd (cf_groups sample_config)))"
  using read_configuration_wf [OF config_read_back [OF sample_config_plain order_refl]]
  by (simp add: sample_config_def)

end
