(* ===== verification/USB_String_Model.thy ===== *)
theory USB_String_Model
  imports Configuration_Model
begin

text \<open>
  String descriptors (\<open>src/lib/USBString.cpp\<close>): the bytes of the descriptor with the string's
  index and language. \<open>us_id\<close> tells the objects on the heap apart: two pointers to one string
  have one \<open>us_id\<close>.
\<close>

record usb_string =
  us_id :: nat
  us_index :: u8
  us_languageId :: u16
  us_data :: bytes

section \<open>Constructors\<close>

definition get_string_request :: "u8 \<Rightarrow> u16 \<Rightarrow> u16 \<Rightarrow> usb_ctrlrequest" where
  "get_string_request idx lang len =
     \<lparr>cr_bRequestType = USB_DIR_IN, cr_bRequest = USB_REQ_GET_DESCRIPTOR,
      cr_wValue = push_bit 8 (ucast USB_DT_STRING) OR ucast idx,
      cr_wIndex = lang, cr_wLength = len\<rparr>"

text \<open>From the device: eight bytes, and the whole descriptor when \<open>bLength\<close> says there are more.
  A device that stores fewer bytes than \<open>bLength\<close> leaves some without a value.\<close>

definition string_from_proxy ::
  "'d creq \<Rightarrow> nat \<Rightarrow> u8 \<Rightarrow> u16 \<Rightarrow> 'd \<Rightarrow> (usb_string \<times> 'd) res" where
  "string_from_proxy creq ident idx lang d =
     and_then (transfer creq (get_string_request idx lang 8) 8 d) (\<lambda>(b1, d1).
       case b1 of [] \<Rightarrow> Inl Uninit
       | n # _ \<Rightarrow>
         and_then
           (if unat n > 8 then
              and_then (transfer creq (get_string_request idx lang (ucast n)) (unat n) d1)
                (\<lambda>(b2, d2). Inr (b2 @ drop (length b2) b1, d2))
            else Inr (take (unat n) b1, d1))
           (\<lambda>(bs, d2).
              if length bs < unat n then Inl Uninit
              else Inr (\<lparr>us_id = ident, us_index = idx, us_languageId = lang, us_data = bs\<rparr>, d2)))"

definition string_from_descriptor :: "nat \<Rightarrow> bytes \<Rightarrow> u8 \<Rightarrow> u16 \<Rightarrow> usb_string res" where
  "string_from_descriptor ident desc idx lang =
     and_then (index desc 0) (\<lambda>n. and_then (first_n desc (unat n)) (\<lambda>bs.
       Inr \<lparr>us_id = ident, us_index = idx, us_languageId = lang, us_data = bs\<rparr>))"

fun le16_bytes :: "u16 list \<Rightarrow> bytes" where
  "le16_bytes [] = []"
| "le16_bytes (w # ws) = lo8 w # hi8 w # le16_bytes ws"

text \<open>From UTF-16 units before a terminating zero: the block has \<open>2 * (len + 1)\<close> bytes, a number
  that is stored in one byte as \<open>bLength\<close>.\<close>

definition string_of_units :: "nat \<Rightarrow> u16 list \<Rightarrow> u8 \<Rightarrow> u16 \<Rightarrow> usb_string" where
  "string_of_units ident ws idx lang =
     \<lparr>us_id = ident, us_index = idx, us_languageId = lang,
      us_data = [of_nat (2 * (length ws + 1)), USB_DT_STRING] @ le16_bytes ws\<rparr>"

text \<open>From a C string: \<open>char\<close> is signed, so a byte above 0x7f is sign-extended into its unit.\<close>

definition string_of_chars :: "nat \<Rightarrow> bytes \<Rightarrow> u8 \<Rightarrow> u16 \<Rightarrow> usb_string" where
  "string_of_chars ident cs idx lang = string_of_units ident (map scast cs) idx lang"

section \<open>Operations\<close>

definition string_length_byte :: "usb_string \<Rightarrow> u8 res" where
  "string_length_byte s = index (us_data s) 0"

definition get_char_count :: "usb_string \<Rightarrow> u8 res" where
  "get_char_count s = and_then (string_length_byte s) (\<lambda>n. Inr (drop_bit 1 n - 1))"

definition w_data :: "usb_string \<Rightarrow> nat \<Rightarrow> u16 res" where
  "w_data s i =
     and_then (index (us_data s) (2 + 2 * i)) (\<lambda>lo.
       and_then (index (us_data s) (3 + 2 * i)) (\<lambda>hi. Inr (le16 lo hi)))"

fun map_res :: "('a \<Rightarrow> 'b res) \<Rightarrow> 'a list \<Rightarrow> 'b list res" where
  "map_res f [] = Inr []"
| "map_res f (x # xs) = and_then (f x) (\<lambda>y. and_then (map_res f xs) (\<lambda>ys. Inr (y # ys)))"

definition ascii_of_unit :: "u16 \<Rightarrow> u8" where
  "ascii_of_unit w = (if w AND 0xff00 \<noteq> 0 then 0x3f else ucast w)"

text \<open>The loop runs to \<open>(bLength>>1)-1\<close>, an \<open>int\<close> that is -1 for an empty descriptor.\<close>

definition get_ascii :: "usb_string \<Rightarrow> bytes res" where
  "get_ascii s =
     and_then (string_length_byte s) (\<lambda>n.
       and_then (map_res (w_data s) [0..<unat n div 2 - 1]) (\<lambda>ws. Inr (map ascii_of_unit ws)))"

text \<open>\<open>append_char\<close>: the block is reallocated for two more bytes than \<open>bLength\<close> says; the new
  length is stored in the byte \<open>bLength\<close>.\<close>

definition append_char :: "usb_string \<Rightarrow> u16 \<Rightarrow> usb_string res" where
  "append_char s u =
     (if us_index s \<noteq> 0 \<or> us_languageId s \<noteq> 0 then Inr s
      else and_then (string_length_byte s) (\<lambda>n.
        let len = unat n + 2;
            kept = take len (us_data s);
            block = (map Some kept @ replicate (len - length kept) None)[0 := Some (of_nat len)];
            at = 2 * (len div 2) - 2 in
        and_then (written (block[at := Some (lo8 u), at + 1 := Some (hi8 u)])) (\<lambda>bs.
          Inr (s\<lparr>us_data := bs\<rparr>))))"

section \<open>Lemmas\<close>

lemma length_le16_bytes [simp]: "length (le16_bytes ws) = 2 * length ws"
  by (induction ws) simp_all

lemma le16_bytes_append [simp]: "le16_bytes (xs @ ys) = le16_bytes xs @ le16_bytes ys"
  by (induction xs) simp_all

lemma le16_bytes_nth:
  "i < length ws \<Longrightarrow> le16_bytes ws ! (2 * i) = lo8 (ws ! i)"
  "i < length ws \<Longrightarrow> le16_bytes ws ! (Suc (2 * i)) = hi8 (ws ! i)"
proof (induction ws arbitrary: i)
  case (Cons w ws)
  {
    case 1
    with Cons show ?case by (cases i) simp_all
  next
    case 2
    with Cons show ?case by (cases i) simp_all
  }
qed simp_all

lemma map_res_eq_Inr [res_simps]:
  "map_res f xs = Inr ys \<longleftrightarrow> list_all2 (\<lambda>x y. f x = Inr y) xs ys"
  by (induction xs arbitrary: ys) (auto simp: res_simps list_all2_Cons1)

text \<open>A string descriptor whose length byte is the size of its block.\<close>

definition units_string :: "usb_string \<Rightarrow> u16 list \<Rightarrow> bool" where
  "units_string s ws \<longleftrightarrow> length ws < 127 \<and>
     (\<exists>ty. us_data s = [of_nat (2 * (length ws + 1)), ty] @ le16_bytes ws)"

lemma units_string_of_units: "length ws < 127 \<Longrightarrow> units_string (string_of_units ident ws idx lang) ws"
  by (simp add: units_string_def string_of_units_def)

lemma units_string_length:
  assumes "units_string s ws"
  shows "string_length_byte s = Inr (of_nat (2 * (length ws + 1)))"
    "unat (of_nat (2 * (length ws + 1)) :: u8) = 2 * (length ws + 1)"
proof -
  from assms have "length ws < 127" by (simp add: units_string_def)
  then show "unat (of_nat (2 * (length ws + 1)) :: u8) = 2 * (length ws + 1)"
    by (intro unat_of_nat_u8) simp
  show "string_length_byte s = Inr (of_nat (2 * (length ws + 1)))"
    using assms by (auto simp: units_string_def string_length_byte_def)
qed

lemma units_string_w_data:
  assumes "units_string s ws" "i < length ws"
  shows "w_data s i = Inr (ws ! i)"
  using assms by (auto simp: units_string_def w_data_def le16_bytes_nth)

lemma units_string_char_count:
  assumes "units_string s ws"
  shows "get_char_count s = Inr (of_nat (length ws))"
proof -
  let ?n = "of_nat (2 * (length ws + 1)) :: u8"
  have "unat (drop_bit 1 ?n) = unat ?n div 2"
    by (simp only: unat_drop_bit_eq) (simp add: drop_bit_eq_div)
  also have "\<dots> = length ws + 1"
    unfolding units_string_length(2) [OF assms] by simp
  finally have "drop_bit 1 ?n = of_nat (length ws + 1)"
    by (metis of_nat_unat ucast_id)
  then have "drop_bit 1 ?n - 1 = of_nat (length ws)" by simp
  then show ?thesis
    using units_string_length(1) [OF assms] by (simp add: get_char_count_def)
qed

lemma units_string_ascii:
  assumes "units_string s ws"
  shows "get_ascii s = Inr (map ascii_of_unit ws)"
proof -
  have "map_res (w_data s) [0..<length ws] = Inr ws"
    using units_string_w_data [OF assms] by (simp add: map_res_eq_Inr list_all2_conv_all_nth)
  moreover have "unat (of_nat (2 * (length ws + 1)) :: u8) div 2 - 1 = length ws"
    unfolding units_string_length(2) [OF assms] by simp
  ultimately show ?thesis
    using units_string_length(1) [OF assms] by (simp add: get_ascii_def del: of_nat_mult of_nat_add)
qed

lemma append_char_units:
  assumes "units_string s ws" "length ws < 126" "us_index s = 0" "us_languageId s = 0"
  shows "\<exists>s'. append_char s u = Inr s' \<and> units_string s' (ws @ [u]) \<and>
    s' = s\<lparr>us_data := us_data s'\<rparr>"
proof -
  obtain ty where data: "us_data s = [of_nat (2 * (length ws + 1)), ty] @ le16_bytes ws"
    using assms(1) by (auto simp: units_string_def)
  let ?n = "2 * (length ws + 1)"
  let ?bs = "[of_nat (?n + 2), ty] @ le16_bytes (ws @ [u])"
  have len: "length (us_data s) = ?n" using data by simp
  have "(map Some (us_data s) @ replicate 2 None)[0 := Some (of_nat (?n + 2)),
      ?n := Some (lo8 u), ?n + 1 := Some (hi8 u)] = map Some ?bs"
    by (simp add: data list_update_append numeral_2_eq_2)
  then have "append_char s u = Inr (s\<lparr>us_data := ?bs\<rparr>)"
    using assms(3,4) units_string_length [OF assms(1)] len
    by (simp add: append_char_def Let_def del: of_nat_add of_nat_mult)
  then show ?thesis using assms(2) by (auto simp: units_string_def intro!: exI [of _ ty])
qed

end
