(* ===== verification/Device_Model.thy ===== *)
theory Device_Model
  imports USB_String_Model
begin

text \<open>
  The device (\<open>src/lib/Device.cpp\<close>) and its high-speed qualifier (\<open>src/lib/DeviceQualifier.cpp\<close>):
  the descriptor, the configurations, and the string table \<open>strings[stringID][language]\<close>, whose
  rows are arrays that a NULL pointer ends. A row is the list of the pointers before the NULL;
  the heap identities of the strings (\<open>us_id\<close>) say which pointers are equal.
\<close>

section \<open>State\<close>

record qualifier =
  q_descriptor :: qualifier_descriptor
  q_configurations :: "config option list"

record device =
  dv_descriptor :: device_descriptor
  dv_configurations :: "config option list"
  dv_strings :: "usb_string list option list"
  dv_maxStringIdx :: nat
  dv_qualifier :: "qualifier option"
  dv_deviceConfigurationIndex :: int
  dv_deviceAddress :: u8
  dv_highspeed :: bool
  dv_next_id :: nat

text \<open>The constructors of the qualifier from given fields; the second one does not assign
  \<open>bRESERVED\<close>, whose value is what was in memory.\<close>

definition qualifier_of_descriptor :: "qualifier_descriptor \<Rightarrow> qualifier" where
  "qualifier_of_descriptor d =
     \<lparr>q_descriptor = d, q_configurations = replicate (unat (dq_bNumConfigurations d)) None\<rparr>"

definition new_qualifier ::
  "u8 \<Rightarrow> u16 \<Rightarrow> u8 \<Rightarrow> u8 \<Rightarrow> u8 \<Rightarrow> u8 \<Rightarrow> u8 \<Rightarrow> qualifier" where
  "new_qualifier in_memory bcdUSB bDeviceClass bDeviceSubClass bDeviceProtocol bMaxPacketSize0
     bNumConfigurations =
     qualifier_of_descriptor
       \<lparr>dq_bLength = 10, dq_bDescriptorType = USB_DT_DEVICE_QUALIFIER, dq_bcdUSB = bcdUSB,
        dq_bDeviceClass = bDeviceClass, dq_bDeviceSubClass = bDeviceSubClass,
        dq_bDeviceProtocol = bDeviceProtocol, dq_bMaxPacketSize0 = bMaxPacketSize0,
        dq_bNumConfigurations = bNumConfigurations, dq_bRESERVED = in_memory\<rparr>"

text \<open>The constructors without a proxy: one string, the list of languages, with US English.\<close>

definition device_of_descriptor :: "device_descriptor \<Rightarrow> device" where
  "device_of_descriptor d =
     \<lparr>dv_descriptor = d,
      dv_configurations = replicate (unat (dd_bNumConfigurations d)) None,
      dv_strings = [Some [string_of_units 0 [0x0409] 0 0]], dv_maxStringIdx = 0,
      dv_qualifier = None, dv_deviceConfigurationIndex = -1, dv_deviceAddress = 0,
      dv_highspeed = False, dv_next_id = 1\<rparr>"

section \<open>Languages\<close>

definition zero_string :: "device \<Rightarrow> usb_string res" where
  "zero_string dv =
     and_then (index (dv_strings dv) 0) (\<lambda>row. and_then (deref row) (\<lambda>ss.
       case ss of [] \<Rightarrow> Inl NullDeref | s # _ \<Rightarrow> Inr s))"

definition set_zero_string :: "device \<Rightarrow> usb_string \<Rightarrow> device" where
  "set_zero_string dv s =
     (case dv_strings dv of
        Some (s0 # ss) # rows \<Rightarrow> dv\<lparr>dv_strings := Some (s # ss) # rows\<rparr>
      | _ \<Rightarrow> dv)"

definition get_language_count :: "device \<Rightarrow> u8 res" where
  "get_language_count dv = and_then (zero_string dv) get_char_count"

definition get_language_by_index :: "device \<Rightarrow> u8 \<Rightarrow> u16 res" where
  "get_language_by_index dv i =
     and_then (get_language_count dv) (\<lambda>n.
       if i \<ge> n then Inr 0 else and_then (zero_string dv) (\<lambda>s. w_data s (unat i)))"

fun has_unit :: "usb_string \<Rightarrow> u16 \<Rightarrow> nat list \<Rightarrow> bool res" where
  "has_unit s l [] = Inr False"
| "has_unit s l (i # is) = and_then (w_data s i) (\<lambda>w. if w = l then Inr True else has_unit s l is)"

definition add_language :: "device \<Rightarrow> u16 \<Rightarrow> device res" where
  "add_language dv l =
     and_then (get_language_count dv) (\<lambda>count.
       and_then (zero_string dv) (\<lambda>s.
         and_then (has_unit s l [0..<unat count]) (\<lambda>found.
           if found then Inr dv
           else and_then (append_char s l) (\<lambda>s'. Inr (set_zero_string dv s')))))"

section \<open>Adding strings\<close>

text \<open>The loop over a row: every pointer to a string of the language is replaced, and the loop
  goes on to the NULL, where the string is appended.\<close>

fun put_string :: "usb_string \<Rightarrow> usb_string list \<Rightarrow> usb_string list" where
  "put_string s [] = [s]"
| "put_string s (x # xs) =
     (if us_languageId x = us_languageId s then s else x) # put_string s xs"

definition grow_strings :: "device \<Rightarrow> nat \<Rightarrow> device" where
  "grow_strings dv i =
     (if i > dv_maxStringIdx dv then
        dv\<lparr>dv_strings := take (dv_maxStringIdx dv + 1) (dv_strings dv)
             @ replicate (i - dv_maxStringIdx dv) None,
           dv_maxStringIdx := i\<rparr>
      else dv)"

definition add_string :: "device \<Rightarrow> usb_string \<Rightarrow> device res" where
  "add_string dv s =
     (let i = unat (us_index s) in
      and_then (if us_index s \<noteq> 0 \<or> us_languageId s \<noteq> 0 then add_language dv (us_languageId s)
                else Inr dv) (\<lambda>dv1.
        let dv2 = grow_strings dv1 i in
        and_then (index (dv_strings dv2) i) (\<lambda>row.
          Inr (dv2\<lparr>dv_strings := (dv_strings dv2)[i := Some
            (case row of Some ss \<Rightarrow> put_string s ss | None \<Rightarrow> [s])]\<rparr>))))"

text \<open>\<open>add_string(index, languageId)\<close> with the device's proxy; the new string object gets the next
  identity.\<close>

definition add_string_lang ::
  "'d creq \<Rightarrow> u8 \<Rightarrow> u16 \<Rightarrow> device \<times> 'd \<Rightarrow> (device \<times> 'd) res" where
  "add_string_lang creq i l = (\<lambda>(dv, d).
     and_then (string_from_proxy creq (dv_next_id dv) i l d) (\<lambda>(s, d').
       and_then (add_string (dv\<lparr>dv_next_id := dv_next_id dv + 1\<rparr>) s) (\<lambda>dv'. Inr (dv', d'))))"

fun fold_res :: "('a \<Rightarrow> 's \<Rightarrow> 's res) \<Rightarrow> 'a list \<Rightarrow> 's \<Rightarrow> 's res" where
  "fold_res f [] st = Inr st"
| "fold_res f (x # xs) st = and_then (f x st) (fold_res f xs)"

text \<open>\<open>add_string(index)\<close>, for every language of string 0; the pointer to its descriptor is read
  once, before the loop.\<close>

definition add_string_all :: "'d creq \<Rightarrow> u8 \<Rightarrow> device \<times> 'd \<Rightarrow> (device \<times> 'd) res" where
  "add_string_all creq i = (\<lambda>(dv, d).
     and_then (index (dv_strings dv) 0) (\<lambda>row. case row of
         None \<Rightarrow> Inr (dv, d)
       | Some [] \<Rightarrow> Inr (dv, d)
       | Some (z # _) \<Rightarrow>
           and_then (string_length_byte z) (\<lambda>n.
             fold_res (\<lambda>k st. and_then (w_data z k) (\<lambda>l. add_string_lang creq i l st))
               [0..<unat n div 2 - 1] (dv, d))))"

section \<open>Lookup\<close>

fun find_string :: "u16 \<Rightarrow> usb_string list \<Rightarrow> usb_string option" where
  "find_string l [] = None"
| "find_string l (s # ss) = (if us_languageId s = l then Some s else find_string l ss)"

definition get_string :: "device \<Rightarrow> u8 \<Rightarrow> u16 \<Rightarrow> usb_string option res" where
  "get_string dv i l =
     (if unat i > dv_maxStringIdx dv then Inr None
      else and_then (index (dv_strings dv) (unat i)) (\<lambda>row. case row of
          None \<Rightarrow> Inr None
        | Some ss \<Rightarrow>
            and_then (if l = 0 \<and> i \<noteq> 0 then and_then (zero_string dv) (\<lambda>z. w_data z 0) else Inr l)
              (\<lambda>l'. Inr (find_string l' ss))))"

text \<open>\<open>get_manufacturer_string\<close>, \<open>get_product_string\<close> and \<open>get_serial_string\<close>, for the index in
  the descriptor.\<close>

definition get_descriptor_string :: "device \<Rightarrow> u8 \<Rightarrow> u16 \<Rightarrow> usb_string option res" where
  "get_descriptor_string dv i l =
     (if i = 0 then Inr None
      else and_then (if l \<noteq> 0 then Inr l else and_then (zero_string dv) (\<lambda>z. w_data z 0))
        (get_string dv i))"

text \<open>The destructor deletes each pointer of each row in turn: the identities it frees.\<close>

definition deleted_strings :: "device \<Rightarrow> nat list" where
  "deleted_strings dv =
     concat (map (\<lambda>row. case row of None \<Rightarrow> [] | Some ss \<Rightarrow> map us_id ss)
       (take (dv_maxStringIdx dv + 1) (dv_strings dv)))"

section \<open>Configurations\<close>

text \<open>\<open>add_configuration\<close>: a value above the count is ignored, the value 0 becomes the index -1.\<close>

definition add_configuration :: "device \<Rightarrow> config \<Rightarrow> device res" where
  "add_configuration dv c =
     (let v = cf_bConfigurationValue (cf_descriptor c) in
      if v > dd_bNumConfigurations (dv_descriptor dv) then Inr dv
      else if v = 0 then Inl OutOfBounds
      else and_then (store (dv_configurations dv) (unat v - 1) (Some c)) (\<lambda>cs.
        Inr (dv\<lparr>dv_configurations := cs\<rparr>)))"

definition get_configuration :: "device \<Rightarrow> u8 \<Rightarrow> config option res" where
  "get_configuration dv i =
     (if i > dd_bNumConfigurations (dv_descriptor dv) \<or> i < 1 then Inr None
      else index (dv_configurations dv) (unat i - 1))"

definition get_active_configuration :: "device \<Rightarrow> config option res" where
  "get_active_configuration dv =
     (if dv_deviceConfigurationIndex dv < 0 then Inr None
      else get_configuration dv (of_int (dv_deviceConfigurationIndex dv)))"

definition set_active_configuration :: "device \<Rightarrow> u8 \<Rightarrow> device" where
  "set_active_configuration dv i =
     (if i > dd_bNumConfigurations (dv_descriptor dv) \<or> i < 1
      then dv\<lparr>dv_deviceConfigurationIndex := -1\<rparr>
      else dv\<lparr>dv_deviceConfigurationIndex := uint i\<rparr>)"

definition qualifier_add_configuration :: "qualifier \<Rightarrow> config \<Rightarrow> qualifier res" where
  "qualifier_add_configuration q c =
     (let v = cf_bConfigurationValue (cf_descriptor c) in
      if v > dq_bNumConfigurations (q_descriptor q) then Inr q
      else if v = 0 then Inl OutOfBounds
      else and_then (store (q_configurations q) (unat v - 1) (Some c)) (\<lambda>cs.
        Inr (q\<lparr>q_configurations := cs\<rparr>)))"

definition qualifier_get_configuration :: "qualifier \<Rightarrow> u8 \<Rightarrow> config option res" where
  "qualifier_get_configuration q i =
     (if i > dq_bNumConfigurations (q_descriptor q) \<or> i < 1 then Inr None
      else index (q_configurations q) (unat i - 1))"

section \<open>The string table\<close>

text \<open>Every row holds strings of its own index; row 0 starts with the list of languages.\<close>

definition strings_wf :: "device \<Rightarrow> u16 list \<Rightarrow> bool" where
  "strings_wf dv langs \<longleftrightarrow>
     length (dv_strings dv) = dv_maxStringIdx dv + 1 \<and>
     (\<exists>z zs rows. dv_strings dv = Some (z # zs) # rows \<and> units_string z langs \<and>
        us_index z = 0 \<and> us_languageId z = 0) \<and>
     (\<forall>i<length (dv_strings dv). \<forall>ss. dv_strings dv ! i = Some ss \<longrightarrow>
        (\<forall>s\<in>set ss. unat (us_index s) = i))"

lemma device_of_descriptor_wf: "strings_wf (device_of_descriptor d) [0x0409]"
  using units_string_of_units [of "[0x0409]" 0 0 0]
  by (simp add: strings_wf_def device_of_descriptor_def string_of_units_def)

lemma strings_wf_length: "strings_wf dv langs \<Longrightarrow> length (dv_strings dv) = dv_maxStringIdx dv + 1"
  by (simp add: strings_wf_def)

lemma strings_wfE:
  assumes "strings_wf dv langs"
  obtains z zs rows where "dv_strings dv = Some (z # zs) # rows" "units_string z langs"
    "us_index z = 0" "us_languageId z = 0" "length rows = dv_maxStringIdx dv"
    "zero_string dv = Inr z"
  using assms by (auto simp: strings_wf_def zero_string_def)

lemma has_unit_units:
  "units_string z langs \<Longrightarrow> \<forall>i\<in>set is. i < length langs \<Longrightarrow>
   has_unit z l is = Inr (\<exists>i\<in>set is. langs ! i = l)"
  by (induction "is") (auto simp: units_string_w_data)

lemma unat_of_nat_length_langs: "units_string z langs \<Longrightarrow> unat (of_nat (length langs) :: u8) = length langs"
  by (intro unat_of_nat_u8) (simp add: units_string_def)

lemma get_language_count_wf: "strings_wf dv langs \<Longrightarrow> get_language_count dv = Inr (of_nat (length langs))"
  by (auto simp: get_language_count_def units_string_char_count elim!: strings_wfE)

text \<open>\<open>add_language\<close> keeps the table and adds the language when it was not there.\<close>

lemma add_language_wf:
  assumes "strings_wf dv langs" "length langs < 126"
  shows "\<exists>dv'. add_language dv l = Inr dv' \<and>
    strings_wf dv' (if l \<in> set langs then langs else langs @ [l]) \<and>
    length (dv_strings dv') = length (dv_strings dv) \<and>
    dv_maxStringIdx dv' = dv_maxStringIdx dv \<and>
    (\<forall>i. 0 < i \<longrightarrow> i < length (dv_strings dv) \<longrightarrow> dv_strings dv' ! i = dv_strings dv ! i)"
proof -
  obtain z zs rows where z: "dv_strings dv = Some (z # zs) # rows" "units_string z langs"
    "us_index z = 0" "us_languageId z = 0" "zero_string dv = Inr z"
    using assms(1) by (rule strings_wfE)
  have found: "has_unit z l [0..<unat (of_nat (length langs) :: u8)] = Inr (l \<in> set langs)"
    unfolding unat_of_nat_length_langs [OF z(2)]
    by (subst has_unit_units [OF z(2)]) (auto simp: in_set_conv_nth)
  have add: "add_language dv l = (if l \<in> set langs then Inr dv
      else and_then (append_char z l) (\<lambda>s'. Inr (set_zero_string dv s')))"
    using z(5) get_language_count_wf [OF assms(1)] found by (simp add: add_language_def)
  show ?thesis
  proof (cases "l \<in> set langs")
    case True
    with add assms(1) show ?thesis by simp
  next
    case False
    obtain z' where z': "append_char z l = Inr z'" "units_string z' (langs @ [l])"
      "z' = z\<lparr>us_data := us_data z'\<rparr>"
      using append_char_units [OF z(2) assms(2) z(3,4), of l] by blast
    have idx: "us_index z' = 0" "us_languageId z' = 0" using z(3,4) by (subst z'(3); simp)+
    have set: "set_zero_string dv z' = dv\<lparr>dv_strings := Some (z' # zs) # rows\<rparr>"
      using z(1) by (simp add: set_zero_string_def)
    have "strings_wf (set_zero_string dv z') (langs @ [l])"
      using assms(1) z(1) z'(2) idx unfolding set
      by (auto simp: strings_wf_def nth_Cons split: nat.splits)
    with False add z'(1) set z(1) show ?thesis by (auto simp: nth_Cons')
  qed
qed

lemma find_put_string: "find_string (us_languageId s) (put_string s ss) = Some s"
  by (induction ss) auto

lemma find_put_string_other:
  "l \<noteq> us_languageId s \<Longrightarrow> find_string l (put_string s ss) = find_string l ss"
  by (induction ss) auto

lemma set_put_string: "set (put_string s ss) \<subseteq> insert s (set ss)"
  by (induction ss) auto

lemma grow_strings_nth:
  assumes "length (dv_strings dv) = dv_maxStringIdx dv + 1" "j < length (dv_strings (grow_strings dv i))"
  shows "dv_strings (grow_strings dv i) ! j = (if j < length (dv_strings dv) then dv_strings dv ! j else None)"
  using assms by (auto simp: grow_strings_def nth_append)

lemma grow_strings_length:
  assumes "length (dv_strings dv) = dv_maxStringIdx dv + 1"
  shows "length (dv_strings (grow_strings dv i)) = dv_maxStringIdx (grow_strings dv i) + 1"
    "dv_maxStringIdx (grow_strings dv i) = max i (dv_maxStringIdx dv)"
  using assms by (auto simp: grow_strings_def)

lemma grow_strings_wf:
  assumes "strings_wf dv langs"
  shows "strings_wf (grow_strings dv i) langs"
proof -
  obtain z zs rows where z: "dv_strings dv = Some (z # zs) # rows" "units_string z langs"
    "us_index z = 0" "us_languageId z = 0" "length rows = dv_maxStringIdx dv"
    using assms by (rule strings_wfE)
  have len: "length (dv_strings dv) = dv_maxStringIdx dv + 1"
    using assms by (simp add: strings_wf_def)
  note nth = grow_strings_nth [OF len] and l = grow_strings_length [OF len]
  have "\<exists>rows'. dv_strings (grow_strings dv i) = Some (z # zs) # rows'"
    using z(1,5) by (auto simp: grow_strings_def)
  moreover have "\<forall>s\<in>set ss. unat (us_index s) = j"
    if "j < length (dv_strings (grow_strings dv i))" "dv_strings (grow_strings dv i) ! j = Some ss" for j ss
    using that nth assms by (auto simp: strings_wf_def split: if_splits)
  ultimately show ?thesis using z(2-4) l unfolding strings_wf_def by blast
qed

lemma get_string_wf:
  assumes "length (dv_strings dv) = dv_maxStringIdx dv + 1" "l \<noteq> 0"
  shows "get_string dv i l = Inr (if unat i < length (dv_strings dv)
    then (case dv_strings dv ! unat i of None \<Rightarrow> None | Some ss \<Rightarrow> find_string l ss) else None)"
  using assms by (auto simp: get_string_def split: option.splits)

lemma add_string_eq:
  assumes "strings_wf dv langs" "length langs < 126" "us_index s \<noteq> 0"
  obtains dv1 dv2 where
    "add_language dv (us_languageId s) = Inr dv1"
    "dv2 = grow_strings dv1 (unat (us_index s))"
    "strings_wf dv2 (if us_languageId s \<in> set langs then langs else langs @ [us_languageId s])"
    "unat (us_index s) < length (dv_strings dv2)" "0 < unat (us_index s)"
    "add_string dv s = Inr (dv2\<lparr>dv_strings := (dv_strings dv2)[unat (us_index s) := Some
       (case dv_strings dv2 ! unat (us_index s) of Some ss \<Rightarrow> put_string s ss | None \<Rightarrow> [s])]\<rparr>)"
    "\<forall>j. 0 < j \<longrightarrow> j < length (dv_strings dv2) \<longrightarrow>
       dv_strings dv2 ! j = (if j < length (dv_strings dv) then dv_strings dv ! j else None)"
    "length (dv_strings dv) \<le> length (dv_strings dv2)"
proof -
  obtain dv1 where dv1: "add_language dv (us_languageId s) = Inr dv1"
    "strings_wf dv1 (if us_languageId s \<in> set langs then langs else langs @ [us_languageId s])"
    "length (dv_strings dv1) = length (dv_strings dv)"
    "\<forall>i. 0 < i \<longrightarrow> i < length (dv_strings dv) \<longrightarrow> dv_strings dv1 ! i = dv_strings dv ! i"
    using add_language_wf [OF assms(1,2)] by blast
  let ?dv2 = "grow_strings dv1 (unat (us_index s))"
  have len: "length (dv_strings dv1) = dv_maxStringIdx dv1 + 1"
    using dv1(2) by (simp add: strings_wf_def)
  show thesis
  proof
    show "add_language dv (us_languageId s) = Inr dv1" by (rule dv1)
    show "strings_wf ?dv2 (if us_languageId s \<in> set langs then langs else langs @ [us_languageId s])"
      using dv1(2) by (rule grow_strings_wf)
    show i: "unat (us_index s) < length (dv_strings ?dv2)" "0 < unat (us_index s)"
      "length (dv_strings dv) \<le> length (dv_strings ?dv2)"
      using grow_strings_length [OF len, of "unat (us_index s)"] assms(3) len dv1(3)
      by (auto simp: unat_gt_0)
    then show "add_string dv s = Inr (?dv2\<lparr>dv_strings := (dv_strings ?dv2)[unat (us_index s) := Some
       (case dv_strings ?dv2 ! unat (us_index s) of Some ss \<Rightarrow> put_string s ss | None \<Rightarrow> [s])]\<rparr>)"
      using assms(3) dv1(1) by (simp add: add_string_def Let_def)
    show "\<forall>j. 0 < j \<longrightarrow> j < length (dv_strings ?dv2) \<longrightarrow>
       dv_strings ?dv2 ! j = (if j < length (dv_strings dv) then dv_strings dv ! j else None)"
      using grow_strings_nth [OF len] dv1(3,4) by auto
  qed (rule refl)
qed

lemma strings_wf_update:
  assumes "strings_wf dv langs" "0 < i" "\<forall>s\<in>set ss. unat (us_index s) = i"
  shows "strings_wf (dv\<lparr>dv_strings := (dv_strings dv)[i := Some ss]\<rparr>) langs"
proof -
  obtain j where j: "i = Suc j" using assms(2) by (cases i) auto
  have "\<forall>s\<in>set ss'. unat (us_index s) = k"
    if "k < length (dv_strings dv)" "(dv_strings dv)[i := Some ss] ! k = Some ss'" for k ss'
  proof (cases "k = i")
    case True
    with that assms(3) show ?thesis by simp
  next
    case False
    with that have "dv_strings dv ! k = Some ss'" by simp
    with that(1) assms(1) show ?thesis unfolding strings_wf_def by blast
  qed
  moreover obtain z zs rows where "dv_strings dv = Some (z # zs) # rows" "units_string z langs"
    "us_index z = 0" "us_languageId z = 0"
    using assms(1) by (rule strings_wfE)
  ultimately show ?thesis using assms(1) j by (simp add: strings_wf_def)
qed

text \<open>A string that is added can be looked up under its index and language afterwards, every
  other string is found as before, and its language is in the list of languages. (Index 0 is the
  list of languages itself; language 0 asks for the first language.)\<close>

theorem add_string_lookup:
  assumes "strings_wf dv langs" "length langs < 126" "us_index s \<noteq> 0" "us_languageId s \<noteq> 0"
  shows "\<exists>dv' langs'. add_string dv s = Inr dv' \<and> strings_wf dv' langs' \<and>
    set langs' = insert (us_languageId s) (set langs) \<and>
    get_string dv' (us_index s) (us_languageId s) = Inr (Some s) \<and>
    (\<forall>i l. i \<noteq> 0 \<longrightarrow> l \<noteq> 0 \<longrightarrow> (i, l) \<noteq> (us_index s, us_languageId s) \<longrightarrow>
      get_string dv' i l = get_string dv i l)"
proof -
  let ?i = "unat (us_index s)"
  let ?langs = "if us_languageId s \<in> set langs then langs else langs @ [us_languageId s]"
  obtain dv1 dv2 where "add_language dv (us_languageId s) = Inr dv1" "dv2 = grow_strings dv1 ?i"
    and dv2: "strings_wf dv2 ?langs" "?i < length (dv_strings dv2)" "0 < ?i"
    and add: "add_string dv s = Inr (dv2\<lparr>dv_strings := (dv_strings dv2)[?i := Some
       (case dv_strings dv2 ! ?i of Some ss \<Rightarrow> put_string s ss | None \<Rightarrow> [s])]\<rparr>)" (is "_ = Inr ?dv'")
    and nth: "\<forall>j. 0 < j \<longrightarrow> j < length (dv_strings dv2) \<longrightarrow>
       dv_strings dv2 ! j = (if j < length (dv_strings dv) then dv_strings dv ! j else None)"
    and le: "length (dv_strings dv) \<le> length (dv_strings dv2)"
    by (rule add_string_eq [OF assms(1-3)])
  let ?row = "case dv_strings dv2 ! ?i of Some ss \<Rightarrow> put_string s ss | None \<Rightarrow> [s]"
  have row: "\<forall>x\<in>set ?row. unat (us_index x) = ?i"
  proof (cases "dv_strings dv2 ! ?i")
    case (Some ss)
    with dv2(1,2) have "\<forall>x\<in>set ss. unat (us_index x) = ?i" unfolding strings_wf_def by blast
    with Some set_put_string [of s ss] show ?thesis by auto
  qed simp
  have wf: "strings_wf ?dv' ?langs" using dv2(1,3) row by (rule strings_wf_update)
  have len: "length (dv_strings dv) = dv_maxStringIdx dv + 1"
    "length (dv_strings ?dv') = dv_maxStringIdx ?dv' + 1"
    using strings_wf_length [OF assms(1)] strings_wf_length [OF wf] by blast+
  have own: "get_string ?dv' (us_index s) (us_languageId s) = Inr (Some s)"
    using get_string_wf [OF len(2) assms(4)] dv2(2)
    by (simp add: find_put_string split: option.splits)
  have other: "get_string ?dv' i l = get_string dv i l"
    if "i \<noteq> 0" "l \<noteq> 0" "(i, l) \<noteq> (us_index s, us_languageId s)" for i l
  proof (cases "i = us_index s")
    case True
    with that have "l \<noteq> us_languageId s" by simp
    then have "find_string l ?row = (case dv_strings dv2 ! ?i of None \<Rightarrow> None | Some ss \<Rightarrow> find_string l ss)"
      by (simp add: find_put_string_other split: option.split)
    moreover have "dv_strings dv2 ! ?i = (if ?i < length (dv_strings dv) then dv_strings dv ! ?i else None)"
      using nth dv2(2,3) by simp
    ultimately show ?thesis
      using True get_string_wf [OF len(1) that(2), of i] get_string_wf [OF len(2) that(2), of i] dv2(2)
      by simp
  next
    case False
    then have "?i \<noteq> unat i" using unsigned_word_eqI by metis
    moreover have "0 < unat i" using that(1) by (simp add: unat_gt_0)
    ultimately show ?thesis
      using get_string_wf [OF len(1) that(2), of i] get_string_wf [OF len(2) that(2), of i] nth le
      by simp
  qed
  show ?thesis
  proof (intro exI conjI allI impI)
    show "add_string dv s = Inr ?dv'" by (rule add)
    show "strings_wf ?dv' ?langs" by (rule wf)
    show "set ?langs = insert (us_languageId s) (set langs)" by auto
    show "get_string ?dv' (us_index s) (us_languageId s) = Inr (Some s)" by (rule own)
  qed (rule other)
qed

text \<open>Adding a second string with an index and a language that the table already has stores
  the new pointer twice in its row, so the destructor deletes that string twice.\<close>

theorem replaced_string_deleted_twice:
  assumes "strings_wf dv langs" "length langs < 126" "us_index s \<noteq> 0"
    and "unat (us_index s) < length (dv_strings dv)"
    and "dv_strings dv ! unat (us_index s) = Some ss" "us_languageId s \<in> us_languageId ` set ss"
  shows "\<exists>dv'. add_string dv s = Inr dv' \<and> \<not> distinct (deleted_strings dv')"
proof -
  let ?i = "unat (us_index s)"
  let ?langs = "if us_languageId s \<in> set langs then langs else langs @ [us_languageId s]"
  obtain dv1 dv2 where "add_language dv (us_languageId s) = Inr dv1" "dv2 = grow_strings dv1 ?i"
    and dv2: "strings_wf dv2 ?langs" "?i < length (dv_strings dv2)" "0 < ?i"
    and add: "add_string dv s = Inr (dv2\<lparr>dv_strings := (dv_strings dv2)[?i := Some
       (case dv_strings dv2 ! ?i of Some ss \<Rightarrow> put_string s ss | None \<Rightarrow> [s])]\<rparr>)" (is "_ = Inr ?dv'")
    and nth: "\<forall>j. 0 < j \<longrightarrow> j < length (dv_strings dv2) \<longrightarrow>
       dv_strings dv2 ! j = (if j < length (dv_strings dv) then dv_strings dv ! j else None)"
    and "length (dv_strings dv) \<le> length (dv_strings dv2)"
    by (rule add_string_eq [OF assms(1-3)])
  have row: "dv_strings dv2 ! ?i = Some ss" using nth dv2(2,3) assms(4,5) by auto
  have twice: "\<not> distinct (map us_id (put_string s ss))"
    using assms(6)
  proof (induction ss)
    case (Cons x ss)
    have "s \<in> set (put_string s ss)" by (induction ss) auto
    with Cons show ?case by force
  qed simp
  have len: "length (dv_strings dv2) = dv_maxStringIdx dv2 + 1"
    using dv2(1) by (simp add: strings_wf_def)
  let ?f = "\<lambda>row. case row of None \<Rightarrow> [] | Some ss \<Rightarrow> map us_id ss"
  have "map us_id (put_string s ss) \<in> set (map ?f (dv_strings ?dv'))"
    using dv2(2) row by (force simp: set_update_memI image_iff intro!: bexI [of _ "Some (put_string s ss)"])
  then have "\<not> distinct (concat (map ?f (dv_strings ?dv')))"
    using twice by (auto simp: distinct_concat_iff)
  then have "\<not> distinct (deleted_strings ?dv')" using len by (simp add: deleted_strings_def)
  with add show ?thesis by blast
qed

theorem add_string_lookup_witness:
  "let dv = device_of_descriptor (device_of_bytes (replicate 18 0));
       s = string_of_units 1 [0x41] 2 0x0407 in
   \<exists>dv' langs'. add_string dv s = Inr dv' \<and> strings_wf dv' langs' \<and>
    set langs' = insert (us_languageId s) (set [0x0409]) \<and>
    get_string dv' (us_index s) (us_languageId s) = Inr (Some s) \<and>
    (\<forall>i l. i \<noteq> 0 \<longrightarrow> l \<noteq> 0 \<longrightarrow> (i, l) \<noteq> (us_index s, us_languageId s) \<longrightarrow>
      get_string dv' i l = get_string dv i l)"
  unfolding Let_def
  by (rule add_string_lookup [OF device_of_descriptor_wf]) (simp_all add: string_of_units_def)

text \<open>A table with one string besides the languages.\<close>

definition sample_device :: device where
  "sample_device =
     (device_of_descriptor (device_of_bytes (replicate 18 0)))
       \<lparr>dv_strings := [Some [string_of_units 0 [0x0409] 0 0],
          Some [string_of_units 1 [0x41] 1 0x0409]],
        dv_maxStringIdx := 1, dv_next_id := 2\<rparr>"

lemma sample_device_wf: "strings_wf sample_device [0x0409]"
  using units_string_of_units [of "[0x0409]" 0 0 0]
  by (auto simp: strings_wf_def sample_device_def string_of_units_def less_Suc_eq)

theorem replaced_string_deleted_twice_witness:
  "\<exists>dv'. add_string sample_device (string_of_units 2 [0x42] 1 0x0409) = Inr dv' \<and>
     \<not> distinct (deleted_strings dv')"
  by (rule replaced_string_deleted_twice [OF sample_device_wf, where ss = "[string_of_units 1 [0x41] 1 0x0409]"])
    (simp_all add: sample_device_def string_of_units_def)

section \<open>The devices read through a proxy\<close>

text \<open>The interface strings of a configuration, in the order of the two inner loops of the
  constructors; a missing alternate setting is skipped.\<close>

definition group_string_indices :: "igroup option \<Rightarrow> u8 list res" where
  "group_string_indices g = (case g of
     None \<Rightarrow> Inr []
   | Some g \<Rightarrow> and_then (the_interfaces g) (\<lambda>ics.
       Inr (filter (\<lambda>i. i \<noteq> 0) (map (\<lambda>ic. if_iInterface (if_descriptor ic)) (somes ics)))))"

definition config_string_indices :: "config \<Rightarrow> u8 list res" where
  "config_string_indices c =
     and_then (the_groups c) (\<lambda>gs. and_then (concat_of group_string_indices gs) (\<lambda>is.
       Inr ((if cf_iConfiguration (cf_descriptor c) \<noteq> 0
             then [cf_iConfiguration (cf_descriptor c)] else []) @ is)))"

definition add_strings :: "'d creq \<Rightarrow> u8 list \<Rightarrow> device \<times> 'd \<Rightarrow> (device \<times> 'd) res" where
  "add_strings creq is st = fold_res (add_string_all creq) is st"

text \<open>One round of the configuration loop: the configuration is read, then its strings.\<close>

definition read_config ::
  "nat \<Rightarrow> 'd creq \<Rightarrow> bool \<Rightarrow> nat \<Rightarrow> device \<times> 'd \<Rightarrow> (config \<times> device \<times> 'd) res" where
  "read_config fuel creq otherSpeed i = (\<lambda>(dv, d).
     and_then (config_from_proxy fuel creq (int i) otherSpeed d) (\<lambda>(c, d1).
       and_then (config_string_indices c) (\<lambda>is.
         and_then (add_strings creq is (dv, d1)) (\<lambda>st. Inr (c, st)))))"

fun read_configs ::
  "nat \<Rightarrow> 'd creq \<Rightarrow> bool \<Rightarrow> nat list \<Rightarrow> device \<times> 'd \<Rightarrow> (config list \<times> device \<times> 'd) res" where
  "read_configs fuel creq otherSpeed [] st = Inr ([], st)"
| "read_configs fuel creq otherSpeed (i # is) st =
     and_then (read_config fuel creq otherSpeed i st) (\<lambda>(c, st1).
       and_then (read_configs fuel creq otherSpeed is st1) (\<lambda>(cs, st2). Inr (c # cs, st2)))"

definition qualifier_of_bytes :: "bytes \<Rightarrow> qualifier_descriptor" where
  "qualifier_of_bytes b =
     \<lparr>dq_bLength = b ! 0, dq_bDescriptorType = b ! 1, dq_bcdUSB = le16 (b ! 2) (b ! 3),
      dq_bDeviceClass = b ! 4, dq_bDeviceSubClass = b ! 5, dq_bDeviceProtocol = b ! 6,
      dq_bMaxPacketSize0 = b ! 7, dq_bNumConfigurations = b ! 8, dq_bRESERVED = b ! 9\<rparr>"

text \<open>\<open>DeviceQualifier(Device*, DeviceProxy*)\<close>: any non-zero return code leaves the qualifier
  without a descriptor (\<open>bLength\<close> 0), which the device then deletes.\<close>

definition read_qualifier ::
  "nat \<Rightarrow> 'd creq \<Rightarrow> device \<times> 'd \<Rightarrow> (qualifier option \<times> device \<times> 'd) res" where
  "read_qualifier fuel creq = (\<lambda>(dv, d).
     case creq \<lparr>cr_bRequestType = USB_DIR_IN, cr_bRequest = USB_REQ_GET_DESCRIPTOR,
         cr_wValue = push_bit 8 (ucast USB_DT_DEVICE_QUALIFIER), cr_wIndex = 0, cr_wLength = 10\<rparr> d
     of ((rc, bs), d1) \<Rightarrow>
       if length bs > 10 then Inl OutOfBounds
       else if rc \<noteq> 0 then Inr (None, dv, d1)
       else if length bs < 10 then Inl Uninit
       else let q = qualifier_of_bytes bs in
         and_then (read_configs fuel creq True [0..<unat (dq_bNumConfigurations q)] (dv, d1))
           (\<lambda>(cs, st). Inr (if dq_bLength q = 0 then None
              else Some \<lparr>q_descriptor = q, q_configurations = map Some cs\<rparr>, st)))"

definition device_request :: "u8 \<Rightarrow> u16 \<Rightarrow> u16 \<Rightarrow> usb_ctrlrequest" where
  "device_request req v len =
     \<lparr>cr_bRequestType = USB_DIR_IN, cr_bRequest = req, cr_wValue = v, cr_wIndex = 0,
      cr_wLength = len\<rparr>"

text \<open>\<open>Device(DeviceProxy*)\<close>; \<open>address\<close> and \<open>highspeed\<close> are the proxy's \<open>get_address()\<close> and
  \<open>is_highspeed()\<close>.\<close>

definition device_from_proxy ::
  "nat \<Rightarrow> 'd creq \<Rightarrow> ('d \<Rightarrow> u8) \<Rightarrow> ('d \<Rightarrow> bool) \<Rightarrow> 'd \<Rightarrow> (device \<times> 'd) res" where
  "device_from_proxy fuel creq address highspeed d0 =
     and_then (transfer creq (device_request USB_REQ_GET_DESCRIPTOR
                 (push_bit 8 (ucast USB_DT_DEVICE)) 18) 18 d0) (\<lambda>(b, d1).
       if length b < 18 then Inl Uninit
       else let desc = device_of_bytes b;
                maxIdx = Max {unat (dd_iManufacturer desc), unat (dd_iProduct desc),
                              unat (dd_iSerialNumber desc)};
                dv0 = (device_of_descriptor desc)
                  \<lparr>dv_strings := replicate (maxIdx + 1) None, dv_maxStringIdx := maxIdx,
                   dv_next_id := 0\<rparr> in
         and_then (add_string_lang creq 0 0 (dv0, d1)) (\<lambda>st1.
           and_then (add_strings creq (filter (\<lambda>i. i \<noteq> 0)
                       [dd_iManufacturer desc, dd_iProduct desc, dd_iSerialNumber desc]) st1) (\<lambda>st2.
             and_then (read_configs fuel creq False [0..<unat (dd_bNumConfigurations desc)] st2)
               (\<lambda>(cs, st3).
                 and_then (read_qualifier fuel creq st3) (\<lambda>(q, dv4, d4).
                   let dv5 = dv4\<lparr>dv_configurations := map Some cs, dv_qualifier := q,
                     dv_deviceAddress := address d4, dv_highspeed := highspeed d4\<rparr> in
                   if address d4 \<noteq> 0 then
                     and_then (transfer creq (device_request USB_REQ_GET_CONFIGURATION 0 1) 1 d4)
                       (\<lambda>(r, d5). case r of
                          [] \<Rightarrow> Inl Uninit
                        | result # _ \<Rightarrow>
                            Inr (dv5\<lparr>dv_deviceConfigurationIndex := uint result\<rparr>, d5))
                   else Inr (dv5\<lparr>dv_deviceConfigurationIndex := 0\<rparr>, d4))))))"

section \<open>The definition check\<close>

definition has_language :: "usb_string list \<Rightarrow> u16 \<Rightarrow> bool" where
  "has_language ss l = list_ex (\<lambda>s. us_languageId s = l) ss"

definition is_string_defined :: "device \<Rightarrow> u8 \<Rightarrow> definition_error res" where
  "is_string_defined dv i =
     (if i = 0 then Inr no_error
      else and_then (index (dv_strings dv) (unat i)) (\<lambda>row. case row of
          None \<Rightarrow> Inr (def_error DE_ERR_NULL_OBJECT 0 DE_OBJ_STRING i 0 0 0)
        | Some ss \<Rightarrow> and_then (get_language_count dv) (\<lambda>lc.
            first_error (\<lambda>k. and_then (get_language_by_index dv (of_nat k)) (\<lambda>l.
                Inr (if has_language ss l then no_error
                     else def_error DE_ERR_MISSING_LANGUAGE l DE_OBJ_STRING i 0 0 0)))
              [0..<unat lc])))"

definition packet_size_ok :: "u8 \<Rightarrow> bool" where
  "packet_size_ok n = (n \<in> {8, 16, 32, 64})"

text \<open>The configurations in turn: present, at the index of their value, and defined.\<close>

definition check_config ::
  "bool \<Rightarrow> de_obj_type \<Rightarrow> nat \<times> config option \<Rightarrow> definition_error res" where
  "check_config highSpeed obj = (\<lambda>(i, c). case c of
     None \<Rightarrow> Inr (def_error DE_ERR_NULL_OBJECT 0 obj (of_nat (i + 1)) 0 0 0)
   | Some c \<Rightarrow>
       if unat (cf_bConfigurationValue (cf_descriptor c)) \<noteq> i + 1 then
         Inr (def_error DE_ERR_MISPLACED_OBJECT (ucast (cf_bConfigurationValue (cf_descriptor c)))
           obj (of_nat (i + 1)) 0 0 0)
       else config_is_defined highSpeed c)"

definition qualifier_is_defined :: "qualifier \<Rightarrow> definition_error res" where
  "qualifier_is_defined q =
     (let d = q_descriptor q;
          err = (\<lambda>detail. Inr (def_error DE_ERR_INVALID_DESCRIPTOR detail DE_OBJ_QUALIFIER 0 0 0 0)) in
      if dq_bLength d \<noteq> 10 then err 0x01
      else if dq_bDescriptorType d \<noteq> USB_DT_DEVICE_QUALIFIER then err 0x02
      else if \<not> packet_size_ok (dq_bMaxPacketSize0 d) then err 0x08
      else if dq_bNumConfigurations d = 0 then err 0x09
      else and_then (first_n (q_configurations q) (unat (dq_bNumConfigurations d))) (\<lambda>cs.
        first_error (check_config True DE_OBJ_OS_CONFIG) (enumerate 0 cs)))"

text \<open>Two checks in sequence: the second runs when the first found no error.\<close>

definition then_check :: "definition_error res \<Rightarrow> definition_error res \<Rightarrow> definition_error res" where
  "then_check a b = and_then a (\<lambda>rc. if de_err rc \<noteq> DE_ERR_NONE then Inr rc else b)"

text \<open>The strings a configuration names; here every alternate setting is dereferenced.\<close>

definition checked_group_indices :: "igroup option \<Rightarrow> u8 list res" where
  "checked_group_indices g = (case g of
     None \<Rightarrow> Inr []
   | Some g \<Rightarrow> and_then (the_interfaces g)
       (map_res (\<lambda>i. and_then (deref i) (\<lambda>ic. Inr (if_iInterface (if_descriptor ic))))))"

definition check_config_strings :: "device \<Rightarrow> config option \<Rightarrow> definition_error res" where
  "check_config_strings dv c =
     and_then (deref c) (\<lambda>c.
       then_check (is_string_defined dv (cf_iConfiguration (cf_descriptor c)))
         (and_then (the_groups c) (\<lambda>gs. and_then (concat_of checked_group_indices gs)
           (first_error (is_string_defined dv)))))"

text \<open>The qualifier's part asks \<open>get_configuration(i)\<close> for \<open>i\<close> from 0, whose indices start
  at 1.\<close>

definition check_qualifier :: "device \<Rightarrow> definition_error res" where
  "check_qualifier dv = (case dv_qualifier dv of
     None \<Rightarrow> Inr no_error
   | Some q \<Rightarrow> then_check (qualifier_is_defined q)
       (first_error
         (\<lambda>i. and_then (qualifier_get_configuration q (of_nat i)) (\<lambda>c. and_then (deref c) (\<lambda>c.
            is_string_defined dv (cf_iConfiguration (cf_descriptor c)))))
         [0..<unat (dq_bNumConfigurations (q_descriptor q))]))"

definition device_is_defined :: "device \<Rightarrow> definition_error res" where
  "device_is_defined dv =
     (let d = dv_descriptor dv;
          err = (\<lambda>detail. Inr (def_error DE_ERR_INVALID_DESCRIPTOR detail DE_OBJ_DEVICE 0 0 0 0)) in
      if dd_bLength d \<noteq> 18 then err 0x01
      else if dd_bDescriptorType d \<noteq> USB_DT_DEVICE then err 0x02
      else if \<not> packet_size_ok (dd_bMaxPacketSize0 d) then err 0x08
      else if dd_bNumConfigurations d = 0 then err 0x12
      else and_then (first_n (dv_configurations dv) (unat (dd_bNumConfigurations d))) (\<lambda>cs.
        then_check (first_error (check_config False DE_OBJ_CONFIG) (enumerate 0 cs))
        (and_then (index (dv_strings dv) 0) (\<lambda>row.
          if row = None \<or> row = Some [] then
            Inr (def_error DE_ERR_NULL_OBJECT 0 DE_OBJ_STRING 0 0 0 0)
          else and_then (get_language_count dv) (\<lambda>lc.
            if lc = 0 then Inr (def_error DE_ERR_MISSING_LANGUAGE 0 DE_OBJ_STRING 0 0 0 0)
            else then_check (first_error (is_string_defined dv)
                [dd_iManufacturer d, dd_iProduct d, dd_iSerialNumber d])
              (then_check (first_error (check_config_strings dv) cs) (check_qualifier dv)))))))"

text \<open>A check succeeds when it returns and reports no error.\<close>

definition passes :: "definition_error res \<Rightarrow> bool" where
  "passes r \<longleftrightarrow> (case r of Inl _ \<Rightarrow> False | Inr rc \<Rightarrow> de_err rc = DE_ERR_NONE)"

lemma passes_simps [simp]:
  "\<not> passes (Inl e)" "passes (Inr rc) \<longleftrightarrow> de_err rc = DE_ERR_NONE"
  by (simp_all add: passes_def)

lemma passes_iff: "passes r \<longleftrightarrow> (\<exists>rc. r = Inr rc \<and> de_err rc = DE_ERR_NONE)"
  by (cases r) simp_all

lemma passes_then_check [simp]: "passes (then_check a b) \<longleftrightarrow> passes a \<and> passes b"
  by (cases a) (auto simp: then_check_def)

lemma passes_first_error [simp]: "passes (first_error f xs) \<longleftrightarrow> (\<forall>x\<in>set xs. passes (f x))"
  unfolding passes_iff by (rule first_error_none_iff)

lemma passes_and_then: "passes (and_then r f) \<longleftrightarrow> (\<exists>x. r = Inr x \<and> passes (f x))"
  by (cases r) simp_all

lemma passes_if: "passes (if b then r1 else r2) \<longleftrightarrow> (if b then passes r1 else passes r2)"
  by simp

text \<open>No high-speed device passes its definition check: with a qualifier the check either
  reports an error or follows the null pointer that \<open>get_configuration(0)\<close> returns.\<close>

theorem high_speed_never_defined:
  assumes "dv_qualifier dv = Some q"
  shows "\<not> passes (device_is_defined dv)"
proof
  assume "passes (device_is_defined dv)"
  then have "passes (check_qualifier dv)"
    by (simp add: device_is_defined_def Let_def passes_and_then passes_if split: if_split_asm)
  then have q: "passes (qualifier_is_defined q)"
    and all: "\<forall>i<unat (dq_bNumConfigurations (q_descriptor q)).
      passes (and_then (qualifier_get_configuration q (of_nat i)) (\<lambda>c. and_then (deref c) (\<lambda>c.
            is_string_defined dv (cf_iConfiguration (cf_descriptor c)))))"
    using assms by (auto simp: check_qualifier_def)
  from q have "0 < unat (dq_bNumConfigurations (q_descriptor q))"
    by (simp add: qualifier_is_defined_def Let_def passes_if unat_gt_0 split: if_split_asm)
  from all [rule_format, OF this] have "passes (and_then (qualifier_get_configuration q 0) (\<lambda>c. and_then (deref c) (\<lambda>c.
            is_string_defined dv (cf_iConfiguration (cf_descriptor c)))))"
    by simp
  then show False by (simp add: qualifier_get_configuration_def)
qed

theorem high_speed_never_defined_witness:
  "\<not> passes (device_is_defined (sample_device\<lparr>dv_qualifier := Some
     \<lparr>q_descriptor = qualifier_of_bytes [10, 6, 0, 2, 0, 0, 0, 64, 1, 0],
      q_configurations = [Some sample_config]\<rparr>\<rparr>))"
  by (rule high_speed_never_defined) simp

text \<open>A string index is covered: it is 0, or the table has the string in every language.\<close>

definition string_ok :: "device \<Rightarrow> u16 list \<Rightarrow> u8 \<Rightarrow> bool" where
  "string_ok dv langs i \<longleftrightarrow> i = 0 \<or>
     (unat i < length (dv_strings dv) \<and>
      (\<exists>ss. dv_strings dv ! unat i = Some ss \<and> set langs \<subseteq> us_languageId ` set ss))"

definition config_strings :: "config \<Rightarrow> u8 list" where
  "config_strings c = cf_iConfiguration (cf_descriptor c) #
     map (\<lambda>ic. if_iInterface (if_descriptor ic)) (concat (map group_ifaces (somes (cf_groups c))))"

definition device_defined :: "device \<Rightarrow> u16 list \<Rightarrow> bool" where
  "device_defined dv langs \<longleftrightarrow>
     dd_bLength (dv_descriptor dv) = 18 \<and>
     dd_bDescriptorType (dv_descriptor dv) = USB_DT_DEVICE \<and>
     dd_bMaxPacketSize0 (dv_descriptor dv) \<in> {8, 16, 32, 64} \<and>
     dv_configurations dv \<noteq> [] \<and> langs \<noteq> [] \<and>
     (\<forall>i<length (dv_configurations dv). \<exists>c. dv_configurations dv ! i = Some c \<and>
        unat (cf_bConfigurationValue (cf_descriptor c)) = i + 1 \<and> config_defined False c \<and>
        (\<forall>s\<in>set (config_strings c). string_ok dv langs s)) \<and>
     (\<forall>s\<in>{dd_iManufacturer (dv_descriptor dv), dd_iProduct (dv_descriptor dv),
          dd_iSerialNumber (dv_descriptor dv)}. string_ok dv langs s)"

lemma get_language_by_index_wf:
  assumes "strings_wf dv langs" "k < length langs"
  shows "get_language_by_index dv (of_nat k) = Inr (langs ! k)"
proof -
  obtain z where z: "units_string z langs" "zero_string dv = Inr z"
    using assms(1) by (rule strings_wfE)
  then have "length langs < 127" by (simp add: units_string_def)
  then have "\<not> (of_nat (length langs) :: u8) \<le> of_nat k" "unat (of_nat k :: u8) = k"
    using assms(2) by (simp_all add: unat_le_u8 unat_of_nat_u8)
  then show ?thesis
    using z assms(2) get_language_count_wf [OF assms(1)]
    by (simp add: get_language_by_index_def units_string_w_data)
qed

lemma is_string_defined_iff:
  assumes "strings_wf dv langs"
  shows "passes (is_string_defined dv i) \<longleftrightarrow> string_ok dv langs i"
proof -
  have n: "unat (of_nat (length langs) :: u8) = length langs"
    using assms unat_of_nat_length_langs by (rule strings_wfE)
  have row: "passes (first_error (\<lambda>k. and_then (get_language_by_index dv (of_nat k)) (\<lambda>l.
                Inr (if has_language ss l then no_error
                     else def_error DE_ERR_MISSING_LANGUAGE l DE_OBJ_STRING i 0 0 0)))
              [0..<length langs]) \<longleftrightarrow> set langs \<subseteq> us_languageId ` set ss" (is "?L \<longleftrightarrow> ?R") for ss
  proof -
    have "?L \<longleftrightarrow> (\<forall>k<length langs. has_language ss (langs ! k))"
      using get_language_by_index_wf [OF assms] by (simp add: passes_and_then if_distrib [of de_err] cong: if_cong) auto
    also have "\<dots> \<longleftrightarrow> (\<forall>l\<in>set langs. has_language ss l)" by (metis in_set_conv_nth)
    also have "\<dots> \<longleftrightarrow> ?R" by (auto simp: has_language_def list_ex_iff)
    finally show ?thesis .
  qed
  show ?thesis
    using row get_language_count_wf [OF assms] n
    by (auto simp: is_string_defined_def string_ok_def index_def split: option.splits)
qed

lemma checked_group_indices_defined:
  assumes "igroup_wf g" "igroup_defined g"
  shows "checked_group_indices (Some g) = Inr (map (\<lambda>ic. if_iInterface (if_descriptor ic)) (group_ifaces g))"
proof -
  have "\<forall>x\<in>set (ig_interfaces g). \<exists>ic. x = Some ic \<and> True"
    using assms(2) by (fastforce simp: igroup_defined_def in_set_conv_nth)
  from somes_all [OF this] have "ig_interfaces g = map Some (group_ifaces g)"
    by (simp add: group_ifaces_def)
  then show ?thesis
    using assms(1) by (simp add: checked_group_indices_def map_res_eq_Inr list_all2_conv_all_nth)
qed

lemma check_config_strings_iff:
  assumes "strings_wf dv langs" "config_wf c" "config_defined False c"
  shows "passes (check_config_strings dv (Some c)) \<longleftrightarrow> (\<forall>s\<in>set (config_strings c). string_ok dv langs s)"
proof -
  have "\<forall>x\<in>set (cf_groups c). \<exists>g. x = Some g \<and> igroup_wf g \<and> igroup_defined g"
    using assms(2,3) unfolding config_wf_def config_defined_def by (metis in_set_conv_nth)
  from somes_all [OF this] obtain gs where gs: "cf_groups c = map Some gs" "gs = somes (cf_groups c)"
    "\<forall>g\<in>set gs. igroup_wf g \<and> igroup_defined g" by blast
  have "concat_of checked_group_indices (map Some gs) =
      Inr (map (\<lambda>ic. if_iInterface (if_descriptor ic)) (concat (map group_ifaces gs)))"
    using gs(3) by (induction gs) (simp_all add: checked_group_indices_defined)
  then show ?thesis
    using assms(1,2) gs(1) is_string_defined_iff [OF assms(1)]
    by (simp add: check_config_strings_def config_strings_def flip: gs(2))
qed

text \<open>C10: for a device without a qualifier, the definition check succeeds exactly when the
  device is complete: a valid descriptor, every configuration present, numbered and itself
  defined, and every string index it uses in the table in every language of the device.\<close>

theorem device_check_exact:
  assumes "strings_wf dv langs" "dv_qualifier dv = None"
    and "length (dv_configurations dv) = unat (dd_bNumConfigurations (dv_descriptor dv))"
    and "\<forall>c. Some c \<in> set (dv_configurations dv) \<longrightarrow> config_wf c"
  shows "passes (device_is_defined dv) \<longleftrightarrow> device_defined dv langs"
proof -
  let ?d = "dv_descriptor dv" and ?cs = "dv_configurations dv"
  obtain z zs rows where z: "dv_strings dv = Some (z # zs) # rows" "units_string z langs"
    using assms(1) by (rule strings_wfE)
  have n: "(of_nat (length langs) :: u8) = 0 \<longleftrightarrow> langs = []"
    using unat_of_nat_length_langs [OF z(2)] by (metis length_0_conv of_nat_0 unat_eq_0)
  have cs: "dd_bNumConfigurations ?d = 0 \<longleftrightarrow> ?cs = []"
    using assms(3) by (metis length_0_conv unat_eq_0)
  have check: "passes (check_config False DE_OBJ_CONFIG (i, ?cs ! i)) \<longleftrightarrow>
      (\<exists>c. ?cs ! i = Some c \<and> unat (cf_bConfigurationValue (cf_descriptor c)) = i + 1 \<and>
        config_defined False c)" if "i < length ?cs" for i
  proof (cases "?cs ! i")
    case (Some c)
    with assms(4) nth_mem [OF that] have "config_wf c" by simp
    from config_is_defined_iff [OF this, of False] Some show ?thesis
      by (auto simp: check_config_def passes_iff)
  qed (simp add: check_config_def)
  have strings: "passes (check_config_strings dv (?cs ! i)) \<longleftrightarrow>
      (\<forall>s\<in>set (config_strings c). string_ok dv langs s)"
    if "i < length ?cs" "?cs ! i = Some c" "config_defined False c" for i c
    using check_config_strings_iff [OF assms(1) _ that(3)] assms(4) that(1,2) by (metis nth_mem)
  have "passes (device_is_defined dv) \<longleftrightarrow>
      dd_bLength ?d = 18 \<and> dd_bDescriptorType ?d = USB_DT_DEVICE \<and>
      packet_size_ok (dd_bMaxPacketSize0 ?d) \<and> ?cs \<noteq> [] \<and> langs \<noteq> [] \<and>
      (\<forall>i<length ?cs. passes (check_config False DE_OBJ_CONFIG (i, ?cs ! i))) \<and>
      (\<forall>i<length ?cs. passes (check_config_strings dv (?cs ! i))) \<and>
      (\<forall>s\<in>{dd_iManufacturer ?d, dd_iProduct ?d, dd_iSerialNumber ?d}. string_ok dv langs s)"
    using assms(2,3) z(1) get_language_count_wf [OF assms(1)] is_string_defined_iff [OF assms(1)]
      all_set_conv_all_nth [of ?cs "\<lambda>c. passes (check_config_strings dv c)"]
    by (simp add: device_is_defined_def Let_def passes_if passes_and_then ball_enumerate n cs
        check_qualifier_def del: first_error.simps) blast
  also have "\<dots> \<longleftrightarrow> device_defined dv langs"
    using check strings unfolding device_defined_def packet_size_ok_def by blast
  finally show ?thesis .
qed

definition complete_device :: device where
  "complete_device = sample_device
     \<lparr>dv_descriptor := device_of_bytes [18, 1, 0, 2, 0, 0, 0, 64, 1, 2, 3, 4, 0, 1, 1, 0, 0, 1],
      dv_configurations := [Some sample_config]\<rparr>"

lemma sample_config_wf: "config_wf sample_config"
  using sample_iface_plain
  by (simp add: config_wf_def sample_config_def igroup_wf_def iface_plain_def)

theorem device_check_exact_witness:
  "passes (device_is_defined complete_device) \<longleftrightarrow> device_defined complete_device [0x0409]"
proof (rule device_check_exact)
  show "strings_wf complete_device [0x0409]"
    using sample_device_wf by (simp add: complete_device_def strings_wf_def)
qed (simp_all add: complete_device_def sample_device_def device_of_descriptor_def
      device_of_bytes_def sample_config_wf)

end
