(* ===== verification/Hex_String_Model.thy ===== *)
theory Hex_String_Model
  imports Prelude
begin

text \<open>
  Hex dumps (\<open>src/lib/HexString.cpp\<close>), which every \<open>print\<close> and log of the program uses. The buffer
  on the heap is a list whose entries are \<open>None\<close> while nothing has written them; the 16-bit stores
  of the little-endian table put two characters each.
\<close>

section \<open>The table\<close>

definition hexAscii :: "u16 list" where
  "hexAscii =
     [0x3030, 0x3130, 0x3230, 0x3330, 0x3430, 0x3530, 0x3630, 0x3730, 0x3830, 0x3930, 0x6130, 0x6230,
      0x6330, 0x6430, 0x6530, 0x6630, 0x3031, 0x3131, 0x3231, 0x3331, 0x3431, 0x3531, 0x3631, 0x3731,
      0x3831, 0x3931, 0x6131, 0x6231, 0x6331, 0x6431, 0x6531, 0x6631, 0x3032, 0x3132, 0x3232, 0x3332,
      0x3432, 0x3532, 0x3632, 0x3732, 0x3832, 0x3932, 0x6132, 0x6232, 0x6332, 0x6432, 0x6532, 0x6632,
      0x3033, 0x3133, 0x3233, 0x3333, 0x3433, 0x3533, 0x3633, 0x3733, 0x3833, 0x3933, 0x6133, 0x6233,
      0x6333, 0x6433, 0x6533, 0x6633, 0x3034, 0x3134, 0x3234, 0x3334, 0x3434, 0x3534, 0x3634, 0x3734,
      0x3834, 0x3934, 0x6134, 0x6234, 0x6334, 0x6434, 0x6534, 0x6634, 0x3035, 0x3135, 0x3235, 0x3335,
      0x3435, 0x3535, 0x3635, 0x3735, 0x3835, 0x3935, 0x6135, 0x6235, 0x6335, 0x6435, 0x6535, 0x6635,
      0x3036, 0x3136, 0x3236, 0x3336, 0x3436, 0x3536, 0x3636, 0x3736, 0x3836, 0x3936, 0x6136, 0x6236,
      0x6336, 0x6436, 0x6536, 0x6636, 0x3037, 0x3137, 0x3237, 0x3337, 0x3437, 0x3537, 0x3637, 0x3737,
      0x3837, 0x3937, 0x6137, 0x6237, 0x6337, 0x6437, 0x6537, 0x6637, 0x3038, 0x3138, 0x3238, 0x3338,
      0x3438, 0x3538, 0x3638, 0x3738, 0x3838, 0x3938, 0x6138, 0x6238, 0x6338, 0x6438, 0x6538, 0x6638,
      0x3039, 0x3139, 0x3239, 0x3339, 0x3439, 0x3539, 0x3639, 0x3739, 0x3839, 0x3939, 0x6139, 0x6239,
      0x6339, 0x6439, 0x6539, 0x6639, 0x3061, 0x3161, 0x3261, 0x3361, 0x3461, 0x3561, 0x3661, 0x3761,
      0x3861, 0x3961, 0x6161, 0x6261, 0x6361, 0x6461, 0x6561, 0x6661, 0x3062, 0x3162, 0x3262, 0x3362,
      0x3462, 0x3562, 0x3662, 0x3762, 0x3862, 0x3962, 0x6162, 0x6262, 0x6362, 0x6462, 0x6562, 0x6662,
      0x3063, 0x3163, 0x3263, 0x3363, 0x3463, 0x3563, 0x3663, 0x3763, 0x3863, 0x3963, 0x6163, 0x6263,
      0x6363, 0x6463, 0x6563, 0x6663, 0x3064, 0x3164, 0x3264, 0x3364, 0x3464, 0x3564, 0x3664, 0x3764,
      0x3864, 0x3964, 0x6164, 0x6264, 0x6364, 0x6464, 0x6564, 0x6664, 0x3065, 0x3165, 0x3265, 0x3365,
      0x3465, 0x3565, 0x3665, 0x3765, 0x3865, 0x3965, 0x6165, 0x6265, 0x6365, 0x6465, 0x6565, 0x6665,
      0x3066, 0x3166, 0x3266, 0x3366, 0x3466, 0x3566, 0x3666, 0x3766, 0x3866, 0x3966, 0x6166, 0x6266,
      0x6366, 0x6466, 0x6566, 0x6666]"

text \<open>The digits of a byte.\<close>

definition hex_digit :: "nat \<Rightarrow> u8" where
  "hex_digit n = of_nat (if n < 10 then 0x30 + n else 0x57 + n)"

definition hex2 :: "u8 \<Rightarrow> bytes" where
  "hex2 b = [hex_digit (unat b div 16), hex_digit (unat b mod 16)]"

section \<open>Code\<close>

type_synonym buffer = "u8 option list"

definition put16 :: "buffer \<Rightarrow> nat \<Rightarrow> u16 \<Rightarrow> buffer res" where
  "put16 buf i w = and_then (store buf i (Some (lo8 w))) (\<lambda>b. store b (i + 1) (Some (hi8 w)))"

definition put_hex :: "buffer \<Rightarrow> nat \<Rightarrow> u8 \<Rightarrow> buffer res" where
  "put_hex buf i x = and_then (index hexAscii (unat x)) (put16 buf i)"

text \<open>The loop of \<open>hex_string_wide\<close>, from byte \<open>i\<close> and line \<open>curLine\<close> on.\<close>

fun wide_loop :: "nat \<Rightarrow> nat \<Rightarrow> nat \<Rightarrow> bytes \<Rightarrow> buffer \<Rightarrow> buffer res" where
  "wide_loop width i curLine [] result = Inr result"
| "wide_loop width i curLine (x # inbuf) result =
     (if i mod width \<noteq> 0 then
        and_then (store result (i * 3 + curLine) (Some 0x20)) (\<lambda>result.
          and_then (put_hex result (i * 3 + curLine + 1) x) (\<lambda>result.
            wide_loop width (i + 1) curLine inbuf result))
      else
        and_then (store result (i * 3 + curLine) (Some 0x0a)) (\<lambda>result.
          and_then (store result (i * 3 + curLine + 1) (Some 0x09)) (\<lambda>result.
            and_then (put_hex result (i * 3 + (curLine + 1) + 1) x) (\<lambda>result.
              wide_loop width (i + 1) (curLine + 1) inbuf result))))"

definition hex_string_wide :: "bytes \<Rightarrow> nat \<Rightarrow> buffer res" where
  "hex_string_wide inbuf width =
     (case inbuf of
        [] \<Rightarrow> Inr [Some 0]
      | x # rest \<Rightarrow>
          let n = length inbuf; lines = n div width + 1 in
          and_then (store (replicate (n * 3 + lines + 1) None) (n * 3 + lines) (Some 0)) (\<lambda>result.
            and_then (store result 0 (Some 0x0a)) (\<lambda>result.
              and_then (store result 1 (Some 0x09)) (\<lambda>result.
                and_then (put_hex result 2 x) (\<lambda>result.
                  wide_loop width 1 1 rest result)))))"

fun narrow_loop :: "nat \<Rightarrow> bytes \<Rightarrow> buffer \<Rightarrow> buffer res" where
  "narrow_loop i [] result = Inr result"
| "narrow_loop i (x # inbuf) result =
     and_then (store result (i * 3 - 1) (Some 0x20)) (\<lambda>result.
       and_then (put_hex result (i * 3) x) (\<lambda>result. narrow_loop (i + 1) inbuf result))"

definition hex_string :: "bytes \<Rightarrow> buffer res" where
  "hex_string inbuf =
     (case inbuf of
        [] \<Rightarrow> Inr [Some 0]
      | x # rest \<Rightarrow>
          let n = length inbuf in
          if n > 32 then hex_string_wide inbuf 32
          else
            and_then (store (replicate (n * 3) None) (n * 3 - 1) (Some 0)) (\<lambda>result.
              and_then (put_hex result 0 x) (\<lambda>result. narrow_loop 1 rest result)))"

section \<open>Specification\<close>

text \<open>The dump of a short buffer: the bytes in hex, separated by spaces. A long one has
  \<open>width\<close> bytes a line, each line introduced by a newline and a tab.\<close>

definition narrow_dump :: "bytes \<Rightarrow> bytes" where
  "narrow_dump bs =
     concat (map (\<lambda>(i, b). (if i = 0 then [] else [0x20]) @ hex2 b) (enumerate 0 bs))"

definition wide_dump :: "nat \<Rightarrow> nat \<Rightarrow> bytes \<Rightarrow> bytes" where
  "wide_dump width i bs =
     concat (map (\<lambda>(i, b). (if i mod width = 0 then [0x0a, 0x09] else [0x20]) @ hex2 b)
       (enumerate i bs))"

section \<open>Lemmas\<close>

lemma hexAscii_digits:
  "hexAscii = map (\<lambda>n. le16 (hex_digit (n div 16)) (hex_digit (n mod 16))) [0..<256]"
  by code_simp

lemma put_hex_eq:
  "put_hex buf i x = and_then (store buf i (Some (hex2 x ! 0)))
     (\<lambda>b. store b (i + 1) (Some (hex2 x ! 1)))"
proof -
  have "index hexAscii (unat x) = Inr (le16 (hex2 x ! 0) (hex2 x ! 1))"
    unfolding hexAscii_digits by (simp add: hex2_def)
  then show ?thesis by (simp add: put_hex_def put16_def)
qed

text \<open>A buffer written up to a position, with room before what was written at its end.\<close>

definition filled_to :: "bytes \<Rightarrow> nat \<Rightarrow> buffer" where
  "filled_to pre k = map Some pre @ replicate k None @ [Some 0]"

lemma store_filled_to [simp]:
  "i = length pre \<Longrightarrow> store (filled_to pre (Suc k)) i (Some x) = Inr (filled_to (pre @ [x]) k)"
  by (simp add: filled_to_def list_update_append)

lemma put_hex_filled_to [simp]:
  "i = length pre \<Longrightarrow> put_hex (filled_to pre (Suc (Suc k))) i x = Inr (filled_to (pre @ hex2 x) k)"
  by (simp add: put_hex_eq hex2_def)

lemma length_hex2 [simp]: "length (hex2 b) = 2"
  by (simp add: hex2_def)

lemma narrow_loop_spec:
  "length pre + 1 = 3 * i \<Longrightarrow> 0 < i \<Longrightarrow>
   narrow_loop i bs (filled_to pre (3 * length bs)) =
     Inr (filled_to (pre @ concat (map (\<lambda>(i, b). (if i = 0 then [] else [0x20]) @ hex2 b) (enumerate i bs))) 0)"
proof (induction bs arbitrary: i pre)
  case (Cons b bs)
  have k: "3 * length (b # bs) = Suc (Suc (Suc (3 * length bs)))" by simp
  show ?case
    unfolding k using Cons.prems Cons.IH [of "pre @ [0x20] @ hex2 b" "i + 1"] by simp
qed simp

lemma wide_dump_Cons:
  "wide_dump width i (b # bs) =
     (if i mod width = 0 then [0x0a, 0x09] else [0x20]) @ hex2 b @ wide_dump width (i + 1) bs"
  by (simp add: wide_dump_def)

lemma wide_loop_spec:
  assumes "length pre = 3 * i + curLine"
  shows "wide_loop width i curLine bs (filled_to pre (length (wide_dump width i bs) + k)) =
     Inr (filled_to (pre @ wide_dump width i bs) k)"
  using assms
proof (induction bs arbitrary: i curLine pre)
  case (Cons b bs)
  let ?k = "length (wide_dump width (i + 1) bs) + k"
  show ?case
  proof (cases "i mod width = 0")
    case True
    then have n: "length (wide_dump width i (b # bs)) + k = Suc (Suc (Suc (Suc ?k)))"
      by (simp add: wide_dump_Cons)
    show ?thesis
      unfolding n using True Cons.prems Cons.IH [of "pre @ [0x0a, 0x09] @ hex2 b" "i + 1" "curLine + 1"]
      by (simp add: wide_dump_Cons)
  next
    case False
    then have n: "length (wide_dump width i (b # bs)) + k = Suc (Suc (Suc ?k))"
      by (simp add: wide_dump_Cons)
    show ?thesis
      unfolding n using False Cons.prems Cons.IH [of "pre @ [0x20] @ hex2 b" "i + 1" curLine]
      by (simp add: wide_dump_Cons)
  qed
qed (simp add: wide_dump_def)

text \<open>The number of line starts among the bytes \<open>i\<close> to \<open>i + n - 1\<close>.\<close>

lemma length_wide_dump:
  assumes "0 < width" "0 < i"
  shows "length (wide_dump width i bs) = 3 * length bs + ((i + length bs - 1) div width - (i - 1) div width)"
  using assms
proof (induction bs arbitrary: i)
  case (Cons b bs)
  have step: "(i - 1) div width + (if i mod width = 0 then 1 else 0) = i div width"
    using Cons.prems by (cases i) (simp_all add: div_Suc)
  have mono: "i div width \<le> (i + length bs) div width" by (rule div_le_mono) simp
  show ?case
    using Cons.IH [of "i + 1"] Cons.prems step mono by (simp add: wide_dump_Cons split: if_splits)
qed (simp add: wide_dump_def)

lemma replicate_filled_to: "store (replicate (Suc k) None) k (Some 0) = Inr (filled_to [] k)"
  by (simp add: filled_to_def replicate_append_same [symmetric] list_update_append
      del: replicate_append_same)

lemma hex_string_wide_spec:
  assumes "bs \<noteq> []" "1 < width"
  shows "hex_string_wide bs width = Inr (filled_to (wide_dump width 0 bs)
    (if length bs mod width = 0 then 1 else 0))"
proof -
  obtain x rest where bs: "bs = x # rest" using assms(1) by (cases bs) auto
  let ?n = "length bs"
  let ?k = "if ?n mod width = 0 then 1 else 0 :: nat"
  define m where "m = length (wide_dump width 1 rest) + ?k"
  have lines: "?n div width = (?n - 1) div width + ?k"
    using assms bs by (simp add: div_Suc)
  have len: "?n * 3 + (?n div width + 1) = Suc (Suc (Suc (Suc m)))"
    using length_wide_dump [of width 1 rest] assms(2) bs lines by (simp add: m_def)
  have "store (replicate (?n * 3 + (?n div width + 1) + 1) None) (?n * 3 + (?n div width + 1)) (Some 0)
      = Inr (filled_to [] (Suc (Suc (Suc (Suc m)))))"
    unfolding len using replicate_filled_to [of "Suc (Suc (Suc (Suc m)))"] by simp
  moreover have "wide_loop width 1 1 rest (filled_to ([0x0a, 0x09] @ hex2 x) m)
      = Inr (filled_to (([0x0a, 0x09] @ hex2 x) @ wide_dump width 1 rest) ?k)"
    unfolding m_def by (rule wide_loop_spec) simp
  moreover have "([0x0a, 0x09] @ hex2 x) @ wide_dump width 1 rest = wide_dump width 0 bs"
    by (simp add: bs wide_dump_Cons)
  moreover have "put_hex (filled_to [0x0a, 0x09] (Suc (Suc m))) 2 x = Inr (filled_to ([0x0a, 0x09] @ hex2 x) m)"
    by (rule put_hex_filled_to) simp
  moreover have "hex_string_wide bs width =
      and_then (store (replicate (?n * 3 + (?n div width + 1) + 1) None) (?n * 3 + (?n div width + 1)) (Some 0))
        (\<lambda>result. and_then (store result 0 (Some 0x0a)) (\<lambda>result.
          and_then (store result 1 (Some 0x09)) (\<lambda>result.
            and_then (put_hex result 2 x) (\<lambda>result. wide_loop width 1 1 rest result))))"
    by (simp only: hex_string_wide_def bs list.case Let_def)
  ultimately show ?thesis
    by (simp only: and_then_Inr store_filled_to list.size append_Nil append_Cons One_nat_def add_0)
qed

section \<open>Properties\<close>

text \<open>A hex dump never writes outside its buffer. Up to 32 bytes the whole buffer is the
  dump and its terminator; a longer one is the dump in lines of 32 bytes and the terminator, with
  one byte between them that is never written exactly when the length is a multiple of 32.\<close>

theorem hex_string_spec:
  assumes "bs \<noteq> []"
  shows "hex_string bs = Inr (if length bs \<le> 32 then map Some (narrow_dump bs @ [0])
    else map Some (wide_dump 32 0 bs) @ (if length bs mod 32 = 0 then [None] else []) @ [Some 0])"
proof (cases "length bs \<le> 32")
  case False
  with assms hex_string_wide_spec [OF assms, of 32] show ?thesis
    by (auto simp: hex_string_def filled_to_def split: list.split)
next
  case True
  obtain x rest where bs: "bs = x # rest" using assms by (cases bs) auto
  have k: "length bs * 3 = Suc (Suc (Suc (3 * length rest)))" by (simp add: bs)
  have "store (replicate (length bs * 3) None) (length bs * 3 - 1) (Some 0)
      = Inr (filled_to [] (Suc (Suc (3 * length rest))))"
    unfolding k using replicate_filled_to [of "Suc (Suc (3 * length rest))"] by simp
  moreover have "narrow_loop 1 rest (filled_to (hex2 x) (3 * length rest)) =
      Inr (filled_to (narrow_dump bs) 0)"
    using narrow_loop_spec [of "hex2 x" 1 rest] by (simp add: narrow_dump_def bs)
  moreover have "hex_string bs = and_then (store (replicate (length bs * 3) None) (length bs * 3 - 1) (Some 0))
      (\<lambda>result. and_then (put_hex result 0 x) (\<lambda>result. narrow_loop 1 rest result))"
    using True by (simp add: hex_string_def bs)
  ultimately have "hex_string bs = Inr (filled_to (narrow_dump bs) 0)"
    by (simp only: and_then_Inr put_hex_filled_to list.size append_Nil)
  with True show ?thesis by (simp add: filled_to_def)
qed

theorem hex_string_spec_witness:
  "hex_string [0xde, 0x01] = Inr (if length [0xde, 0x01 :: u8] \<le> 32
      then map Some (narrow_dump [0xde, 0x01] @ [0])
      else map Some (wide_dump 32 0 [0xde, 0x01])
        @ (if length [0xde, 0x01 :: u8] mod 32 = 0 then [None] else []) @ [Some 0])
   \<and> narrow_dump [0xde, 0x01] = [0x64, 0x65, 0x20, 0x30, 0x31]"
  using hex_string_spec [of "[0xde, 0x01]"]
  by (simp add: narrow_dump_def hex2_def hex_digit_def)

end
