(* ===== verification/Packets.thy ===== *)
theory Packets
  imports Usb_Descriptors
begin

text \<open>
  Packets (\<open>src/lib/Packet.h\<close>), the criteria that choose the endpoints a filter is attached to
  (\<open>src/lib/Criteria.h\<close>, \<open>src/lib/Criteria.cpp\<close>) and the header match of the filters' base class
  (\<open>src/lib/PacketFilter.h\<close>, \<open>src/lib/PacketFilter.cpp\<close>).
\<close>

section \<open>Packets\<close>

text \<open>The block of a packet is \<open>None\<close> for NULL; the length of the list is the number of bytes of
  the block that have a value.\<close>

record packet =
  pk_bEndpoint :: u8
  pk_wLength :: u16
  pk_filter :: bool
  pk_transmit :: bool
  pk_data :: "bytes option"

definition new_packet :: "u8 \<Rightarrow> bytes option \<Rightarrow> int \<Rightarrow> packet" where
  "new_packet endpoint d len =
     \<lparr>pk_bEndpoint = endpoint, pk_wLength = of_int len, pk_filter = True, pk_transmit = True,
      pk_data = d\<rparr>"

record setup_packet = packet +
  sp_ctrl_req :: usb_ctrlrequest
  sp_source :: int
  sp_filter_out :: bool
  sp_transmit_out :: bool
  sp_filter_in :: bool
  sp_transmit_in :: bool

definition new_setup_packet :: "usb_ctrlrequest \<Rightarrow> bytes option \<Rightarrow> bool \<Rightarrow> setup_packet" where
  "new_setup_packet r d filt =
     \<lparr>pk_bEndpoint = 0, pk_wLength = 0, pk_filter = filt, pk_transmit = True, pk_data = d,
      sp_ctrl_req = r, sp_source = 0, sp_filter_out = filt, sp_transmit_out = True,
      sp_filter_in = filt, sp_transmit_in = True\<rparr>"

text \<open>A packet whose block has exactly the announced bytes.\<close>

definition packet_ok :: "packet \<Rightarrow> bool" where
  "packet_ok p \<longleftrightarrow> (\<exists>bs. pk_data p = Some bs \<and> length bs = unat (pk_wLength p))"

section \<open>Criteria\<close>

text \<open>The \<open>short\<close> and \<open>int\<close> fields, where -1 stands for any value, are integers; the comparisons
  promote the descriptor's fields.\<close>

record criteria_endpoint =
  ce_address :: u8
  ce_addressMask :: u8
  ce_attributes :: u8
  ce_attributesMask :: u8
  ce_packetSizeMin :: u16
  ce_packetSizeMax :: u16
  ce_intervalMin :: u8
  ce_intervalMax :: u8

definition any_endpoint :: criteria_endpoint where
  "any_endpoint =
     \<lparr>ce_address = 0, ce_addressMask = 0, ce_attributes = 0, ce_attributesMask = 0,
      ce_packetSizeMin = 0, ce_packetSizeMax = 65535, ce_intervalMin = 0, ce_intervalMax = 255\<rparr>"

definition test_endpoint :: "criteria_endpoint \<Rightarrow> endpoint_descriptor \<Rightarrow> bool" where
  "test_endpoint c d =
     (if ce_addressMask c AND ce_address c \<noteq> ce_addressMask c AND ep_bEndpointAddress d then False
      else if ce_attributesMask c AND ce_attributes c \<noteq> ce_attributesMask c AND ep_bmAttributes d
      then False
      else if ce_packetSizeMin c > ep_wMaxPacketSize d \<or> ce_packetSizeMax c < ep_wMaxPacketSize d
      then False
      else if ce_intervalMin c > ep_bInterval d \<or> ce_intervalMax c < ep_bInterval d then False
      else True)"

record criteria_interface =
  ci_number :: int
  ci_alternate :: int
  ci_deviceClass :: int
  ci_subClass :: int
  ci_protocol :: int

definition any_interface :: criteria_interface where
  "any_interface = \<lparr>ci_number = -1, ci_alternate = -1, ci_deviceClass = -1, ci_subClass = -1,
     ci_protocol = -1\<rparr>"

definition test_interface :: "criteria_interface \<Rightarrow> interface_descriptor \<Rightarrow> bool" where
  "test_interface c d =
     (if ci_number c \<noteq> -1 \<and> ci_number c \<noteq> uint (if_bInterfaceNumber d) then False
      else if ci_alternate c \<noteq> -1 \<and> ci_alternate c \<noteq> uint (if_bAlternateSetting d) then False
      else if ci_deviceClass c \<noteq> -1 \<and> ci_deviceClass c \<noteq> uint (if_bInterfaceClass d) then False
      else if ci_subClass c \<noteq> -1 \<and> ci_subClass c \<noteq> uint (if_bInterfaceSubClass d) then False
      else if ci_protocol c \<noteq> -1 \<and> ci_protocol c \<noteq> uint (if_bInterfaceProtocol d) then False
      else True)"

record criteria_configuration =
  cc_number :: int
  cc_attributes :: u8
  cc_attributesMask :: u8

definition any_configuration :: criteria_configuration where
  "any_configuration = \<lparr>cc_number = -1, cc_attributes = 0, cc_attributesMask = 0\<rparr>"

definition test_configuration :: "criteria_configuration \<Rightarrow> config_descriptor \<Rightarrow> bool" where
  "test_configuration c d =
     (if cc_number c \<noteq> -1 \<and> cc_number c \<noteq> uint (cf_bConfigurationValue d) then False
      else if cc_attributesMask c AND cc_attributes c \<noteq> cc_attributesMask c AND cf_bmAttributes d
      then False
      else True)"

record criteria_device =
  cd_deviceClass :: int
  cd_subClass :: int
  cd_protocol :: int
  cd_ep0packetSizeMin :: u8
  cd_ep0packetSizeMax :: u8
  cd_vendor :: int
  cd_product :: int
  cd_release :: int

definition any_device :: criteria_device where
  "any_device = \<lparr>cd_deviceClass = -1, cd_subClass = -1, cd_protocol = -1,
     cd_ep0packetSizeMin = 0, cd_ep0packetSizeMax = 255, cd_vendor = -1, cd_product = -1,
     cd_release = -1\<rparr>"

definition test_device :: "criteria_device \<Rightarrow> device_descriptor \<Rightarrow> bool" where
  "test_device c d =
     (if cd_deviceClass c \<noteq> -1 \<and> cd_deviceClass c \<noteq> uint (dd_bDeviceClass d) then False
      else if cd_subClass c \<noteq> -1 \<and> cd_subClass c \<noteq> uint (dd_bDeviceSubClass d) then False
      else if cd_protocol c \<noteq> -1 \<and> cd_protocol c \<noteq> uint (dd_bDeviceProtocol d) then False
      else if cd_ep0packetSizeMin c > dd_bMaxPacketSize0 d
        \<or> cd_ep0packetSizeMax c < dd_bMaxPacketSize0 d then False
      else if cd_vendor c \<noteq> -1 \<and> cd_vendor c \<noteq> uint (dd_idVendor d) then False
      else if cd_product c \<noteq> -1 \<and> cd_product c \<noteq> uint (dd_idProduct d) then False
      else if cd_release c \<noteq> -1 \<and> cd_release c \<noteq> uint (dd_bcdDevice d) then False
      else True)"

section \<open>The base class of the filters\<close>

record filter_base =
  fb_header :: bytes
  fb_headerMask :: bytes
  fb_maskLength :: u8
  fb_setupOut :: bool
  fb_setupIn :: bool
  fb_endpoint :: criteria_endpoint
  fb_interface :: criteria_interface
  fb_configuration :: criteria_configuration
  fb_device :: criteria_device

definition new_filter_base :: filter_base where
  "new_filter_base =
     \<lparr>fb_header = replicate 8 0, fb_headerMask = replicate 8 0, fb_maskLength = 0,
      fb_setupOut = True, fb_setupIn = True, fb_endpoint = any_endpoint,
      fb_interface = any_interface, fb_configuration = any_configuration,
      fb_device = any_device\<rparr>"

text \<open>\<open>set_packet_filter\<close> looks at the mask only: it records the index of the last byte that is
  set, and 1 when there is none.\<close>

fun last_mask :: "nat \<Rightarrow> bytes \<Rightarrow> nat \<Rightarrow> nat" where
  "last_mask i [] n = n"
| "last_mask i (b # bs) n = last_mask (i + 1) bs (if b \<noteq> 0 then i else n)"

definition set_packet_filter :: "bytes \<Rightarrow> bytes \<Rightarrow> filter_base \<Rightarrow> filter_base res" where
  "set_packet_filter header msk fb =
     and_then (first_n msk 8) (\<lambda>m. Inr (fb\<lparr>fb_maskLength := of_nat (last_mask 0 m 1)\<rparr>))"

text \<open>The loop both tests share.\<close>

fun masked_loop :: "filter_base \<Rightarrow> bytes \<Rightarrow> nat list \<Rightarrow> bool res" where
  "masked_loop fb d [] = Inr True"
| "masked_loop fb d (i # is) =
     and_then (index (fb_headerMask fb) i) (\<lambda>m.
       if m \<noteq> 0 then
         and_then (index d i) (\<lambda>x. and_then (index (fb_header fb) i) (\<lambda>h.
           if m AND x \<noteq> m AND h then Inr False else masked_loop fb d is))
       else masked_loop fb d is)"

definition test_packet :: "filter_base \<Rightarrow> packet \<Rightarrow> bool res" where
  "test_packet fb p =
     (if unat (pk_wLength p) < unat (fb_maskLength fb) then Inr False
      else if fb_maskLength fb = 0 then Inr True
      else and_then (deref (pk_data p)) (\<lambda>d. masked_loop fb d [0..<unat (fb_maskLength fb)]))"

definition test_setup_packet :: "filter_base \<Rightarrow> setup_packet \<Rightarrow> bool \<Rightarrow> bool res" where
  "test_setup_packet fb p direction_out =
     (if \<not> ((fb_setupOut fb \<or> \<not> direction_out) \<or> (fb_setupIn fb \<or> direction_out)) then Inr False
      else masked_loop fb (ctrl_bytes (sp_ctrl_req p)) [0..<unat (fb_maskLength fb)])"

section \<open>Lemmas\<close>

lemma not_above_u8 [simp]: "\<not> 255 < (x :: u8)"
  by (simp add: not_less unat_le_u8)

lemma not_above_u16 [simp]: "\<not> 65535 < (x :: u16)"
proof -
  have "unat x \<le> 65535" using unat_u16_less [of x] by linarith
  then show ?thesis by (simp add: not_less word_le_nat_alt)
qed

lemma tests_any [simp]:
  "test_endpoint any_endpoint e" "test_interface any_interface i"
  "test_configuration any_configuration c" "test_device any_device d"
  by (simp_all add: test_endpoint_def any_endpoint_def test_interface_def any_interface_def
      test_configuration_def any_configuration_def test_device_def any_device_def)

definition filter_base_wf :: "filter_base \<Rightarrow> bool" where
  "filter_base_wf fb \<longleftrightarrow> length (fb_header fb) = 8 \<and> length (fb_headerMask fb) = 8 \<and>
     unat (fb_maskLength fb) \<le> 8"

definition header_matches :: "filter_base \<Rightarrow> bytes \<Rightarrow> bool" where
  "header_matches fb d \<longleftrightarrow> (\<forall>i<unat (fb_maskLength fb).
     fb_headerMask fb ! i AND d ! i = fb_headerMask fb ! i AND fb_header fb ! i)"

lemma masked_loop_eq:
  assumes "length (fb_header fb) = 8" "length (fb_headerMask fb) = 8"
    and "\<forall>i\<in>set is. i < 8 \<and> i < length d"
  shows "masked_loop fb d is = Inr (\<forall>i\<in>set is. fb_headerMask fb ! i AND d ! i
    = fb_headerMask fb ! i AND fb_header fb ! i)"
  using assms(3) by (induction "is") (auto simp: assms(1,2))

lemma test_packet_eq:
  assumes "filter_base_wf fb" "packet_ok p"
  shows "test_packet fb p = Inr (unat (fb_maskLength fb) \<le> unat (pk_wLength p) \<and>
    header_matches fb (the (pk_data p)))"
proof -
  from assms(2) obtain bs where bs: "pk_data p = Some bs" "length bs = unat (pk_wLength p)"
    by (auto simp: packet_ok_def)
  have fb: "length (fb_header fb) = 8" "length (fb_headerMask fb) = 8" "unat (fb_maskLength fb) \<le> 8"
    using assms(1) by (auto simp: filter_base_wf_def)
  show ?thesis
    using bs masked_loop_eq [OF fb(1,2), of "[0..<unat (fb_maskLength fb)]" bs] fb(3)
    by (auto simp: test_packet_def header_matches_def)
qed

lemma test_setup_packet_eq:
  assumes "filter_base_wf fb"
  shows "test_setup_packet fb p direction_out = Inr (header_matches fb (ctrl_bytes (sp_ctrl_req p)))"
proof -
  have fb: "length (fb_header fb) = 8" "length (fb_headerMask fb) = 8" "unat (fb_maskLength fb) \<le> 8"
    using assms(1) by (auto simp: filter_base_wf_def)
  show ?thesis
    using masked_loop_eq [OF fb(1,2), of "[0..<unat (fb_maskLength fb)]" "ctrl_bytes (sp_ctrl_req p)"] fb(3)
    by (auto simp: test_setup_packet_def header_matches_def)
qed

lemma last_mask_bound: "n < 8 \<Longrightarrow> i + length bs \<le> 8 \<Longrightarrow> last_mask i bs n < 8"
  by (induction i bs n rule: last_mask.induct) auto

text \<open>A header given to \<open>set_packet_filter\<close> is never compared: a filter that was set up with it
  accepts every packet that is at least as long as the index of the last mask byte that is
  set.\<close>

theorem set_packet_filter_ignores_header:
  assumes "set_packet_filter header msk new_filter_base = Inr fb" "packet_ok p"
  shows "test_packet fb p = Inr (last_mask 0 (take 8 msk) 1 \<le> unat (pk_wLength p))"
proof -
  let ?n = "last_mask 0 (take 8 msk) 1"
  from assms(1) have fb: "fb = new_filter_base\<lparr>fb_maskLength := of_nat ?n\<rparr>" "8 \<le> length msk"
    by (auto simp: set_packet_filter_def res_simps)
  have n: "?n < 8" using fb(2) by (intro last_mask_bound) simp_all
  then have u: "unat (of_nat ?n :: u8) = ?n" by (intro unat_of_nat_u8) simp
  have "filter_base_wf fb" using n u by (simp add: fb filter_base_wf_def new_filter_base_def)
  moreover have "header_matches fb (the (pk_data p))"
    using n u by (simp add: header_matches_def fb new_filter_base_def)
  moreover have "unat (fb_maskLength fb) = ?n" using u by (simp add: fb)
  ultimately show ?thesis using test_packet_eq [OF _ assms(2), of fb] by simp
qed

theorem set_packet_filter_ignores_header_witness:
  "test_packet (new_filter_base\<lparr>fb_maskLength := 1\<rparr>) (new_packet 0x81 (Some [9]) 1)
     = Inr (last_mask 0 (take 8 [255, 255, 0, 0, 0, 0, 0, 0]) 1 \<le> unat (pk_wLength (new_packet 0x81 (Some [9]) 1)))"
  by (rule set_packet_filter_ignores_header [where header = "[1, 2, 0, 0, 0, 0, 0, 0]"])
    (simp_all add: set_packet_filter_def packet_ok_def new_packet_def)

end
