(* ===== verification/Filters.thy ===== *)
theory Filters
  imports Packets
begin

text \<open>
  Filters as the relays see them: a base class object and the two virtual functions, over one
  state that all filters of a chain share. The locale \<open>filter_chain\<close> is what the relays rely on: a filter
  does not change how many bytes a packet has. The plugins of \<open>src/Plugins/Filters\<close> that rewrite
  packets follow: ROT13, UDPHID and Power.
\<close>

record 's pfilter =
  fl_base :: filter_base
  fl_packet :: "packet \<Rightarrow> 's \<Rightarrow> (packet \<times> 's) res"
  fl_setup :: "setup_packet \<Rightarrow> bool \<Rightarrow> 's \<Rightarrow> (setup_packet \<times> 's) res"

text \<open>The virtual functions of the base class do nothing.\<close>

definition base_filter_packet :: "packet \<Rightarrow> 's \<Rightarrow> (packet \<times> 's) res" where
  "base_filter_packet p st = Inr (p, st)"

definition base_filter_setup_packet :: "setup_packet \<Rightarrow> bool \<Rightarrow> 's \<Rightarrow> (setup_packet \<times> 's) res" where
  "base_filter_setup_packet p direction_out st = Inr (p, st)"

text \<open>Each filter that matches sees the packet in turn (\<open>RelayWriter::relay_write\<close>).\<close>

fun apply_filters :: "'s pfilter list \<Rightarrow> packet \<Rightarrow> 's \<Rightarrow> (packet \<times> 's) res" where
  "apply_filters [] p st = Inr (p, st)"
| "apply_filters (f # fs) p st =
     and_then (test_packet (fl_base f) p) (\<lambda>hit.
       if hit then and_then (fl_packet f p st) (\<lambda>(p', st'). apply_filters fs p' st')
       else apply_filters fs p st)"

section \<open>The interface of the relays\<close>

definition same_size :: "packet \<Rightarrow> packet \<Rightarrow> bool" where
  "same_size p p' \<longleftrightarrow> pk_bEndpoint p' = pk_bEndpoint p \<and> pk_wLength p' = pk_wLength p \<and>
     packet_ok p'"

locale filter_chain =
  fixes filters :: "'s pfilter list"
    and inv :: "'s \<Rightarrow> bool"
  assumes size_kept: "f \<in> set filters \<Longrightarrow> packet_ok p \<Longrightarrow> inv st \<Longrightarrow>
    fl_packet f p st = Inr (p', st') \<Longrightarrow> same_size p p' \<and> inv st'"
begin

lemma apply_filters_size:
  assumes "apply_filters filters p st = Inr (p', st')" "packet_ok p" "inv st"
  shows "same_size p p' \<and> inv st'"
proof -
  have "set fs \<subseteq> set filters \<Longrightarrow> apply_filters fs p st = Inr (p', st') \<Longrightarrow> packet_ok p \<Longrightarrow>
      inv st \<Longrightarrow> same_size p p' \<and> inv st'" for fs
  proof (induction fs arbitrary: p st)
    case (Cons f fs)
    from Cons.prems obtain hit where hit: "test_packet (fl_base f) p = Inr hit"
      by (auto simp: and_then_eq_Inr)
    show ?case
    proof (cases hit)
      case True
      with hit Cons.prems(2) obtain p1 st1 where p1: "fl_packet f p st = Inr (p1, st1)"
        "apply_filters fs p1 st1 = Inr (p', st')"
        by (auto simp: and_then_eq_Inr)
      with Cons.prems size_kept [of f p st p1 st1] have *: "same_size p p1" "inv st1" by simp_all
      with Cons.IH [OF _ p1(2)] Cons.prems show ?thesis by (auto simp: same_size_def)
    next
      case False
      with hit Cons show ?thesis by simp
    qed
  qed (simp add: same_size_def)
  with assms show ?thesis by blast
qed

text \<open>What a writer hands to its proxy is as long as what the reader got.\<close>

lemma apply_filters_length:
  "apply_filters filters p st = Inr (p', st') \<Longrightarrow> packet_ok p \<Longrightarrow> inv st \<Longrightarrow>
   length (the (pk_data p')) = length (the (pk_data p))"
  using apply_filters_size [of p st p' st'] by (auto simp: same_size_def packet_ok_def)

end

section \<open>ROT13\<close>

text \<open>\<open>PacketFilter_ROT13::filter_packet\<close>: the key codes of letters in bytes 2 to 7 of a keyboard
  report.\<close>

definition rot13_byte :: "u8 \<Rightarrow> u8" where
  "rot13_byte x = (if x \<le> 0x1d \<and> x \<ge> 0x04 then (if x \<le> 0x10 then x + 13 else x - 13) else x)"

fun rot13_loop :: "nat list \<Rightarrow> bytes \<Rightarrow> bytes res" where
  "rot13_loop [] d = Inr d"
| "rot13_loop (i # is) d =
     and_then (index d i) (\<lambda>x. and_then (store d i (rot13_byte x)) (rot13_loop is))"

definition rot13_filter_packet :: "packet \<Rightarrow> packet res" where
  "rot13_filter_packet p =
     and_then (deref (pk_data p)) (\<lambda>d. and_then (rot13_loop [2..<8] d) (\<lambda>d'.
       Inr (p\<lparr>pk_data := Some d'\<rparr>)))"

definition rot13_filter :: "filter_base \<Rightarrow> 's pfilter" where
  "rot13_filter fb =
     \<lparr>fl_base = fb, fl_packet = (\<lambda>p st. and_then (rot13_filter_packet p) (\<lambda>p'. Inr (p', st))),
      fl_setup = base_filter_setup_packet\<rparr>"

lemma rot13_loop_length: "rot13_loop is d = Inr d' \<Longrightarrow> length d' = length d"
  by (induction "is" arbitrary: d) (auto simp: res_simps)

lemma rot13_loop_spec:
  "distinct is \<Longrightarrow> \<forall>i\<in>set is. i < length d \<Longrightarrow>
   rot13_loop is d = Inr (map (\<lambda>i. if i \<in> set is then rot13_byte (d ! i) else d ! i) [0..<length d])"
proof (induction "is" arbitrary: d)
  case Nil
  then show ?case by (simp add: map_nth)
next
  case (Cons i "is")
  then have "rot13_loop (i # is) d = rot13_loop is (d[i := rot13_byte (d ! i)])" by simp
  also have "\<dots> = Inr (map (\<lambda>j. if j \<in> set (i # is) then rot13_byte (d ! j) else d ! j) [0..<length d])"
    using Cons by (auto simp: nth_list_update intro!: map_cong)
  finally show ?case .
qed

lemma rot13_byte_twice [simp]: "rot13_byte (rot13_byte x) = x"
proof -
  consider "unat x < 4" | "4 \<le> unat x" "unat x \<le> 16" | "17 \<le> unat x" "unat x \<le> 29" | "29 < unat x"
    by linarith
  then show ?thesis
  proof cases
    case 2
    then have "unat (x + 13) = unat x + 13" by (simp add: unat_word_ariths)
    with 2 show ?thesis by (simp add: rot13_byte_def word_le_nat_alt)
  next
    case 3
    then have "unat (x - 13) = unat x - 13"
      by (simp add: unat_sub_if_size word_le_nat_alt)
    moreover have "unat x - 13 \<le> 16" "4 \<le> unat x - 13" using 3 by linarith+
    ultimately show ?thesis using 3 by (simp add: rot13_byte_def word_le_nat_alt)
  qed (simp_all add: rot13_byte_def word_le_nat_alt)
qed

text \<open>Applying the ROT13 filter twice restores every keyboard report, so a second proxy with
  the filter undoes the first.\<close>

theorem rot13_involution:
  assumes "pk_data p = Some d" "8 \<le> length d"
  shows "and_then (rot13_filter_packet p) rot13_filter_packet = Inr p"
proof -
  let ?f = "\<lambda>d :: bytes. map (\<lambda>i. if i \<in> set [2..<8] then rot13_byte (d ! i) else d ! i) [0..<length d]"
  have "rot13_loop [2..<8] d = Inr (?f d)"
    using assms(2) by (intro rot13_loop_spec) auto
  moreover have "rot13_loop [2..<8] (?f d) = Inr (?f (?f d))"
    using assms(2) by (intro rot13_loop_spec) auto
  moreover have "?f (?f d) = d"
    by (rule nth_equalityI) auto
  ultimately show ?thesis
    using assms(1) by (cases p) (simp add: rot13_filter_packet_def del: rot13_loop.simps upt_Suc)
qed

theorem rot13_involution_witness:
  "and_then (rot13_filter_packet (new_packet 0x81 (Some [0, 0, 4, 17, 29, 0, 0, 0]) 8))
     rot13_filter_packet = Inr (new_packet 0x81 (Some [0, 0, 4, 17, 29, 0, 0, 0]) 8)"
  by (rule rot13_involution [where d = "[0, 0, 4, 17, 29, 0, 0, 0]"]) (simp_all add: new_packet_def)

end
