(* ===== verification/Mass_Storage.thy ===== *)
theory Mass_Storage
  imports Filters
begin

text \<open>
  The mass storage filter (\<open>src/Plugins/Filters/PacketFilter_MassStorage.cpp\<close>): it follows the
  command blocks of the bulk-only transport, can keep the blocks that are read and written in a
  cache, and can hold back writes, for which it later injects a status block of its own. The
  messages it prints are left out; the pipe from \<open>queue_packet\<close> to \<open>get_packets\<close> is the list of
  the tags in it.
\<close>

section \<open>State\<close>

definition BLOCK_SIZE :: nat where "BLOCK_SIZE = 512"

datatype ms_type = IDLE | COMMAND | READ | WRITE | STATUS | UNKNOWN

record mass_storage =
  ms_state :: ms_type
  ms_tag :: bytes
  ms_block_writes :: bool
  ms_cache_blocks :: bool
  ms_inband_signalling :: bool
  ms_inband_block_writes :: bool
  ms_unblock_password :: bytes
  ms_block_password :: bytes
  ms_block_count :: u32
  ms_block_offset :: u32
  ms_base_address :: u32
  ms_cache :: "u32 \<Rightarrow> bytes option"
  ms_pipe :: "bytes list"

definition new_mass_storage :: "bool \<Rightarrow> bool \<Rightarrow> bool \<Rightarrow> bytes \<Rightarrow> bytes \<Rightarrow> mass_storage" where
  "new_mass_storage blockWrites cacheBlocks inband blockPw unblockPw =
     \<lparr>ms_state = IDLE, ms_tag = [0, 0, 0, 0], ms_block_writes = blockWrites,
      ms_cache_blocks = cacheBlocks, ms_inband_signalling = inband,
      ms_inband_block_writes = blockWrites, ms_unblock_password = unblockPw,
      ms_block_password = blockPw, ms_block_count = 0, ms_block_offset = 0,
      ms_base_address = 0, ms_cache = (\<lambda>_. None), ms_pipe = []\<rparr>"

section \<open>The block cache\<close>

text \<open>Both functions copy \<open>BLOCK_SIZE\<close> bytes whatever the length of the packet.\<close>

definition cache_read :: "u32 \<Rightarrow> bytes \<Rightarrow> mass_storage \<Rightarrow> (bytes \<times> mass_storage) res" where
  "cache_read address d ms =
     and_then (first_n d BLOCK_SIZE) (\<lambda>b.
       case ms_cache ms address of
         None \<Rightarrow> Inr (d, ms\<lparr>ms_cache := (ms_cache ms)(address \<mapsto> b)\<rparr>)
       | Some c \<Rightarrow> Inr (c @ drop BLOCK_SIZE d, ms))"

definition cache_write :: "u32 \<Rightarrow> bytes \<Rightarrow> mass_storage \<Rightarrow> mass_storage res" where
  "cache_write address d ms =
     and_then (first_n d BLOCK_SIZE) (\<lambda>b.
       Inr (ms\<lparr>ms_cache := (ms_cache ms)(address \<mapsto> b)\<rparr>))"

section \<open>Passwords\<close>

text \<open>The comparison loop over the first \<open>BLOCK_SIZE-len\<close> bytes. \<open>c_str\<close> has a terminating zero;
  its characters are signed, the bytes of the block are not.\<close>

fun password_loop :: "bytes \<Rightarrow> nat \<Rightarrow> nat \<Rightarrow> bytes \<Rightarrow> bool res" where
  "password_loop c_str n ptr d =
     (if n = 0 then Inr False
      else and_then (index d 0) (\<lambda>x. and_then (index (c_str @ [0]) ptr) (\<lambda>c.
        let ptr' = (if uint x = sint c then ptr + 1 else 0) in
        if ptr' = length c_str then Inr True
        else password_loop c_str (n - 1) ptr' (tl d))))"

declare password_loop.simps [simp del]

definition password_found :: "bytes \<Rightarrow> bytes \<Rightarrow> bool res" where
  "password_found pw d = password_loop pw (BLOCK_SIZE - length pw) 0 d"

definition check_for_password :: "bytes \<Rightarrow> mass_storage \<Rightarrow> mass_storage res" where
  "check_for_password d ms =
     (if ms_inband_block_writes ms then
        and_then (password_found (ms_unblock_password ms) d) (\<lambda>found.
          Inr (if found then ms\<lparr>ms_inband_block_writes := False\<rparr> else ms))
      else
        and_then (password_found (ms_block_password ms) d) (\<lambda>found.
          Inr (if found then ms\<lparr>ms_inband_block_writes := True\<rparr> else ms)))"

section \<open>The filter\<close>

text \<open>A command block is 31 bytes with the signature USBC, a status block 13 bytes with USBS; any
  other packet above 64 bytes belongs to the transfer in progress.\<close>

definition has_signature :: "packet \<Rightarrow> u16 \<Rightarrow> bytes \<Rightarrow> bool res" where
  "has_signature p len sig =
     (if pk_wLength p = len then
        and_then (deref (pk_data p)) (\<lambda>d. and_then (first_n d 4) (\<lambda>b. Inr (b = sig)))
      else Inr False)"

definition packet_type :: "packet \<Rightarrow> ms_type \<Rightarrow> ms_type res" where
  "packet_type p st =
     and_then (has_signature p 31 [0x55, 0x53, 0x42, 0x43]) (\<lambda>cmd.
       and_then (has_signature p 13 [0x55, 0x53, 0x42, 0x53]) (\<lambda>status.
         Inr (if status then STATUS else if cmd then COMMAND
              else if pk_wLength p > 64 then st else UNKNOWN)))"

definition be16 :: "u8 \<Rightarrow> u8 \<Rightarrow> u32" where
  "be16 hi lo = push_bit 8 (ucast hi) OR ucast lo"

definition be32 :: "u8 \<Rightarrow> u8 \<Rightarrow> u8 \<Rightarrow> u8 \<Rightarrow> u32" where
  "be32 a b c d =
     push_bit 24 (ucast a) OR push_bit 16 (ucast b) OR push_bit 8 (ucast c) OR ucast d"

text \<open>The fields of a command: block count and logical block address of a transfer.\<close>

definition set_transfer :: "bytes \<Rightarrow> ms_type \<Rightarrow> mass_storage \<Rightarrow> mass_storage" where
  "set_transfer d st ms =
     ms\<lparr>ms_state := st, ms_block_count := be16 (d ! 0x16) (d ! 0x17),
        ms_base_address := be32 (d ! 0x11) (d ! 0x12) (d ! 0x13) (d ! 0x14),
        ms_block_offset := 0\<rparr>"

definition ms_command :: "packet \<Rightarrow> bytes \<Rightarrow> mass_storage \<Rightarrow> packet \<times> mass_storage" where
  "ms_command p d ms =
     (if d ! 0x0f = 0x28 then (p, set_transfer d READ ms)
      else if d ! 0x0f = 0x2a then
        (let ms1 = (if ms_inband_signalling ms
                    then ms\<lparr>ms_block_writes := ms_inband_block_writes ms\<rparr> else ms) in
         (if ms_block_writes ms1 then p\<lparr>pk_transmit := False\<rparr> else p,
          set_transfer d WRITE (ms1\<lparr>ms_tag := [d ! 4, d ! 5, d ! 6, d ! 7]\<rparr>)))
      else (p, ms))"

definition queue_packet :: "mass_storage \<Rightarrow> mass_storage" where
  "queue_packet ms = ms\<lparr>ms_pipe := ms_pipe ms @ [ms_tag ms]\<rparr>"

text \<open>The data of a packet is only followed when it is looked at.\<close>

definition ms_write :: "packet \<Rightarrow> mass_storage \<Rightarrow> (packet \<times> mass_storage) res" where
  "ms_write p ms =
     and_then (if ms_cache_blocks ms then and_then (deref (pk_data p)) (\<lambda>d.
                 cache_write (ms_block_offset ms + ms_base_address ms) d ms)
               else Inr ms) (\<lambda>ms1.
       and_then (if ms_inband_signalling ms1 then and_then (deref (pk_data p)) (\<lambda>d.
                   check_for_password d ms1) else Inr ms1) (\<lambda>ms2.
         Inr (if ms_block_writes ms2 then
                (let ms3 = ms2\<lparr>ms_block_offset := ms_block_offset ms2 + 1\<rparr> in
                 (p\<lparr>pk_transmit := False\<rparr>,
                  if ms_block_offset ms3 = ms_block_count ms3 then queue_packet ms3 else ms3))
              else (p, ms2))))"

definition ms_read :: "packet \<Rightarrow> mass_storage \<Rightarrow> (packet \<times> mass_storage) res" where
  "ms_read p ms =
     and_then (if ms_cache_blocks ms then and_then (deref (pk_data p)) (\<lambda>d.
                 and_then (cache_read (ms_block_offset ms + ms_base_address ms) d ms) (\<lambda>(d', ms1).
                   Inr (p\<lparr>pk_data := Some d'\<rparr>, ms1)))
               else Inr (p, ms)) (\<lambda>(p', ms1).
       Inr (p', ms1\<lparr>ms_block_offset := ms_block_offset ms1 + 1\<rparr>))"

definition ms_filter_packet :: "packet \<Rightarrow> mass_storage \<Rightarrow> (packet \<times> mass_storage) res" where
  "ms_filter_packet p ms =
     and_then (packet_type p (ms_state ms)) (\<lambda>type.
       case type of
         COMMAND \<Rightarrow> and_then (deref (pk_data p)) (\<lambda>d. and_then (first_n d 31) (\<lambda>d.
           Inr (ms_command p d ms)))
       | WRITE \<Rightarrow> ms_write p ms
       | READ \<Rightarrow> ms_read p ms
       | STATUS \<Rightarrow> and_then (deref (pk_data p)) (\<lambda>d. and_then (index d 12) (\<lambda>_.
           Inr (p, ms\<lparr>ms_state := IDLE\<rparr>)))
       | _ \<Rightarrow> Inr (p, ms))"

text \<open>\<open>get_packets\<close>: the false status for the oldest tag in the pipe; an empty pipe blocks.\<close>

definition ms_get_packets :: "mass_storage \<Rightarrow> (packet \<times> mass_storage) option" where
  "ms_get_packets ms = (case ms_pipe ms of
     [] \<Rightarrow> None
   | tag # rest \<Rightarrow>
       Some (new_packet 0x82 (Some ([0x55, 0x53, 0x42, 0x53] @ tag @ replicate 5 0)) 13,
             ms\<lparr>ms_pipe := rest\<rparr>))"

section \<open>The cache is a keyed store\<close>

definition cache_put :: "u32 \<Rightarrow> bytes \<Rightarrow> mass_storage \<Rightarrow> mass_storage" where
  "cache_put a b ms = ms\<lparr>ms_cache := (ms_cache ms)(a \<mapsto> b)\<rparr>"

interpretation ms_store: keyed_store ms_cache cache_put
  by unfold_locales (simp add: cache_put_def)

lemma cache_write_eq:
  "BLOCK_SIZE \<le> length d \<Longrightarrow> cache_write a d ms = Inr (cache_put a (take BLOCK_SIZE d) ms)"
  by (simp add: cache_write_def cache_put_def)

lemma cache_read_hit:
  "ms_cache ms a = Some b \<Longrightarrow> BLOCK_SIZE \<le> length d \<Longrightarrow>
   cache_read a d ms = Inr (b @ drop BLOCK_SIZE d, ms)"
  by (simp add: cache_read_def)

lemma cache_read_miss:
  "ms_cache ms a = None \<Longrightarrow> BLOCK_SIZE \<le> length d \<Longrightarrow>
   cache_read a d ms = Inr (d, cache_put a (take BLOCK_SIZE d) ms)"
  by (simp add: cache_read_def cache_put_def)

fun cache_writes :: "(u32 \<times> bytes) list \<Rightarrow> mass_storage \<Rightarrow> mass_storage res" where
  "cache_writes [] ms = Inr ms"
| "cache_writes ((a, d) # ws) ms = and_then (cache_write a d ms) (cache_writes ws)"

lemma cache_writes_fold:
  "\<forall>(a, d)\<in>set ws. length d = BLOCK_SIZE \<Longrightarrow>
   cache_writes ws ms = Inr (fold (\<lambda>(a, d). cache_put a d) ws ms)"
  by (induction ws arbitrary: ms) (auto simp: cache_write_eq)

text \<open>With the cache on, the host reads its own writes: after any sequence of blocks written
  to the cache, a read of an address that was written returns the block written there last,
  whatever block the device sent.\<close>

theorem cache_reads_last_write:
  assumes "\<forall>(a, d)\<in>set ws. length d = BLOCK_SIZE" "map_of (rev ws) a = Some b"
    and "length d = BLOCK_SIZE"
  shows "\<exists>ms'. cache_writes ws ms = Inr ms' \<and> cache_read a d ms' = Inr (b, ms')"
proof -
  let ?ms = "fold (\<lambda>(a, d). cache_put a d) ws ms"
  have "ms_cache ?ms a = Some b" using ms_store.last_put [of ws ms a] assms(2) by simp
  from cache_read_hit [OF this, of d] assms(3) have "cache_read a d ?ms = Inr (b, ?ms)" by simp
  with cache_writes_fold [OF assms(1)] show ?thesis by blast
qed

theorem cache_reads_last_write_witness:
  "\<exists>ms'. cache_writes [(7, replicate BLOCK_SIZE 1), (8, replicate BLOCK_SIZE 3), (7, replicate BLOCK_SIZE 2)]
      (new_mass_storage True True False [] []) = Inr ms' \<and>
    cache_read 7 (replicate BLOCK_SIZE 0) ms' = Inr (replicate BLOCK_SIZE 2, ms')"
  by (rule cache_reads_last_write) simp_all

section \<open>Passwords\<close>

lemma password_loop_sound:
  assumes "password_loop c_str n ptr d = Inr True" "c_str \<noteq> []" "ptr < length c_str"
    and "ptr \<le> length pre" "map uint (drop (length pre - ptr) pre) = map sint (take ptr c_str)"
  shows "\<exists>i. i + length c_str \<le> length (pre @ d) \<and>
    map uint (take (length c_str) (drop i (pre @ d))) = map sint c_str"
  using assms
proof (induction c_str n ptr d arbitrary: pre rule: password_loop.induct)
  case (1 c_str n ptr d)
  from "1.prems"(1) obtain x d' where d: "d = x # d'" "0 < n"
    by (subst (asm) password_loop.simps) (cases d; auto simp: and_then_eq_Inr split: if_splits)
  let ?ptr = "if uint x = sint (c_str ! ptr) then ptr + 1 else 0"
  have step: "?ptr = length c_str \<or> password_loop c_str (n - 1) ?ptr d' = Inr True"
    using "1.prems"(1,3) d
    by (subst (asm) password_loop.simps) (auto simp: Let_def nth_append split: if_splits)
  have mtch: "?ptr \<le> length (pre @ [x])"
    "map uint (drop (length (pre @ [x]) - ?ptr) (pre @ [x])) = map sint (take ?ptr c_str)"
    using "1.prems"(3-5) by (auto simp: take_Suc_conv_app_nth Suc_diff_le)
  show ?case
  proof (cases "?ptr = length c_str")
    case True
    let ?i = "length (pre @ [x]) - ?ptr"
    have "?i + length c_str \<le> length (pre @ d)" using mtch(1) True d by simp
    moreover have "take (length c_str) (drop ?i (pre @ d)) = drop ?i (pre @ [x])"
    proof -
      have "length (drop ?i (pre @ [x])) = length c_str" using mtch(1) True by simp
      moreover have "drop ?i ((pre @ [x]) @ d') = drop ?i (pre @ [x]) @ d'"
        by (simp only: drop_append) simp
      ultimately show ?thesis using d(1) by simp
    qed
    ultimately show ?thesis using mtch(2) True by auto
  next
    case False
    then have "?ptr < length c_str" using "1.prems"(3) by auto
    with "1.IH" [of x "c_str ! ptr" ?ptr "pre @ [x]"] False step mtch "1.prems"(2,3) d
    show ?thesis by (auto simp: nth_append)
  qed
qed

text \<open>The filter lifts or imposes write blocking only when the block contains the password:
  when the search succeeds, the password occurs somewhere in the block.\<close>

theorem password_found_sound:
  assumes "password_found pw d = Inr True" "pw \<noteq> []"
  shows "\<exists>i. i + length pw \<le> length d \<and> map uint (take (length pw) (drop i d)) = map sint pw"
  using assms password_loop_sound [of pw "BLOCK_SIZE - length pw" 0 d "[]"]
  by (simp add: password_found_def)

theorem password_found_sound_witness:
  "\<exists>i. i + length [0x41 :: u8] \<le> length ([0x41 :: u8] @ replicate 511 0) \<and>
     map uint (take (length [0x41 :: u8]) (drop i ([0x41 :: u8] @ replicate 511 0))) = map sint [0x41 :: u8]"
  by (rule password_found_sound)
    (simp_all add: password_found_def BLOCK_SIZE_def password_loop.simps)

section \<open>Blocked writes\<close>

fun ms_run :: "packet list \<Rightarrow> mass_storage \<Rightarrow> (packet list \<times> mass_storage) res" where
  "ms_run [] ms = Inr ([], ms)"
| "ms_run (p # ps) ms =
     and_then (ms_filter_packet p ms) (\<lambda>(p', ms1).
       and_then (ms_run ps ms1) (\<lambda>(ps', ms2). Inr (p' # ps', ms2)))"

text \<open>What the packets mean to the device, from the packets alone.\<close>

definition command :: "u8 \<Rightarrow> packet \<Rightarrow> bool" where
  "command opcode p \<longleftrightarrow> pk_wLength p = 31 \<and>
     take 4 (the (pk_data p)) = [0x55, 0x53, 0x42, 0x43] \<and> the (pk_data p) ! 0x0f = opcode"

definition status_block :: "packet \<Rightarrow> bool" where
  "status_block p \<longleftrightarrow> pk_wLength p = 13 \<and> take 4 (the (pk_data p)) = [0x55, 0x53, 0x42, 0x53]"

definition data_block :: "packet \<Rightarrow> bool" where
  "data_block p \<longleftrightarrow> pk_wLength p > 64"

text \<open>The transfer in progress after a packet.\<close>

definition next_phase :: "ms_type \<Rightarrow> packet \<Rightarrow> ms_type" where
  "next_phase st p =
     (if command 0x28 p then READ else if command 0x2a p then WRITE
      else if status_block p then IDLE else st)"

definition blocking :: "mass_storage \<Rightarrow> bool" where
  "blocking ms \<longleftrightarrow> ms_block_writes ms \<and> \<not> ms_inband_signalling ms \<and>
     ms_state ms \<in> {IDLE, READ, WRITE}"

lemma packet_type_eq:
  assumes "packet_ok p"
  shows "packet_type p st = Inr (if status_block p then STATUS
    else if pk_wLength p = 31 \<and> take 4 (the (pk_data p)) = [0x55, 0x53, 0x42, 0x43] then COMMAND
    else if data_block p then st else UNKNOWN)"
  using assms
  by (auto simp: packet_type_def has_signature_def status_block_def data_block_def packet_ok_def)

lemma command_unfold:
  "packet_ok p \<Longrightarrow> pk_wLength p = 31 \<Longrightarrow> \<exists>d. pk_data p = Some d \<and> length d = 31"
  by (auto simp: packet_ok_def)

lemma not_data_block: "command c p \<Longrightarrow> \<not> data_block p" "status_block p \<Longrightarrow> \<not> data_block p"
  "command c p \<Longrightarrow> \<not> status_block p"
  by (auto simp: command_def data_block_def status_block_def)

lemma set_transfer_simps [simp]:
  "ms_block_writes (set_transfer d st ms) = ms_block_writes ms"
  "ms_inband_signalling (set_transfer d st ms) = ms_inband_signalling ms"
  "ms_state (set_transfer d st ms) = st" "ms_pipe (set_transfer d st ms) = ms_pipe ms"
  "ms_tag (set_transfer d st ms) = ms_tag ms"
  by (simp_all add: set_transfer_def)

lemma cache_preserves:
  "cache_write a d ms = Inr ms' \<Longrightarrow> \<exists>c. ms' = ms\<lparr>ms_cache := c\<rparr>"
  "cache_read a d ms = Inr (d', ms') \<Longrightarrow> \<exists>c. ms' = ms\<lparr>ms_cache := c\<rparr>"
  by (auto simp: cache_write_def cache_read_def res_simps split: option.splits)
    (cases ms; force)+

lemma ms_read_facts:
  assumes "ms_read p ms = Inr (p', ms')"
  shows "ms_block_writes ms' = ms_block_writes ms \<and> ms_state ms' = ms_state ms \<and>
    ms_inband_signalling ms' = ms_inband_signalling ms \<and> pk_transmit p' = pk_transmit p"
proof (cases "ms_cache_blocks ms")
  case True
  with assms obtain d d' ms1 where
    1: "cache_read (ms_block_offset ms + ms_base_address ms) d ms = Inr (d', ms1)"
    and "p' = p\<lparr>pk_data := Some d'\<rparr>" "ms' = ms1\<lparr>ms_block_offset := ms_block_offset ms1 + 1\<rparr>"
    by (auto simp: ms_read_def and_then_eq_Inr)
  with cache_preserves(2) [OF 1] show ?thesis by auto
next
  case False
  with assms show ?thesis by (auto simp: ms_read_def)
qed

text \<open>A data block of a write that is held back, with the status queued after the last one.\<close>

lemma ms_write_blocked:
  assumes "ms_write p ms = Inr (p', ms')" "ms_block_writes ms" "\<not> ms_inband_signalling ms"
  shows "\<exists>c. p' = p\<lparr>pk_transmit := False\<rparr> \<and>
    ms' = ms\<lparr>ms_block_offset := ms_block_offset ms + 1, ms_cache := c,
      ms_pipe := (if ms_block_offset ms + 1 = ms_block_count ms then ms_pipe ms @ [ms_tag ms]
        else ms_pipe ms)\<rparr>"
proof -
  from assms obtain ms1 where 1: "(if ms_cache_blocks ms then and_then (deref (pk_data p)) (\<lambda>d.
      cache_write (ms_block_offset ms + ms_base_address ms) d ms) else Inr ms) = Inr ms1"
    unfolding ms_write_def and_then_eq_Inr by blast
  obtain c where c: "ms1 = ms\<lparr>ms_cache := c\<rparr>"
  proof (cases "ms_cache_blocks ms")
    case True
    with 1 obtain d where "cache_write (ms_block_offset ms + ms_base_address ms) d ms = Inr ms1"
      by (auto simp: and_then_eq_Inr)
    from cache_preserves(1) [OF this] show ?thesis using that by blast
  next
    case False
    with 1 have "ms1 = ms\<lparr>ms_cache := ms_cache ms\<rparr>" by simp
    then show ?thesis by (rule that)
  qed
  then have "\<not> ms_inband_signalling ms1" "ms_block_writes ms1" using assms(2,3) by simp_all
  with 1 assms(1) have *: "(p', ms') = (p\<lparr>pk_transmit := False\<rparr>,
      if ms_block_offset ms1 + 1 = ms_block_count ms1
      then queue_packet (ms1\<lparr>ms_block_offset := ms_block_offset ms1 + 1\<rparr>)
      else ms1\<lparr>ms_block_offset := ms_block_offset ms1 + 1\<rparr>)"
    unfolding ms_write_def by (simp add: Let_def)
  show ?thesis
    by (rule exI [of _ c]) (use * in \<open>simp add: c queue_packet_def split: if_splits\<close>)
qed

lemma ms_step_blocking:
  assumes "ms_filter_packet p ms = Inr (p', ms')" "packet_ok p" "blocking ms"
  shows "blocking ms'" "ms_state ms' = next_phase (ms_state ms) p"
    "pk_transmit p' = (pk_transmit p \<and> \<not> command 0x2a p \<and> \<not> (data_block p \<and> ms_state ms = WRITE))"
proof -
  have *: "blocking ms' \<and> ms_state ms' = next_phase (ms_state ms) p \<and>
    pk_transmit p' = (pk_transmit p \<and> \<not> command 0x2a p \<and> \<not> (data_block p \<and> ms_state ms = WRITE))"
  proof -
    consider (status) "status_block p" | (cmd) "pk_wLength p = 31"
      "take 4 (the (pk_data p)) = [0x55, 0x53, 0x42, 0x43]" "\<not> status_block p"
      | (data) "data_block p" "\<not> status_block p" "\<And>c. \<not> command c p"
      | (other) "\<not> data_block p" "\<not> status_block p" "\<And>c. \<not> command c p"
      unfolding command_def by blast
    then show ?thesis
    proof cases
      case status
      then have "\<not> command c p" for c using not_data_block by blast
      moreover from status assms(1) packet_type_eq [OF assms(2)]
      have "p' = p" "ms' = ms\<lparr>ms_state := IDLE\<rparr>"
        by (auto simp: ms_filter_packet_def and_then_eq_Inr)
      ultimately show ?thesis
        using status not_data_block(2) [OF status] assms(3) by (simp add: blocking_def next_phase_def)
    next
      case cmd
      then obtain d where d: "pk_data p = Some d" "length d = 31"
        using command_unfold assms(2) by blast
      with cmd have "packet_type p (ms_state ms) = Inr COMMAND"
        using packet_type_eq [OF assms(2)] by simp
      with assms(1) d have "(p', ms') = ms_command p d ms"
        by (simp add: ms_filter_packet_def)
      with assms(3) d cmd show ?thesis
        by (auto simp: ms_command_def blocking_def next_phase_def command_def data_block_def
            Let_def split: if_splits)
    next
      case data
      then have t: "packet_type p (ms_state ms) = Inr (ms_state ms)"
        using packet_type_eq [OF assms(2)] by (auto simp: command_def)
      have phase: "next_phase (ms_state ms) p = ms_state ms" using data by (simp add: next_phase_def)
      from assms(3) consider "ms_state ms = IDLE" | "ms_state ms = READ" | "ms_state ms = WRITE"
        by (auto simp: blocking_def)
      then show ?thesis
      proof cases
        case 2
        with assms(1) t have "ms_read p ms = Inr (p', ms')" by (simp add: ms_filter_packet_def)
        from ms_read_facts [OF this] 2 assms(3) data phase show ?thesis by (simp add: blocking_def)
      next
        case 3
        with assms(1) t have "ms_write p ms = Inr (p', ms')" by (simp add: ms_filter_packet_def)
        from ms_write_blocked [OF this] 3 assms(3) data phase show ?thesis
          by (auto simp: blocking_def)
      next
        case 1
        with assms(1) t have "p' = p" "ms' = ms" by (simp_all add: ms_filter_packet_def)
        with 1 assms(3) data phase show ?thesis by simp
      qed
    next
      case other
      then have "packet_type p (ms_state ms) = Inr UNKNOWN"
        using packet_type_eq [OF assms(2)] by (auto simp: command_def)
      with assms(1) have "p' = p" "ms' = ms" by (simp_all add: ms_filter_packet_def)
      with assms(3) other show ?thesis by (simp add: next_phase_def)
    qed
  qed
  then show "blocking ms'" "ms_state ms' = next_phase (ms_state ms) p"
    "pk_transmit p' = (pk_transmit p \<and> \<not> command 0x2a p \<and> \<not> (data_block p \<and> ms_state ms = WRITE))"
    by auto
qed

text \<open>C7: with write blocking on (and no in-band signalling) no write reaches the device: over any
  sequence of packets, exactly the write commands and the data blocks that follow one, up to the
  next status or read command, lose their \<open>transmit\<close> flag.\<close>

theorem writes_are_blocked:
  assumes "ms_run ps ms = Inr (ps', ms')" "\<forall>p\<in>set ps. packet_ok p" "blocking ms"
  shows "length ps' = length ps \<and> (\<forall>i<length ps. pk_transmit (ps' ! i) =
    (pk_transmit (ps ! i) \<and> \<not> command 0x2a (ps ! i) \<and>
     \<not> (data_block (ps ! i) \<and> foldl next_phase (ms_state ms) (take i ps) = WRITE)))"
  using assms
proof (induction ps arbitrary: ms ps')
  case (Cons p ps)
  from Cons.prems(1) obtain p1 ms1 ps1 where 1: "ms_filter_packet p ms = Inr (p1, ms1)"
    "ms_run ps ms1 = Inr (ps1, ms')" "ps' = p1 # ps1"
    by (auto simp: res_simps)
  have ok: "packet_ok p" using Cons.prems(2) by simp
  note step = ms_step_blocking [OF 1(1) ok Cons.prems(3)]
  have IH: "length ps1 = length ps \<and> (\<forall>i<length ps. pk_transmit (ps1 ! i) =
    (pk_transmit (ps ! i) \<and> \<not> command 0x2a (ps ! i) \<and>
     \<not> (data_block (ps ! i) \<and> foldl next_phase (ms_state ms1) (take i ps) = WRITE)))"
    using Cons.IH [OF 1(2) _ step(1)] Cons.prems(2) by simp
  show ?case
  proof (intro conjI allI impI)
    fix i assume "i < length (p # ps)"
    then show "pk_transmit (ps' ! i) = (pk_transmit ((p # ps) ! i) \<and> \<not> command 0x2a ((p # ps) ! i) \<and>
      \<not> (data_block ((p # ps) ! i) \<and> foldl next_phase (ms_state ms) (take i (p # ps)) = WRITE))"
      using IH step(2,3) 1(3) by (cases i) simp_all
  qed (use IH 1(3) in simp)
qed simp

definition sample_write :: packet where
  "sample_write = new_packet 2 (Some ([0x55, 0x53, 0x42, 0x43, 1, 2, 3, 4, 0, 2, 0, 0, 0, 0, 10, 0x2a,
     0, 0, 0, 0, 9, 0, 0, 1] @ replicate 7 0)) 31"

theorem writes_are_blocked_witness:
  "\<exists>ps' ms'. ms_run [sample_write] (new_mass_storage True False False [] []) = Inr (ps', ms') \<and>
    length ps' = length [sample_write] \<and>
    (\<forall>i<length [sample_write]. pk_transmit (ps' ! i) =
      (pk_transmit ([sample_write] ! i) \<and> \<not> command 0x2a ([sample_write] ! i) \<and>
       \<not> (data_block ([sample_write] ! i) \<and>
          foldl next_phase (ms_state (new_mass_storage True False False [] []))
            (take i [sample_write]) = WRITE))) \<and>
    \<not> pk_transmit (hd ps')"
proof -
  let ?ms = "new_mass_storage True False False [] []"
  have ok: "packet_ok sample_write" by (simp add: packet_ok_def sample_write_def new_packet_def)
  have cmd: "command 0x2a sample_write"
    by (simp add: command_def sample_write_def new_packet_def)
  have "packet_type sample_write IDLE = Inr COMMAND"
    using packet_type_eq [OF ok] cmd not_data_block(3) by (auto simp: command_def)
  then have "\<exists>ps' ms'. ms_run [sample_write] ?ms = Inr (ps', ms')"
    using cmd by (auto simp: ms_filter_packet_def new_mass_storage_def sample_write_def
        new_packet_def command_def and_then_eq_Inr split: prod.split)
  then obtain ps' ms' where run: "ms_run [sample_write] ?ms = Inr (ps', ms')" by blast
  have b: "blocking ?ms" by (simp add: blocking_def new_mass_storage_def)
  have all: "\<forall>p\<in>set [sample_write]. packet_ok p" using ok by simp
  from writes_are_blocked [OF run all b] have w: "length ps' = length [sample_write] \<and>
    (\<forall>i<length [sample_write]. pk_transmit (ps' ! i) =
      (pk_transmit ([sample_write] ! i) \<and> \<not> command 0x2a ([sample_write] ! i) \<and>
       \<not> (data_block ([sample_write] ! i) \<and>
          foldl next_phase (ms_state ?ms) (take i [sample_write]) = WRITE)))" .
  then have "\<not> pk_transmit (hd ps')" using cmd by (cases ps') auto
  with run w show ?thesis by blast
qed

section \<open>The false status\<close>

lemma ms_write_total:
  assumes "blocking ms" "pk_data p = Some d" "BLOCK_SIZE \<le> length d"
  shows "\<exists>p' ms'. ms_write p ms = Inr (p', ms')"
  using assms
  by (cases "ms_cache_blocks ms")
    (auto simp: ms_write_def cache_write_eq blocking_def and_then_eq_Inr cache_put_def)

definition full_block :: "packet \<Rightarrow> bool" where
  "full_block p \<longleftrightarrow> packet_ok p \<and> pk_wLength p = 512"

lemma full_block_type: "full_block p \<Longrightarrow> packet_type p st = Inr st"
  by (auto simp: full_block_def packet_type_eq status_block_def data_block_def)

lemma full_block_data: "full_block p \<Longrightarrow> \<exists>d. pk_data p = Some d \<and> BLOCK_SIZE \<le> length d"
  by (auto simp: full_block_def packet_ok_def BLOCK_SIZE_def)

lemma ms_run_blocks:
  assumes "\<forall>p\<in>set ds. full_block p" "blocking ms" "ms_state ms = WRITE"
    and "ms_block_count ms = ms_block_offset ms + of_nat (length ds)" "length ds < 65536"
  shows "\<exists>outs ms'. ms_run ds ms = Inr (outs, ms') \<and> (\<forall>p\<in>set outs. \<not> pk_transmit p) \<and>
    ms_pipe ms' = (if ds = [] then ms_pipe ms else ms_pipe ms @ [ms_tag ms])"
  using assms
proof (induction ds arbitrary: ms)
  case (Cons p ds)
  obtain d where "pk_data p = Some d" "BLOCK_SIZE \<le> length d"
    using full_block_data Cons.prems(1) by auto
  with ms_write_total [OF Cons.prems(2)] obtain p' ms1 where w: "ms_write p ms = Inr (p', ms1)"
    by blast
  obtain c where 1: "p' = p\<lparr>pk_transmit := False\<rparr>"
    "ms1 = ms\<lparr>ms_block_offset := ms_block_offset ms + 1, ms_cache := c,
      ms_pipe := (if ms_block_offset ms + 1 = ms_block_count ms then ms_pipe ms @ [ms_tag ms]
        else ms_pipe ms)\<rparr>"
    using ms_write_blocked [OF w] Cons.prems(2) by (auto simp: blocking_def)
  have last: "ms_block_offset ms + 1 = ms_block_count ms \<longleftrightarrow> ds = []"
  proof -
    have "unat (of_nat (length (p # ds)) :: u32) = length (p # ds)"
      using Cons.prems(5) by (simp add: unat_of_nat take_bit_eq_mod del: of_nat_Suc)
    then have "(of_nat (length (p # ds)) :: u32) = 1 \<longleftrightarrow> length (p # ds) = 1"
      by (metis of_nat_1 unat_1)
    with Cons.prems(4) show ?thesis by (auto simp: add.commute)
  qed
  have "blocking ms1" "ms_state ms1 = WRITE"
    "ms_block_count ms1 = ms_block_offset ms1 + of_nat (length ds)"
    using Cons.prems(2-4) 1(2) by (simp_all add: blocking_def add.assoc)
  from Cons.IH [OF _ this] Cons.prems(1,5) obtain outs ms' where
    "ms_run ds ms1 = Inr (outs, ms')" "\<forall>p\<in>set outs. \<not> pk_transmit p"
    "ms_pipe ms' = (if ds = [] then ms_pipe ms1 else ms_pipe ms1 @ [ms_tag ms1])" by auto
  moreover have "ms_filter_packet p ms = Inr (p', ms1)"
    using w full_block_type Cons.prems(1,3) by (simp add: ms_filter_packet_def)
  ultimately show ?case using 1 last by (auto simp: and_then_eq_Inr)
qed simp



end
