(* ===== verification/Plugin_Filters.thy ===== *)
theory Plugin_Filters
  imports Mass_Storage
begin

text \<open>
  The remaining filters that rewrite packets, UDPHID and Power (\<open>src/Plugins/Filters\<close>), the datagram
  format of the UDP injectors (\<open>src/Plugins/Injectors\<close>), and the chain of the filters of the
  development as an instance of the interface of the relays.
\<close>

section \<open>UDPHID\<close>

text \<open>The report buffer belongs to the injector \<open>Injector_UDPHID\<close>: the last controller report it
  received, which is merged into the reports of the device.\<close>

definition udphid_base :: filter_base where
  "udphid_base = new_filter_base
     \<lparr>fb_interface := any_interface\<lparr>ci_deviceClass := 0xff, ci_subClass := 0x5d\<rparr>,
      fb_endpoint := any_endpoint\<lparr>ce_address := 0x80, ce_addressMask := 0x80\<rparr>,
      fb_maskLength := 2, fb_header := (replicate 8 0)[0 := 0, 1 := 20],
      fb_headerMask := (replicate 8 0)[0 := 0xff, 1 := 0xff],
      fb_setupIn := False, fb_setupOut := False\<rparr>"

fun udphid_loop :: "bytes \<Rightarrow> nat list \<Rightarrow> bytes \<Rightarrow> bytes res" where
  "udphid_loop report [] d = Inr d"
| "udphid_loop report (i # is) d =
     and_then (index report i) (\<lambda>r.
       if r \<noteq> 0 then and_then (store d i r) (udphid_loop report is) else udphid_loop report is d)"

definition udphid_or :: "bytes \<Rightarrow> nat \<Rightarrow> bytes \<Rightarrow> bytes res" where
  "udphid_or report i d =
     and_then (index report i) (\<lambda>r. and_then (index d i) (\<lambda>x. store d i (x OR r)))"

definition udphid_filter_packet :: "bytes \<Rightarrow> packet \<Rightarrow> packet res" where
  "udphid_filter_packet report p =
     (if pk_wLength p \<noteq> 20 then Inr p
      else and_then (deref (pk_data p)) (\<lambda>d.
        and_then (udphid_or report 2 d) (\<lambda>d. and_then (udphid_or report 3 d) (\<lambda>d.
          and_then (udphid_loop report [4..<14] d) (\<lambda>d. Inr (p\<lparr>pk_data := Some d\<rparr>))))))"

section \<open>Power\<close>

text \<open>\<open>PacketFilter_Power::filter_setup_packet\<close> writes \<open>bmAttributes\<close> (offset 7) and \<open>bMaxPower\<close>
  (offset 8) of a configuration descriptor.\<close>

definition power_filter_setup_packet :: "setup_packet \<Rightarrow> bool \<Rightarrow> setup_packet res" where
  "power_filter_setup_packet p direction_in =
     (if direction_in \<and> cr_bRequest (sp_ctrl_req p) = USB_REQ_GET_DESCRIPTOR
       \<and> cr_wValue (sp_ctrl_req p) = ucast USB_DT_CONFIG then
        and_then (deref (pk_data p)) (\<lambda>d. and_then (store d 7 0x80) (\<lambda>d.
          and_then (store d 8 0x32) (\<lambda>d. Inr (p\<lparr>pk_data := Some d\<rparr>))))
      else Inr p)"

section \<open>The UDP injectors\<close>

text \<open>
  \<open>get_packets\<close> of \<open>Injector_UDP\<close>: the datagram was received at the start of a buffer of
  \<open>UDP_BUFFER_SIZE\<close> bytes, whose other bytes are those of earlier datagrams. A first byte that is
  not zero addresses an endpoint; otherwise a control request follows at offset 3. The flags of a
  setup packet are assigned from the complement of an \<open>int\<close>, which is never zero.
\<close>

definition UDP_BUFFER_SIZE :: nat where "UDP_BUFFER_SIZE = 1472"

datatype injected = InjPacket packet | InjSetup setup_packet

definition receive :: "bytes \<Rightarrow> bytes \<Rightarrow> bytes" where
  "receive datagram buf =
     take UDP_BUFFER_SIZE datagram @ drop (length (take UDP_BUFFER_SIZE datagram)) buf"

definition complement_flag :: "u8 \<Rightarrow> bool" where
  "complement_flag bits = (NOT (uint bits) \<noteq> 0)"

definition udp_get_packets :: "bytes \<Rightarrow> injected res" where
  "udp_get_packets buf =
     and_then (index buf 0) (\<lambda>ep. and_then (index buf 1) (\<lambda>flags.
       if ep \<noteq> 0 then
         and_then (index buf 2) (\<lambda>hi. and_then (index buf 3) (\<lambda>lo.
           let usblen = le16 lo hi in
           and_then (first_n (drop 4 buf) (unat usblen)) (\<lambda>usbbuf.
             Inr (InjPacket ((new_packet ep (Some usbbuf) (uint usblen))
               \<lparr>pk_filter := (flags AND 0x01 = 0), pk_transmit := (flags AND 0x02 = 0)\<rparr>)))))
       else
         and_then (first_n (drop 3 buf) 8) (\<lambda>req.
           let ctrl_req = ctrl_of_bytes req in
           and_then (if cr_bRequestType ctrl_req AND 0x80 \<noteq> 0 then Inr None
                     else and_then (first_n (drop 11 buf) (unat (cr_wLength ctrl_req))) (\<lambda>b.
                       Inr (Some b))) (\<lambda>usbbuf.
             Inr (InjSetup ((new_setup_packet ctrl_req usbbuf True)
               \<lparr>sp_filter_out := complement_flag (flags AND 0x01),
                sp_transmit_out := complement_flag (flags AND 0x02),
                sp_filter_in := complement_flag (flags AND 0x04),
                sp_transmit_in := complement_flag (flags AND 0x08)\<rparr>))))))"

text \<open>The datagram for an endpoint.\<close>

definition datagram :: "u8 \<Rightarrow> u8 \<Rightarrow> bytes \<Rightarrow> bytes" where
  "datagram ep flags d = [ep, flags, hi8 (of_nat (length d)), lo8 (of_nat (length d))] @ d"

text \<open>The UDP injector delivers what was sent: a datagram for an endpoint, with data that fits
  into the buffer, becomes the packet with exactly that data for that endpoint, whatever earlier
  datagrams left in the buffer.\<close>

theorem udp_datagram_round_trip:
  assumes "ep \<noteq> 0" "length d + 4 \<le> UDP_BUFFER_SIZE"
  shows "udp_get_packets (receive (datagram ep flags d) buf) = Inr (InjPacket
    \<lparr>pk_bEndpoint = ep, pk_wLength = of_nat (length d), pk_filter = (flags AND 1 = 0),
     pk_transmit = (flags AND 2 = 0), pk_data = Some d\<rparr>)"
proof -
  have "unat (of_nat (length d) :: u16) = length d"
    using assms(2) by (intro unat_of_nat_u16) (simp add: UDP_BUFFER_SIZE_def)
  then show ?thesis
    using assms
    by (simp add: udp_get_packets_def receive_def datagram_def Let_def new_packet_def)
qed

theorem udp_datagram_round_trip_witness:
  "udp_get_packets (receive (datagram 0x81 0 [1, 2, 3]) (replicate 1472 9)) = Inr (InjPacket
    \<lparr>pk_bEndpoint = 0x81, pk_wLength = of_nat (length [1 :: u8, 2, 3]), pk_filter = ((0 :: u8) AND 1 = 0),
     pk_transmit = ((0 :: u8) AND 2 = 0), pk_data = Some [1, 2, 3]\<rparr>)"
  by (rule udp_datagram_round_trip) (simp_all add: UDP_BUFFER_SIZE_def)

text \<open>The flags of an injected control request have no effect: whatever flags the datagram
  has, the setup packet is filtered and transmitted in both directions.\<close>

theorem udp_setup_flags_ignored:
  assumes "udp_get_packets buf = Inr (InjSetup s)"
  shows "sp_filter_out s \<and> sp_transmit_out s \<and> sp_filter_in s \<and> sp_transmit_in s"
proof -
  have flag: "complement_flag x" for x
  proof -
    have "0 \<le> uint x" by simp
    then have "- uint x - 1 \<noteq> 0" by linarith
    then show ?thesis unfolding complement_flag_def not_int_def .
  qed
  from assms show ?thesis
    by (auto simp: udp_get_packets_def and_then_eq_Inr Let_def flag split: if_splits)
qed

theorem udp_setup_flags_ignored_witness:
  "let s = (new_setup_packet (ctrl_of_bytes [0x80, 6, 0, 1, 0, 0, 18, 0]) None True) in
   udp_get_packets ([0, 0x0f, 0, 0x80, 6, 0, 1, 0, 0, 18, 0]) = Inr (InjSetup s) \<and>
   sp_filter_out s \<and> sp_transmit_out s \<and> sp_filter_in s \<and> sp_transmit_in s"
proof -
  let ?s = "new_setup_packet (ctrl_of_bytes [0x80, 6, 0, 1, 0, 0, 18, 0]) None True"
  have "udp_get_packets ([0, 0x0f, 0, 0x80, 6, 0, 1, 0, 0, 18, 0]) = Inr (InjSetup ?s)"
    by (simp add: udp_get_packets_def Let_def ctrl_of_bytes_def complement_flag_def
        new_setup_packet_def not_int_def)
  with udp_setup_flags_ignored [OF this] show ?thesis by (simp add: Let_def)
qed

section \<open>The chain of the development's filters\<close>

text \<open>The state the filters of a chain share: the mass storage filter's and the report buffer.\<close>

type_synonym chain_state = "mass_storage \<times> bytes"

definition ms_filter :: "filter_base \<Rightarrow> chain_state pfilter" where
  "ms_filter fb =
     \<lparr>fl_base = fb,
      fl_packet = (\<lambda>p (ms, report). and_then (ms_filter_packet p ms) (\<lambda>(p', ms').
        Inr (p', ms', report))),
      fl_setup = base_filter_setup_packet\<rparr>"

definition udphid_filter :: "chain_state pfilter" where
  "udphid_filter =
     \<lparr>fl_base = udphid_base,
      fl_packet = (\<lambda>p (ms, report). and_then (udphid_filter_packet report p) (\<lambda>p'.
        Inr (p', ms, report))),
      fl_setup = base_filter_setup_packet\<rparr>"

definition power_filter :: "filter_base \<Rightarrow> chain_state pfilter" where
  "power_filter fb =
     \<lparr>fl_base = fb, fl_packet = base_filter_packet,
      fl_setup = (\<lambda>p direction st. and_then (power_filter_setup_packet p direction) (\<lambda>p'.
        Inr (p', st)))\<rparr>"

definition cache_wf :: "mass_storage \<Rightarrow> bool" where
  "cache_wf ms \<longleftrightarrow> (\<forall>a b. ms_cache ms a = Some b \<longrightarrow> length b = BLOCK_SIZE)"

lemma rot13_filter_size: "rot13_filter_packet p = Inr p' \<Longrightarrow> packet_ok p \<Longrightarrow> same_size p p'"
  by (auto simp: rot13_filter_packet_def res_simps same_size_def packet_ok_def
      dest: rot13_loop_length)

lemma udphid_loop_length: "udphid_loop report is d = Inr d' \<Longrightarrow> length d' = length d"
  by (induction report "is" d rule: udphid_loop.induct) (auto simp: res_simps split: if_splits)

lemma udphid_or_length: "udphid_or report i d = Inr d' \<Longrightarrow> length d' = length d"
  by (auto simp: udphid_or_def res_simps)

lemma packet_ok_data:
  "packet_ok p \<Longrightarrow> pk_data p = Some d \<Longrightarrow> length d' = length d \<Longrightarrow> same_size p (p\<lparr>pk_data := Some d'\<rparr>)"
  by (simp add: same_size_def packet_ok_def)

lemma same_size_refl: "packet_ok p \<Longrightarrow> same_size p p" "packet_ok p \<Longrightarrow> same_size p (p\<lparr>pk_transmit := b\<rparr>)"
  by (simp_all add: same_size_def packet_ok_def)

lemma udphid_filter_size:
  assumes "udphid_filter_packet report p = Inr p'" "packet_ok p"
  shows "same_size p p'"
proof (cases "pk_wLength p = 20")
  case True
  with assms(1) obtain d d1 d2 d3 where "pk_data p = Some d" "udphid_or report 2 d = Inr d1"
    "udphid_or report 3 d1 = Inr d2" "udphid_loop report [4..<14] d2 = Inr d3"
    "p' = p\<lparr>pk_data := Some d3\<rparr>"
    unfolding udphid_filter_packet_def
    by (simp add: and_then_eq_Inr deref_eq_Inr del: udphid_loop.simps upt_Suc) blast
  with assms(2) show ?thesis
    using udphid_or_length udphid_loop_length by (metis packet_ok_data)
qed (use assms in \<open>simp add: udphid_filter_packet_def same_size_refl\<close>)

lemma cache_wf_upd:
  "cache_wf ms \<Longrightarrow> length b = BLOCK_SIZE \<Longrightarrow> cache_wf (ms\<lparr>ms_cache := (ms_cache ms)(a \<mapsto> b)\<rparr>)"
  by (simp add: cache_wf_def)

lemma cache_wf_same: "ms_cache ms' = ms_cache ms \<Longrightarrow> cache_wf ms' = cache_wf ms"
  by (simp add: cache_wf_def)

lemma cache_read_size:
  assumes "cache_read a d ms = Inr (d', ms')" "cache_wf ms"
  shows "length d' = length d \<and> cache_wf ms'"
proof (cases "ms_cache ms a")
  case None
  with assms show ?thesis by (auto simp: cache_read_def res_simps intro!: cache_wf_upd)
next
  case (Some b)
  with assms show ?thesis by (auto simp: cache_read_def res_simps cache_wf_def)
qed

lemma ms_read_size:
  assumes "ms_read p ms = Inr (p', ms')" "packet_ok p" "cache_wf ms"
  shows "same_size p p' \<and> cache_wf ms'"
proof (cases "ms_cache_blocks ms")
  case False
  with assms show ?thesis by (auto simp: ms_read_def same_size_refl cache_wf_def)
next
  case True
  let ?a = "ms_block_offset ms + ms_base_address ms"
  from True assms(1) obtain d d' ms1 where 1: "pk_data p = Some d" "cache_read ?a d ms = Inr (d', ms1)"
    "p' = p\<lparr>pk_data := Some d'\<rparr>" "ms' = ms1\<lparr>ms_block_offset := ms_block_offset ms1 + 1\<rparr>"
    by (auto simp: ms_read_def and_then_eq_Inr deref_eq_Inr)
  with cache_read_size [OF 1(2) assms(3)] assms(2) packet_ok_data show ?thesis
    by (simp add: cache_wf_def)
qed

lemma cache_write_wf: "cache_write a d ms = Inr ms' \<Longrightarrow> cache_wf ms \<Longrightarrow> cache_wf ms'"
  by (auto simp: cache_write_def res_simps intro!: cache_wf_upd)

lemma check_for_password_cache:
  "check_for_password d ms = Inr ms' \<Longrightarrow> ms_cache ms' = ms_cache ms"
  by (auto simp: check_for_password_def and_then_eq_Inr split: if_splits)

lemma ms_write_size:
  assumes "ms_write p ms = Inr (p', ms')" "packet_ok p" "cache_wf ms"
  shows "same_size p p' \<and> cache_wf ms'"
proof -
  from assms(1) [unfolded ms_write_def and_then_eq_Inr] obtain ms1 ms2 where
    1: "(if ms_cache_blocks ms then and_then (deref (pk_data p)) (\<lambda>d.
          cache_write (ms_block_offset ms + ms_base_address ms) d ms) else Inr ms) = Inr ms1"
    and 2: "(if ms_inband_signalling ms1 then and_then (deref (pk_data p)) (\<lambda>d.
          check_for_password d ms1) else Inr ms1) = Inr ms2"
    and "Inr (if ms_block_writes ms2 then
                (let ms3 = ms2\<lparr>ms_block_offset := ms_block_offset ms2 + 1\<rparr> in
                 (p\<lparr>pk_transmit := False\<rparr>,
                  if ms_block_offset ms3 = ms_block_count ms3 then queue_packet ms3 else ms3))
              else (p, ms2)) = (Inr (p', ms') :: (packet \<times> mass_storage) res)"
    by blast
  then have 3: "(p' = p \<or> p' = p\<lparr>pk_transmit := False\<rparr>) \<and> ms_cache ms' = ms_cache ms2"
    by (simp add: Let_def queue_packet_def split: if_splits) auto
  have "cache_wf ms1"
  proof (cases "ms_cache_blocks ms")
    case True
    with 1 cache_write_wf assms(3) show ?thesis by (simp add: and_then_eq_Inr) blast
  qed (use 1 assms(3) in simp)
  moreover have "ms_cache ms2 = ms_cache ms1"
  proof (cases "ms_inband_signalling ms1")
    case True
    with 2 check_for_password_cache show ?thesis by (simp add: and_then_eq_Inr) blast
  qed (use 2 in simp)
  ultimately have "cache_wf ms'" using 3 cache_wf_same by metis
  with 3 assms(2) same_size_refl show ?thesis by blast
qed

lemma ms_filter_size:
  assumes "ms_filter_packet p ms = Inr (p', ms')" "packet_ok p" "cache_wf ms"
  shows "same_size p p' \<and> cache_wf ms'"
proof -
  from assms(1) obtain ty where ty: "packet_type p (ms_state ms) = Inr ty"
    by (auto simp: ms_filter_packet_def and_then_eq_Inr)
  have cmd: "ms_command p d ms = (p', ms') \<Longrightarrow> same_size p p' \<and> cache_wf ms'" for d
    using assms(2,3) same_size_refl
    by (auto simp: ms_command_def set_transfer_def Let_def cache_wf_def split: if_splits)
  show ?thesis
  proof (cases ty)
    case COMMAND
    with ty assms(1) cmd show ?thesis by (auto simp: ms_filter_packet_def and_then_eq_Inr)
  next
    case STATUS
    with ty assms show ?thesis
      by (auto simp: ms_filter_packet_def and_then_eq_Inr same_size_refl cache_wf_def)
  qed (use ty assms ms_read_size ms_write_size in
      \<open>auto simp: ms_filter_packet_def same_size_refl\<close>)
qed

definition all_filters :: "filter_base \<Rightarrow> chain_state pfilter list" where
  "all_filters fb = [rot13_filter fb, udphid_filter, power_filter fb, ms_filter fb]"

interpretation chain: filter_chain "all_filters fb" "\<lambda>(ms, report). cache_wf ms" for fb
proof unfold_locales
  fix f p st p' st'
  assume "f \<in> set (all_filters fb)" "packet_ok p" "case st of (ms, report) \<Rightarrow> cache_wf ms"
    "fl_packet f p st = Inr (p', st')"
  then show "same_size p p' \<and> (case st' of (ms, report) \<Rightarrow> cache_wf ms)"
    by (auto simp: all_filters_def rot13_filter_def udphid_filter_def power_filter_def
        ms_filter_def base_filter_packet_def and_then_eq_Inr rot13_filter_size
        udphid_filter_size dest: ms_filter_size) (auto simp: same_size_def)
qed

text \<open>No combination of the filters changes the size of a packet: what the chain of ROT13,
  UDPHID, Power and mass storage filters hands on has the endpoint, the length and as many bytes
  of data as the packet it was given.\<close>

theorem filters_keep_size:
  assumes "apply_filters (all_filters fb) p (ms, report) = Inr (p', ms', report')"
    and "packet_ok p" "cache_wf ms"
  shows "pk_bEndpoint p' = pk_bEndpoint p \<and> pk_wLength p' = pk_wLength p \<and> packet_ok p'"
  using chain.apply_filters_size [OF assms(1,2)] assms(3) by (simp add: same_size_def)

theorem filters_keep_size_witness:
  "let p = new_packet 0x81 (Some [0, 0, 4, 0, 0, 0, 0, 0]) 8; ms = new_mass_storage True False False [] [] in
   \<exists>p'. apply_filters (all_filters new_filter_base) p (ms, replicate 20 0) = Inr (p', ms, replicate 20 0) \<and>
     the (pk_data p') ! 2 = 17 \<and>
     pk_bEndpoint p' = pk_bEndpoint p \<and> pk_wLength p' = pk_wLength p \<and> packet_ok p'"
proof -
  let ?p = "new_packet 0x81 (Some [0, 0, 4, 0, 0, 0, 0, 0]) 8"
  let ?p' = "new_packet 0x81 (Some [0, 0, 17, 0, 0, 0, 0, 0]) 8"
  let ?ms = "new_mass_storage True False False [] []"
  have ok: "packet_ok ?p" "packet_ok ?p'" by (simp_all add: packet_ok_def new_packet_def)
  have rot: "rot13_filter_packet ?p = Inr ?p'"
    by (simp add: rot13_filter_packet_def new_packet_def rot13_byte_def upt_rec index_def store_def)
  have base: "test_packet new_filter_base q = Inr True" for q
    by (simp add: test_packet_def new_filter_base_def)
  have hid: "test_packet udphid_base ?p' = Inr False"
    by (simp add: test_packet_def udphid_base_def new_packet_def new_filter_base_def upt_rec
        index_def)
  have ms: "ms_filter_packet ?p' ?ms = Inr (?p', ?ms)"
    by (simp add: ms_filter_packet_def packet_type_eq [OF ok(2)] status_block_def data_block_def)
      (simp add: new_packet_def)
  have run: "apply_filters (all_filters new_filter_base) ?p (?ms, replicate 20 0)
      = Inr (?p', ?ms, replicate 20 0)"
    using rot base hid ms
    by (simp add: all_filters_def rot13_filter_def udphid_filter_def power_filter_def ms_filter_def
        base_filter_packet_def)
  have wf: "cache_wf ?ms" by (simp add: cache_wf_def new_mass_storage_def)
  from filters_keep_size [OF run ok(1) wf] run show ?thesis
    by (auto simp: Let_def new_packet_def)
qed

end
