(* ===== verification/Relay.thy ===== *)
theory Relay
  imports Plugin_Filters Safe_Queue
begin

text \<open>
  The relay threads (\<open>src/lib/RelayReader.cpp\<close>, \<open>src/lib/RelayWriter.cpp\<close>). Endpoint 0: a reader
  takes control requests from the host, a writer filters them, passes them to the device and
  sends the answered packet back through a second queue, and the reader answers the host.
  Other endpoints: a reader enqueues the blocks that its proxy receives, a writer filters and
  sends them. The proxies are parameters; the threads' interleavings are step relations over the
  queues of \<open>Safe_Queue\<close>. (The loops count filters in a byte: fewer than 256 are assumed.)
\<close>

section \<open>The control writer\<close>

text \<open>\<open>control_request\<close> of a device proxy: return code, the number stored through \<open>nbytes\<close> if it
  stores one, the bytes stored in the buffer of an IN transfer, and its next state.\<close>

type_synonym 'd dev = "usb_ctrlrequest \<Rightarrow> bytes option \<Rightarrow> 'd \<Rightarrow> (int \<times> int option \<times> bytes) \<times> 'd"

text \<open>One of the two filter loops, from filter \<open>j\<close> on; it stops when a filter clears the flag.\<close>

fun setup_filters ::
  "bool \<Rightarrow> 's pfilter list \<Rightarrow> nat \<Rightarrow> setup_packet \<Rightarrow> 's \<Rightarrow> (nat \<times> setup_packet \<times> 's) res" where
  "setup_filters out [] j s st = Inr (j, s, st)"
| "setup_filters out (f # fs) j s st =
     (if \<not> (if out then sp_filter_out s else sp_filter_in s) then Inr (j, s, st)
      else and_then (test_setup_packet (fl_base f) s out) (\<lambda>hit.
        and_then (if hit then fl_setup f s out st else Inr (s, st)) (\<lambda>(s', st').
          setup_filters out fs (j + 1) s' st')))"

text \<open>The state the writer carries from one request to the next: the filters', the device's and
  its variable \<open>length\<close>, which has no value before the first request.\<close>

record ('s, 'd) writer_state =
  ws_filters :: 's
  ws_device :: 'd
  ws_length :: "int option"

text \<open>The transfer itself: the packet to send back, its position \<open>j\<close> in the filters, and the
  configuration that the manager is told about.\<close>

definition writer_transfer ::
  "'d dev \<Rightarrow> nat \<Rightarrow> setup_packet \<Rightarrow> ('s, 'd) writer_state \<Rightarrow>
   (nat \<times> setup_packet \<times> u16 option \<times> ('s, 'd) writer_state) res" where
  "writer_transfer dev j s ws =
     (let r = sp_ctrl_req s in
      if cr_bRequestType r AND 0x80 \<noteq> 0 then
        (case dev r None (ws_device ws) of ((rc, nb, bs), d') \<Rightarrow>
           if length bs > unat (cr_wLength r) then Inl OutOfBounds
           else
             (case (case nb of Some n \<Rightarrow> Some n | None \<Rightarrow> ws_length ws) of
                None \<Rightarrow> Inl Uninit
              | Some len \<Rightarrow>
                  Inr (0, s\<lparr>pk_data := Some bs, sp_transmit_in := (rc \<ge> 0),
                           sp_ctrl_req := r\<lparr>cr_wLength := of_int len\<rparr>\<rparr>,
                       None, ws\<lparr>ws_device := d', ws_length := Some len\<rparr>)))
      else
        (case dev r (pk_data s) (ws_device ws) of ((rc, nb, bs), d') \<Rightarrow>
           Inr (j, s\<lparr>sp_transmit_in := (rc \<ge> 0), sp_ctrl_req := r\<lparr>cr_wLength := 0\<rparr>\<rparr>,
                if cr_bRequest r = 9 \<and> cr_bRequestType r = 0 then Some (cr_wValue r) else None,
                ws\<lparr>ws_device := d',
                   ws_length := Some (case nb of Some n \<Rightarrow> n | None \<Rightarrow> uint (cr_wLength r))\<rparr>)))"

text \<open>One round of \<open>relay_write_setup\<close> for a packet; \<open>None\<close> is the \<open>continue\<close> after
  \<open>!s->transmit_out\<close>.\<close>

definition relay_write_setup ::
  "'s pfilter list \<Rightarrow> 'd dev \<Rightarrow> setup_packet \<Rightarrow> ('s, 'd) writer_state \<Rightarrow>
   (setup_packet option \<times> u16 option \<times> ('s, 'd) writer_state) res" where
  "relay_write_setup filters dev s ws =
     and_then (setup_filters True filters 0 s (ws_filters ws)) (\<lambda>(j, s1, st1).
       if \<not> sp_transmit_out s1 then Inr (None, None, ws\<lparr>ws_filters := st1\<rparr>)
       else and_then (writer_transfer dev j s1 (ws\<lparr>ws_filters := st1\<rparr>)) (\<lambda>(j2, s2, cfg, ws2).
         and_then (setup_filters False (drop j2 filters) j2 s2 (ws_filters ws2)) (\<lambda>(j3, s3, st3).
           Inr (Some s3, cfg, ws2\<lparr>ws_filters := st3\<rparr>))))"

section \<open>The control reader\<close>

datatype host_act = SendData bytes | ControlAck | StallEp

text \<open>What the reader does with an answered packet.\<close>

definition reply_action :: "setup_packet \<Rightarrow> host_act res" where
  "reply_action s =
     (if sp_transmit_in s then
        (if cr_wLength (sp_ctrl_req s) \<noteq> 0 then
           and_then (deref (pk_data s)) (\<lambda>d.
             and_then (first_n d (unat (cr_wLength (sp_ctrl_req s)))) (\<lambda>b. Inr (SendData b)))
         else Inr ControlAck)
      else Inr StallEp)"

text \<open>
  The two threads and their queues. \<open>e_direction_out\<close> and \<open>e_p\<close> are the variables of
  \<open>relay_read_setup\<close>; \<open>e_requests\<close> and \<open>e_replies\<close> record what was taken from the host and what was
  answered, \<open>e_configs\<close> the calls of \<open>Manager::setConfig\<close>.
\<close>

record ('s, 'd) ep0 =
  e_out :: "setup_packet safe_queue"
  e_in :: "setup_packet safe_queue"
  e_direction_out :: bool
  e_p :: "setup_packet option"
  e_ws :: "('s, 'd) writer_state"
  e_requests :: "usb_ctrlrequest list"
  e_replies :: "host_act list"
  e_configs :: "u16 list"

definition ep0_init :: "('s, 'd) writer_state \<Rightarrow> ('s, 'd) ep0" where
  "ep0_init ws =
     \<lparr>e_out = new_queue, e_in = new_queue, e_direction_out = True, e_p = None, e_ws = ws,
      e_requests = [], e_replies = [], e_configs = []\<rparr>"

inductive ep0_step :: "'s pfilter list \<Rightarrow> 'd dev \<Rightarrow> ('s, 'd) ep0 \<Rightarrow> ('s, 'd) ep0 \<Rightarrow> bool"
  for filters dev where
  request: "e_direction_out e \<Longrightarrow>
    ep0_step filters dev e (e\<lparr>e_out := enqueue (new_setup_packet r d True) (e_out e),
      e_direction_out := False, e_requests := e_requests e @ [r]\<rparr>)"
| write_back: "dequeue (e_out e) = (Some s, q) \<Longrightarrow>
    relay_write_setup filters dev s (e_ws e) = Inr (Some s', cfg, ws') \<Longrightarrow>
    ep0_step filters dev e (e\<lparr>e_out := q, e_in := enqueue s' (e_in e), e_ws := ws',
      e_configs := e_configs e @ (case cfg of None \<Rightarrow> [] | Some v \<Rightarrow> [v])\<rparr>)"
| drop_packet: "dequeue (e_out e) = (Some s, q) \<Longrightarrow>
    relay_write_setup filters dev s (e_ws e) = Inr (None, cfg, ws') \<Longrightarrow>
    ep0_step filters dev e (e\<lparr>e_out := q, e_ws := ws'\<rparr>)"
| reply: "\<not> e_direction_out e \<Longrightarrow> e_p e = None \<Longrightarrow> dequeue (e_in e) = (Some s, q) \<Longrightarrow>
    reply_action s = Inr a \<Longrightarrow>
    ep0_step filters dev e (e\<lparr>e_in := q, e_p := Some s, e_replies := e_replies e @ [a]\<rparr>)"
| complete: "\<not> e_direction_out e \<Longrightarrow> e_p e = Some s \<Longrightarrow>
    ep0_step filters dev e (e\<lparr>e_p := None, e_direction_out := True\<rparr>)"

inductive ep0_reachable :: "'s pfilter list \<Rightarrow> 'd dev \<Rightarrow> ('s, 'd) ep0 \<Rightarrow> bool" for filters dev where
  initial: "ep0_reachable filters dev (ep0_init ws)"
| step: "ep0_reachable filters dev e \<Longrightarrow> ep0_step filters dev e e' \<Longrightarrow>
    ep0_reachable filters dev e'"

inductive_cases ep0_stepE: "ep0_step filters dev e e'"

section \<open>Data endpoints\<close>

text \<open>
  \<open>relay_read\<close> puts every block that is not empty into the queue; \<open>relay_write\<close> filters the next
  packet when no transfer is under way, sends it if it may be transmitted, and then waits for the
  transfer to complete. \<open>d_taken\<close> records the packets the writer took, \<open>d_accepted\<close> those that
  found room in the queue, \<open>d_sent\<close> the blocks given to the proxy.
\<close>

record 's data_ep =
  d_endpoint :: u8
  d_queue :: "packet safe_queue"
  d_writing :: bool
  d_state :: 's
  d_accepted :: "packet list"
  d_taken :: "packet list"
  d_sent :: "bytes list"

definition data_init :: "u8 \<Rightarrow> 's \<Rightarrow> 's data_ep" where
  "data_init ep st =
     \<lparr>d_endpoint = ep, d_queue = new_queue, d_writing = False, d_state = st, d_accepted = [],
      d_taken = [], d_sent = []\<rparr>"

definition relay_read :: "bytes \<Rightarrow> 's data_ep \<Rightarrow> 's data_ep" where
  "relay_read buf e =
     (if buf = [] then e
      else let p = new_packet (d_endpoint e) (Some buf) (int (length buf)) in
        e\<lparr>d_queue := enqueue p (d_queue e),
          d_accepted := d_accepted e @ (if length (sq_items (d_queue e)) < QUEUE_MAX then [p] else [])\<rparr>)"

text \<open>What is sent for a packet, and the filters' next state.\<close>

definition write_packet :: "'s pfilter list \<Rightarrow> packet \<Rightarrow> 's \<Rightarrow> (bytes option \<times> 's) res" where
  "write_packet filters p st =
     and_then (apply_filters filters p st) (\<lambda>(p', st').
       if pk_transmit p' then
         and_then (deref (pk_data p')) (\<lambda>d. and_then (first_n d (unat (pk_wLength p'))) (\<lambda>b.
           Inr (Some b, st')))
       else Inr (None, st'))"

inductive data_step :: "'s pfilter list \<Rightarrow> 's data_ep \<Rightarrow> 's data_ep \<Rightarrow> bool" for filters where
  read: "data_step filters e (relay_read buf e)"
| write_out: "\<not> d_writing e \<Longrightarrow> dequeue (d_queue e) = (Some p, q) \<Longrightarrow>
    write_packet filters p (d_state e) = Inr (out, st') \<Longrightarrow>
    data_step filters e (e\<lparr>d_queue := q, d_state := st', d_taken := d_taken e @ [p],
      d_writing := (out \<noteq> None),
      d_sent := d_sent e @ (case out of None \<Rightarrow> [] | Some b \<Rightarrow> [b])\<rparr>)"
| complete: "d_writing e \<Longrightarrow> data_step filters e (e\<lparr>d_writing := False\<rparr>)"

inductive data_reachable :: "'s pfilter list \<Rightarrow> 's \<Rightarrow> 's data_ep \<Rightarrow> bool" for filters st0 where
  initial: "data_reachable filters st0 (data_init ep st0)"
| step: "data_reachable filters st0 e \<Longrightarrow> data_step filters e e' \<Longrightarrow>
    data_reachable filters st0 e'"

inductive_cases data_stepE: "data_step filters e e'"

text \<open>The specification: the packets one after the other through the filters.\<close>

fun write_all :: "'s pfilter list \<Rightarrow> packet list \<Rightarrow> 's \<Rightarrow> (bytes list \<times> 's) res" where
  "write_all filters [] st = Inr ([], st)"
| "write_all filters (p # ps) st =
     and_then (write_packet filters p st) (\<lambda>(out, st1).
       and_then (write_all filters ps st1) (\<lambda>(outs, st2).
         Inr ((case out of None \<Rightarrow> [] | Some b \<Rightarrow> [b]) @ outs, st2)))"

section \<open>Lemmas: endpoint 0\<close>

text \<open>Where the request under way is.\<close>

definition in_flight :: "('s, 'd) ep0 \<Rightarrow> nat" where
  "in_flight e = length (sq_items (e_out e)) + length (sq_items (e_in e))
     + (if e_p e = None then 0 else 1)"

definition ep0_inv :: "('s, 'd) ep0 \<Rightarrow> bool" where
  "ep0_inv e \<longleftrightarrow>
     in_flight e \<le> 1 \<and>
     (if e_direction_out e then in_flight e = 0 \<and> length (e_requests e) = length (e_replies e)
      else length (e_requests e) = length (e_replies e) + (if e_p e = None then 1 else 0))"

lemma dequeue_Some:
  "dequeue q = (Some s, q') \<Longrightarrow> sq_items q = s # sq_items q'"
  by (cases "sq_items q") (auto simp: dequeue_def dequeue_test_def dequeue_enter_def)

lemma ep0_step_inv: "ep0_step filters dev e e' \<Longrightarrow> ep0_inv e \<Longrightarrow> ep0_inv e'"
  by (erule ep0_stepE)
    (auto simp: ep0_inv_def in_flight_def items_enqueue QUEUE_MAX_def dest!: dequeue_Some
      split: if_splits)

lemma ep0_reachable_inv: "ep0_reachable filters dev e \<Longrightarrow> ep0_inv e"
proof (induction rule: ep0_reachable.induct)
  case (initial ws)
  show ?case by (simp add: ep0_inv_def in_flight_def ep0_init_def)
next
  case (step e e')
  then show ?case by (blast intro: ep0_step_inv)
qed

text \<open>C2: on endpoint 0 one request is under way at a time and requests are answered in turn: in
  every reachable state the queues and the reader hold at most one packet together, and the
  number of answers the host has got is the number of requests taken from it, or one less while
  the reader waits; the reader takes a request only when all earlier ones are answered.\<close>

theorem ep0_one_at_a_time:
  assumes "ep0_reachable filters dev e"
  shows "length (sq_items (e_out e)) + length (sq_items (e_in e)) + (if e_p e = None then 0 else 1) \<le> 1 \<and>
    length (e_replies e) \<le> length (e_requests e) \<and>
    length (e_requests e) \<le> length (e_replies e) + 1 \<and>
    (e_direction_out e \<longrightarrow> length (e_requests e) = length (e_replies e))"
  using ep0_reachable_inv [OF assms] by (auto simp: ep0_inv_def in_flight_def split: if_splits)

text \<open>A device that answers every IN request with the same bytes, cut to \<open>wLength\<close>.\<close>

definition echo_device :: "bytes \<Rightarrow> unit dev" where
  "echo_device bs r d st =
     (let b = (if is_in r then take (unat (cr_wLength r)) bs else []) in
      ((0, Some (int (length b)), b), st))"

definition fresh_writer :: "('s \<times> 'd) \<Rightarrow> ('s, 'd) writer_state" where
  "fresh_writer = (\<lambda>(st, d). \<lparr>ws_filters = st, ws_device = d, ws_length = None\<rparr>)"

definition get_device_request :: usb_ctrlrequest where
  "get_device_request =
     \<lparr>cr_bRequestType = 0x80, cr_bRequest = USB_REQ_GET_DESCRIPTOR, cr_wValue = 0x100,
      cr_wIndex = 0, cr_wLength = 18\<rparr>"

theorem ep0_one_at_a_time_witness:
  "\<exists>e. ep0_reachable [] (echo_device [18, 1]) (e :: (unit, unit) ep0) \<and>
    e_requests e = [get_device_request] \<and>
    length (sq_items (e_out e)) + length (sq_items (e_in e)) + (if e_p e = None then 0 else 1) \<le> 1 \<and>
    length (e_replies e) \<le> length (e_requests e) \<and>
    length (e_requests e) \<le> length (e_replies e) + 1 \<and>
    (e_direction_out e \<longrightarrow> length (e_requests e) = length (e_replies e))"
proof -
  let ?start = "ep0_init (fresh_writer ((), ())) :: (unit, unit) ep0"
  let ?e = "?start\<lparr>e_out := enqueue (new_setup_packet get_device_request None True) (e_out ?start),
      e_direction_out := False, e_requests := e_requests ?start @ [get_device_request]\<rparr>"
  have "ep0_step [] (echo_device [18, 1]) ?start ?e"
    by (rule ep0_step.request [of ?start]) (simp add: ep0_init_def)
  from ep0_reachable.step [OF ep0_reachable.initial this]
  have r: "ep0_reachable [] (echo_device [18, 1]) ?e" .
  have "e_requests ?e = [get_device_request]" by (simp add: ep0_init_def)
  with r ep0_one_at_a_time [OF r] show ?thesis by blast
qed



text \<open>C17: a request that a filter does not let out is never answered: once the writer has dropped
  it, neither thread of endpoint 0 can take a step again.\<close>

theorem dropped_request_blocks:
  assumes "ep0_reachable filters dev e" "dequeue (e_out e) = (Some s, q)"
    and "relay_write_setup filters dev s (e_ws e) = Inr (None, cfg, ws')"
  shows "ep0_reachable filters dev (e\<lparr>e_out := q, e_ws := ws'\<rparr>) \<and>
    \<not> (\<exists>e''. ep0_step filters dev (e\<lparr>e_out := q, e_ws := ws'\<rparr>) e'')"
proof
  show "ep0_reachable filters dev (e\<lparr>e_out := q, e_ws := ws'\<rparr>)"
    using assms by (blast intro: ep0_reachable.step ep0_step.drop_packet)
  have inv: "ep0_inv e" using assms(1) by (rule ep0_reachable_inv)
  have items: "sq_items (e_out e) = s # sq_items q" using assms(2) by (rule dequeue_Some)
  with inv have *: "\<not> e_direction_out e" "e_p e = None" "sq_items q = []" "sq_items (e_in e) = []"
    by (auto simp: ep0_inv_def in_flight_def split: if_splits)
  show "\<not> (\<exists>e''. ep0_step filters dev (e\<lparr>e_out := q, e_ws := ws'\<rparr>) e'')"
    using * by (auto elim!: ep0_stepE dest: dequeue_Some)
qed

definition discard_filter :: "'s pfilter" where
  "discard_filter =
     \<lparr>fl_base = new_filter_base, fl_packet = base_filter_packet,
      fl_setup = (\<lambda>s out st. Inr (s\<lparr>sp_transmit_out := False\<rparr>, st))\<rparr>"

theorem dropped_request_blocks_witness:
  "\<exists>e. ep0_reachable [discard_filter] (echo_device [18, 1]) (e :: (unit, unit) ep0) \<and>
    e_requests e = [get_device_request] \<and> e_replies e = [] \<and>
    \<not> (\<exists>e''. ep0_step [discard_filter] (echo_device [18, 1]) e e'')"
proof -
  let ?fs = "[discard_filter]" and ?dev = "echo_device [18, 1]"
  let ?start = "ep0_init (fresh_writer ((), ())) :: (unit, unit) ep0"
  let ?s = "new_setup_packet get_device_request None True"
  let ?e = "?start\<lparr>e_out := enqueue ?s (e_out ?start), e_direction_out := False,
      e_requests := e_requests ?start @ [get_device_request]\<rparr>"
  have "ep0_step ?fs ?dev ?start ?e"
    by (rule ep0_step.request [of ?start]) (simp add: ep0_init_def)
  from ep0_reachable.step [OF ep0_reachable.initial this]
  have r: "ep0_reachable ?fs ?dev ?e" .
  have items: "sq_items (e_out ?e) = [?s]"
    by (simp add: ep0_init_def items_enqueue QUEUE_MAX_def)
  define q where "q = snd (dequeue (e_out ?e))"
  have dq: "dequeue (e_out ?e) = (Some ?s, q)"
    using dequeue_Cons [OF items] by (simp add: q_def prod_eq_iff)
  have hit: "test_setup_packet new_filter_base ?s True = Inr True"
    by (simp add: test_setup_packet_def new_filter_base_def)
  have drop: "relay_write_setup ?fs ?dev ?s (e_ws ?e) = Inr (None, None, e_ws ?e)"
    using hit
    by (simp add: relay_write_setup_def discard_filter_def ep0_init_def fresh_writer_def
        new_setup_packet_def)
  from dropped_request_blocks [OF r dq drop] show ?thesis
    by (intro exI [of _ "?e\<lparr>e_out := q, e_ws := e_ws ?e\<rparr>"]) (auto simp: ep0_init_def)
qed

section \<open>Lemmas: data endpoints\<close>

lemma write_all_snoc:
  "write_all filters (ps @ [p]) st =
     and_then (write_all filters ps st) (\<lambda>(outs, st1).
       and_then (write_packet filters p st1) (\<lambda>(out, st2).
         Inr (outs @ (case out of None \<Rightarrow> [] | Some b \<Rightarrow> [b]), st2)))"
proof (induction ps arbitrary: st)
  case Nil
  then show ?case by (auto simp: and_then_def split: sum.split)
next
  case (Cons q ps)
  show ?case
  proof (cases "write_packet filters q st")
    case (Inr r)
    obtain out st1 where r: "r = (out, st1)" by (cases r)
    show ?thesis
    proof (cases "write_all filters ps st1")
      case (Inr r2)
      obtain outs st2 where "r2 = (outs, st2)" by (cases r2)
      with Inr \<open>write_packet filters q st = Inr r\<close> r show ?thesis
        by (cases "write_packet filters p st2") (auto simp: Cons)
    qed (simp add: Inr r Cons)
  qed simp
qed

definition data_inv :: "'s pfilter list \<Rightarrow> 's \<Rightarrow> 's data_ep \<Rightarrow> bool" where
  "data_inv filters st0 e \<longleftrightarrow>
     d_accepted e = d_taken e @ sq_items (d_queue e) \<and>
     write_all filters (d_taken e) st0 = Inr (d_sent e, d_state e)"

lemma data_step_inv:
  assumes "data_step filters e e'" "data_inv filters st0 e"
  shows "data_inv filters st0 e'"
  using assms(1)
proof cases
  case (read buf)
  with assms(2) show ?thesis
    by (auto simp: data_inv_def relay_read_def items_enqueue Let_def)
next
  case (write_out p q out st')
  with assms(2) show ?thesis by (simp add: data_inv_def write_all_snoc dequeue_Some)
next
  case complete
  with assms(2) show ?thesis by (simp add: data_inv_def)
qed

lemma data_reachable_inv: "data_reachable filters st0 e \<Longrightarrow> data_inv filters st0 e"
proof (induction rule: data_reachable.induct)
  case (initial ep)
  show ?case by (simp add: data_inv_def data_init_def)
next
  case (step e e')
  then show ?case by (blast intro: data_step_inv)
qed

text \<open>C1: a data endpoint relays in order: whatever the interleaving of its two threads, the
  packets that found room in the queue are those the writer took followed by those still
  queued, and what was sent is what the filters make of the former, one after the other. No
  packet is lost, duplicated or overtaken.\<close>

theorem data_relay_in_order:
  assumes "data_reachable filters st0 e"
  shows "\<exists>done. d_accepted e = done @ sq_items (d_queue e) \<and>
    write_all filters done st0 = Inr (d_sent e, d_state e)"
  using data_reachable_inv [OF assms] by (auto simp: data_inv_def)

theorem data_relay_in_order_witness:
  "\<exists>e. data_reachable [] () e \<and> d_accepted e = [new_packet 0x81 (Some [1, 2]) 2] \<and>
    (\<exists>done. d_accepted e = done @ sq_items (d_queue e) \<and>
      write_all [] done () = Inr (d_sent e, d_state e))"
proof -
  let ?e = "relay_read [1, 2] (data_init 0x81 ())"
  have r: "data_reachable [] () ?e"
    by (rule data_reachable.step [OF data_reachable.initial data_step.read])
  have "d_accepted ?e = [new_packet 0x81 (Some [1, 2]) 2]"
    by (simp add: relay_read_def data_init_def QUEUE_MAX_def Let_def)
  with r data_relay_in_order [OF r] show ?thesis by blast
qed

end
