(* ===== verification/Relay_Stop.thy ===== *)
theory Relay_Stop
  imports Relay
begin

text \<open>
  The loops of the relay threads with the flag that stops them (\<open>_please_stop\<close> of
  \<open>src/lib/RelayReader\<close> and \<open>src/lib/RelayWriter\<close>). \<open>please_stop\<close> sets the flag and then puts a null
  packet into the queue that the thread reads, so that a thread which waits there wakes up. A
  schedule is a list of actions: a turn of a thread runs it to its next access to what the threads
  share, and changes nothing while the thread is blocked in \<open>dequeue\<close>. The locale \<open>stoppable\<close> is the
  contract of a thread that can be stopped.
\<close>

section \<open>Schedules\<close>

fun run_acts :: "('a \<Rightarrow> 't \<Rightarrow> 't res) \<Rightarrow> 'a list \<Rightarrow> 't \<Rightarrow> 't res" where
  "run_acts exec [] t = Inr t"
| "run_acts exec (a # acts) t = and_then (exec a t) (run_acts exec acts)"

lemma run_acts_keeps:
  assumes "\<And>a t t'. exec a t = Inr t' \<Longrightarrow> P t \<Longrightarrow> P t'"
  shows "run_acts exec acts t = Inr t' \<Longrightarrow> P t \<Longrightarrow> P t'"
  by (induction acts arbitrary: t) (auto simp: and_then_eq_Inr dest: assms)

text \<open>
  A thread with its own actions; \<open>asked\<close> means that a call of \<open>please_stop\<close> has returned, \<open>rank\<close> bounds
  the turns that are left and \<open>budget\<close> the work (packets sent, requests taken) that is left.
\<close>

locale stoppable =
  fixes exec :: "'a \<Rightarrow> 't \<Rightarrow> 't res"
    and own :: "'a \<Rightarrow> bool"
    and asked :: "'t \<Rightarrow> bool"
    and rank :: "'t \<Rightarrow> nat"
    and work :: "'t \<Rightarrow> nat"
    and budget :: "'t \<Rightarrow> nat"
  assumes asked_step: "exec a t = Inr t' \<Longrightarrow> asked t \<Longrightarrow> asked t'"
    and rank_step: "exec a t = Inr t' \<Longrightarrow> asked t \<Longrightarrow> rank t' + (if own a then 1 else 0) \<le> max (rank t) (if own a then 1 else 0)"
    and budget_step: "exec a t = Inr t' \<Longrightarrow> asked t \<Longrightarrow> work t' + budget t' \<le> work t + budget t"
begin

lemma run_rank:
  "run_acts exec acts t = Inr t' \<Longrightarrow> asked t \<Longrightarrow> rank t' \<le> rank t - length (filter own acts)"
proof (induction acts arbitrary: t)
  case (Cons a acts)
  then obtain t1 where "exec a t = Inr t1" "run_acts exec acts t1 = Inr t'"
    by (auto simp: and_then_eq_Inr)
  with Cons rank_step [of a t t1] asked_step [of a t t1] show ?case
    by (fastforce split: if_splits)
qed simp

lemma run_budget:
  "run_acts exec acts t = Inr t' \<Longrightarrow> asked t \<Longrightarrow> work t' + budget t' \<le> work t + budget t"
proof (induction acts arbitrary: t)
  case (Cons a acts)
  then obtain t1 where "exec a t = Inr t1" "run_acts exec acts t1 = Inr t'"
    by (auto simp: and_then_eq_Inr)
  with Cons.IH [of t1] Cons.prems(2) asked_step [of a t t1] budget_step [of a t t1] show ?case
    by auto
qed simp

lemma ends:
  assumes "run_acts exec acts t = Inr t'" "asked t" "rank t \<le> length (filter own acts)"
  shows "rank t' = 0" "work t' \<le> work t + budget t"
  using run_rank [OF assms(1,2)] run_budget [OF assms(1,2)] assms(3) by simp_all

end

section \<open>Data endpoints\<close>

text \<open>Where a thread is: at the test of its loop, in the loop's body, holding what it has taken from
  its queue, waiting for a transfer, or past the loop.\<close>

datatype 'x place = Test | Body | Got 'x | Wait | Ended

text \<open>
  The reader and the writer of a data endpoint. \<open>t_flagged\<close> and \<open>t_asked\<close> record how far a call of the
  writer's \<open>please_stop\<close> has got; the reader has no queue to wake it from (\<open>_recvQueue\<close> is 0), and its
  \<open>receive_data\<close> returns after a while. \<open>t_accepted\<close>, \<open>t_taken\<close> and \<open>t_sent\<close> are as for \<open>data_ep\<close>.
\<close>

record 's data_threads =
  t_endpoint :: u8
  t_queue :: "packet option safe_queue"
  t_reader :: "unit place"
  t_reader_stop :: bool
  t_writer :: "unit place"
  t_writer_stop :: bool
  t_writing :: bool
  t_state :: 's
  t_flagged :: bool
  t_asked :: bool
  t_accepted :: "packet list"
  t_taken :: "packet list"
  t_sent :: "bytes list"

definition threads_init :: "u8 \<Rightarrow> 's \<Rightarrow> 's data_threads" where
  "threads_init ep st =
     \<lparr>t_endpoint = ep, t_queue = new_queue, t_reader = Test, t_reader_stop = False, t_writer = Test,
      t_writer_stop = False, t_writing = False, t_state = st, t_flagged = False, t_asked = False,
      t_accepted = [], t_taken = [], t_sent = []\<rparr>"

definition room :: "'a safe_queue \<Rightarrow> bool" where
  "room q \<longleftrightarrow> length (sq_items q) < QUEUE_MAX"

definition reader_turn :: "bytes \<Rightarrow> 's data_threads \<Rightarrow> 's data_threads" where
  "reader_turn buf t =
     (case t_reader t of
        Test \<Rightarrow>
          if t_reader_stop t then t\<lparr>t_reader := Ended, t_reader_stop := False\<rparr>
          else t\<lparr>t_reader := Body\<rparr>
      | Body \<Rightarrow>
          let p = new_packet (t_endpoint t) (Some buf) (int (length buf)) in
          if buf = [] then t\<lparr>t_reader := Test\<rparr>
          else t\<lparr>t_reader := Test, t_queue := enqueue (Some p) (t_queue t),
                 t_accepted := t_accepted t @ (if room (t_queue t) then [p] else [])\<rparr>
      | _ \<Rightarrow> t)"

text \<open>\<open>completed\<close> is what \<open>send_wait_complete\<close> returns.\<close>

definition writer_turn ::
  "'s pfilter list \<Rightarrow> bool \<Rightarrow> 's data_threads \<Rightarrow> 's data_threads res" where
  "writer_turn filters completed t =
     (case t_writer t of
        Test \<Rightarrow> Inr
          (if t_writer_stop t then t\<lparr>t_writer := Ended, t_writer_stop := False\<rparr>
           else t\<lparr>t_writer := Body\<rparr>)
      | Body \<Rightarrow>
          if t_writing t then Inr (t\<lparr>t_writer := Test, t_writing := \<not> completed\<rparr>)
          else
            (case dequeue (t_queue t) of
               (None, _) \<Rightarrow> Inr t
             | (Some None, q) \<Rightarrow> Inr (t\<lparr>t_writer := Test, t_queue := q\<rparr>)
             | (Some (Some p), q) \<Rightarrow>
                 and_then (write_packet filters p (t_state t)) (\<lambda>(out, st').
                   Inr (t\<lparr>t_writer := Test, t_queue := q, t_state := st',
                          t_taken := t_taken t @ [p], t_writing := (out \<noteq> None),
                          t_sent := t_sent t @ (case out of None \<Rightarrow> [] | Some b \<Rightarrow> [b])\<rparr>)))
      | _ \<Rightarrow> Inr t)"

text \<open>The two halves of \<open>RelayWriter::please_stop\<close>, and that of the reader.\<close>

definition writer_flag :: "'s data_threads \<Rightarrow> 's data_threads" where
  "writer_flag t = t\<lparr>t_writer_stop := True, t_flagged := True\<rparr>"

definition writer_wake :: "'s data_threads \<Rightarrow> 's data_threads" where
  "writer_wake t =
     (if t_flagged t then t\<lparr>t_queue := enqueue None (t_queue t), t_asked := True\<rparr> else t)"

definition reader_please_stop :: "'s data_threads \<Rightarrow> 's data_threads" where
  "reader_please_stop t = t\<lparr>t_reader_stop := True\<rparr>"

datatype data_act = ReaderTurn bytes | WriterTurn bool | WriterFlag | WriterWake | ReaderStop

fun data_exec :: "'s pfilter list \<Rightarrow> data_act \<Rightarrow> 's data_threads \<Rightarrow> 's data_threads res" where
  "data_exec filters (ReaderTurn buf) t = Inr (reader_turn buf t)"
| "data_exec filters (WriterTurn completed) t = writer_turn filters completed t"
| "data_exec filters WriterFlag t = Inr (writer_flag t)"
| "data_exec filters WriterWake t = Inr (writer_wake t)"
| "data_exec filters ReaderStop t = Inr (reader_please_stop t)"

lemmas data_turns = reader_turn_def writer_turn_def writer_flag_def writer_wake_def
  reader_please_stop_def

fun is_writer_turn :: "data_act \<Rightarrow> bool" where
  "is_writer_turn (WriterTurn completed) \<longleftrightarrow> True"
| "is_writer_turn a \<longleftrightarrow> False"

section \<open>Lemmas: data endpoints\<close>

lemma enqueue_not_empty: "sq_items (enqueue x q) \<noteq> []"
  by (auto simp: items_enqueue QUEUE_MAX_def)

lemma dequeue_eq:
  "dequeue q = (case sq_items q of [] \<Rightarrow> (None, q\<lparr>sq_waiting := Suc (sq_waiting q)\<rparr>)
     | x # xs \<Rightarrow> (Some x, q\<lparr>sq_items := xs\<rparr>))"
  by (simp add: dequeue_def dequeue_test_def dequeue_enter_def split: list.split)

text \<open>A writer that has been flagged keeps the flag until its loop ends, and once \<open>please_stop\<close> has
  returned it does not wait on an empty queue.\<close>

definition stop_inv :: "'s data_threads \<Rightarrow> bool" where
  "stop_inv t \<longleftrightarrow>
     (t_asked t \<longrightarrow> t_flagged t) \<and>
     (t_flagged t \<longrightarrow> t_writer t \<noteq> Ended \<longrightarrow> t_writer_stop t) \<and>
     (t_asked t \<longrightarrow> t_writer t = Body \<longrightarrow> \<not> t_writing t \<longrightarrow> sq_items (t_queue t) \<noteq> []) \<and>
     t_writer t \<in> {Test, Body, Ended}"

definition writer_rank :: "'s data_threads \<Rightarrow> nat" where
  "writer_rank t = (case t_writer t of Test \<Rightarrow> 1 | Body \<Rightarrow> 2 | _ \<Rightarrow> 0)"

definition writer_budget :: "'s data_threads \<Rightarrow> nat" where
  "writer_budget t = (if t_writer t = Body then 1 else 0)"

lemma writer_turnE:
  assumes "writer_turn filters completed t = Inr t'"
  obtains (ends) "t_writer t = Test" "t_writer_stop t"
      "t' = t\<lparr>t_writer := Ended, t_writer_stop := False\<rparr>"
  | (enters) "t_writer t = Test" "\<not> t_writer_stop t" "t' = t\<lparr>t_writer := Body\<rparr>"
  | (waits) "t_writer t = Body" "t_writing t"
      "t' = t\<lparr>t_writer := Test, t_writing := \<not> completed\<rparr>"
  | (blocked) "t_writer t = Body" "\<not> t_writing t" "sq_items (t_queue t) = []" "t' = t"
  | (null) xs where "t_writer t = Body" "\<not> t_writing t" "sq_items (t_queue t) = None # xs"
      "t' = t\<lparr>t_writer := Test, t_queue := (t_queue t)\<lparr>sq_items := xs\<rparr>\<rparr>"
  | (packet) p xs out st' where "t_writer t = Body" "\<not> t_writing t"
      "sq_items (t_queue t) = Some p # xs" "write_packet filters p (t_state t) = Inr (out, st')"
      "t' = t\<lparr>t_writer := Test, t_queue := (t_queue t)\<lparr>sq_items := xs\<rparr>, t_state := st',
        t_taken := t_taken t @ [p], t_writing := (out \<noteq> None),
        t_sent := t_sent t @ (case out of None \<Rightarrow> [] | Some b \<Rightarrow> [b])\<rparr>"
  | (over) "t_writer t \<noteq> Test" "t_writer t \<noteq> Body" "t' = t"
proof (cases "t_writer t")
  case Test
  show ?thesis
  proof (cases "t_writer_stop t")
    case True
    with assms Test have "t' = t\<lparr>t_writer := Ended, t_writer_stop := False\<rparr>"
      by (simp add: writer_turn_def)
    with Test True show ?thesis by (rule ends)
  next
    case False
    with assms Test have "t' = t\<lparr>t_writer := Body\<rparr>" by (simp add: writer_turn_def)
    with Test False show ?thesis by (rule enters)
  qed
next
  case Body
  show ?thesis
  proof (cases "t_writing t")
    case True
    with assms Body have "t' = t\<lparr>t_writer := Test, t_writing := \<not> completed\<rparr>"
      by (simp add: writer_turn_def)
    with Body True show ?thesis by (rule waits)
  next
    case False
    note here = Body False
    show ?thesis
    proof (cases "sq_items (t_queue t)")
      case Nil
      with assms here have "t' = t" by (simp add: writer_turn_def dequeue_eq [of "t_queue t"])
      with here Nil show ?thesis by (rule blocked)
    next
      case (Cons x xs)
      then have q: "dequeue (t_queue t) = (Some x, (t_queue t)\<lparr>sq_items := xs\<rparr>)"
        by (simp add: dequeue_eq)
      show ?thesis
      proof (cases x)
        case None
        with assms here q
        have "t' = t\<lparr>t_writer := Test, t_queue := (t_queue t)\<lparr>sq_items := xs\<rparr>\<rparr>"
          by (simp add: writer_turn_def)
        with here Cons None show ?thesis by (intro null) simp_all
      next
        case (Some p)
        with assms here q obtain out st' where
          w: "write_packet filters p (t_state t) = Inr (out, st')" and
          t': "t' = t\<lparr>t_writer := Test, t_queue := (t_queue t)\<lparr>sq_items := xs\<rparr>, t_state := st',
            t_taken := t_taken t @ [p], t_writing := (out \<noteq> None),
            t_sent := t_sent t @ (case out of None \<Rightarrow> [] | Some b \<Rightarrow> [b])\<rparr>"
          by (auto simp: writer_turn_def and_then_eq_Inr)
        from here Cons [unfolded Some] w t' show ?thesis by (rule packet)
      qed
    qed
  qed
next
  case (Got x)
  with assms have "t' = t" by (simp add: writer_turn_def)
  with Got show ?thesis by (intro over) simp_all
next
  case Wait
  with assms have "t' = t" by (simp add: writer_turn_def)
  with Wait show ?thesis by (intro over) simp_all
next
  case Ended
  with assms have "t' = t" by (simp add: writer_turn_def)
  with Ended show ?thesis by (intro over) simp_all
qed

lemma stop_inv_step:
  assumes "data_exec filters a t = Inr t'" "stop_inv t"
  shows "stop_inv t'"
proof (cases a)
  case (WriterTurn completed)
  with assms(1) have "writer_turn filters completed t = Inr t'" by simp
  then show ?thesis
    by (cases rule: writer_turnE) (use assms(2) in \<open>auto simp: stop_inv_def\<close>)
next
  case (ReaderTurn buf)
  with assms(1) have "t' = reader_turn buf t" by simp
  with assms(2) show ?thesis
    by (cases "t_reader t") (simp_all add: reader_turn_def stop_inv_def Let_def enqueue_not_empty)
next
  case WriterFlag
  with assms(1) have "t' = writer_flag t" by simp
  with assms(2) show ?thesis by (simp add: writer_flag_def stop_inv_def)
next
  case WriterWake
  with assms(1) have "t' = writer_wake t" by simp
  with assms(2) show ?thesis by (auto simp: writer_wake_def stop_inv_def enqueue_not_empty)
next
  case ReaderStop
  with assms(1) have "t' = reader_please_stop t" by simp
  with assms(2) show ?thesis by (simp add: reader_please_stop_def stop_inv_def)
qed

text \<open>The other actions leave the writer's place and what it has sent alone.\<close>

lemma other_act:
  assumes "data_exec filters a t = Inr t'" "\<not> is_writer_turn a"
  shows "t_writer t' = t_writer t" "t_sent t' = t_sent t" "t_asked t \<Longrightarrow> t_asked t'"
    "t_taken t' = t_taken t" "t_state t' = t_state t"
  using assms
  by (cases a; cases "t_reader t"; auto simp: data_turns Let_def)+

interpretation data_writer: stoppable "data_exec filters" is_writer_turn
    "\<lambda>t. t_asked t \<and> stop_inv t" writer_rank "\<lambda>t. length (t_sent t)" writer_budget
  for filters :: "'s pfilter list"
proof
  fix a and t t' :: "'s data_threads"
  assume run: "data_exec filters a t = Inr t'" and asked: "t_asked t \<and> stop_inv t"
  have "t_asked t' \<and> writer_rank t' + (if is_writer_turn a then 1 else 0)
      \<le> max (writer_rank t) (if is_writer_turn a then 1 else 0) \<and>
    length (t_sent t') + writer_budget t' \<le> length (t_sent t) + writer_budget t"
  proof (cases "is_writer_turn a")
    case True
    with run obtain completed where "writer_turn filters completed t = Inr t'" by (cases a) auto
    then show ?thesis
      using True asked
      by (cases rule: writer_turnE)
        (auto simp: writer_rank_def writer_budget_def stop_inv_def split: option.split)
  next
    case False
    with other_act [OF run] asked show ?thesis by (simp add: writer_rank_def writer_budget_def)
  qed
  then show "t_asked t' \<and> stop_inv t'"
    and "writer_rank t' + (if is_writer_turn a then 1 else 0)
      \<le> max (writer_rank t) (if is_writer_turn a then 1 else 0)"
    and "length (t_sent t') + writer_budget t' \<le> length (t_sent t) + writer_budget t"
    using stop_inv_step [OF run] asked by simp_all
qed

lemma stop_inv_run:
  assumes "run_acts (data_exec filters) acts (threads_init ep st) = Inr t"
  shows "stop_inv t"
  by (rule run_acts_keeps [OF stop_inv_step assms])
    (assumption+, simp add: stop_inv_def threads_init_def)

text \<open>C19: a data endpoint can always be stopped: once a call of the writer's \<open>please_stop\<close> has
  returned, the writer's loop ends within two turns of its thread, whatever the reader does in
  between and even when the queue is empty or full, and it sends at most one more block.\<close>

theorem stop_ends_data_writer:
  assumes "run_acts (data_exec filters) before (threads_init ep st) = Inr t" "t_asked t"
    and "run_acts (data_exec filters) acts t = Inr t'" "2 \<le> length (filter is_writer_turn acts)"
  shows "t_writer t' = Ended \<and> length (t_sent t') \<le> length (t_sent t) + 1"
proof -
  have asked: "t_asked t \<and> stop_inv t" using stop_inv_run [OF assms(1)] assms(2) by simp
  have "writer_rank t \<le> 2" by (simp add: writer_rank_def split: place.split)
  then have "writer_rank t' = 0" "length (t_sent t') \<le> length (t_sent t) + writer_budget t"
    using data_writer.ends [OF assms(3) asked] assms(4) by simp_all
  moreover have "stop_inv t'"
    by (rule run_acts_keeps [OF stop_inv_step assms(3)]) (assumption+, simp add: asked)
  ultimately show ?thesis
    by (auto simp: writer_rank_def writer_budget_def stop_inv_def split: place.splits if_splits)
qed

text \<open>The writer waits on the empty queue when it is asked to stop.\<close>

theorem stop_ends_data_writer_witness:
  "\<exists>t t'. run_acts (data_exec []) [WriterTurn True, WriterFlag, WriterWake] (threads_init 0x81 ())
      = Inr t \<and> t_asked t \<and> run_acts (data_exec []) [WriterTurn True, WriterTurn True] t = Inr t' \<and>
    t_writer t' = Ended \<and> length (t_sent t') \<le> length (t_sent t) + 1"
proof -
  obtain t where 1: "run_acts (data_exec []) [WriterTurn True, WriterFlag, WriterWake]
      (threads_init 0x81 ()) = Inr t" "t_asked t"
    by (simp add: data_turns threads_init_def)
  obtain t' where 2: "run_acts (data_exec []) [WriterTurn True, WriterTurn True] t = Inr t'"
    using 1 by (auto simp: data_turns threads_init_def enqueue_def new_queue_def push_def
        notify_one_def dequeue_def dequeue_test_def dequeue_enter_def)
  from stop_ends_data_writer [OF 1 2] 1 2 show ?thesis by auto
qed

text \<open>The order of the packets with the threads' loops in full, null packets included.\<close>

definition packets_in :: "packet option list \<Rightarrow> packet list" where
  "packets_in xs = map the (filter (\<lambda>x. x \<noteq> None) xs)"

lemma packets_in_simps [simp]:
  "packets_in [] = []" "packets_in (None # xs) = packets_in xs"
  "packets_in (Some p # xs) = p # packets_in xs"
  "packets_in (xs @ ys) = packets_in xs @ packets_in ys"
  by (simp_all add: packets_in_def)

lemma threads_in_order_step:
  assumes "data_exec filters a t = Inr t'"
    and "t_accepted t = t_taken t @ packets_in (sq_items (t_queue t)) \<and>
      write_all filters (t_taken t) st0 = Inr (t_sent t, t_state t)"
  shows "t_accepted t' = t_taken t' @ packets_in (sq_items (t_queue t')) \<and>
      write_all filters (t_taken t') st0 = Inr (t_sent t', t_state t')"
proof (cases a)
  case (WriterTurn completed)
  with assms(1) have "writer_turn filters completed t = Inr t'" by simp
  then show ?thesis
    using assms(2) by (cases rule: writer_turnE) (auto simp: write_all_snoc)
next
  case (ReaderTurn buf)
  with assms show ?thesis
    by (cases "t_reader t") (auto simp: reader_turn_def Let_def items_enqueue room_def)
qed (use assms in \<open>auto simp: data_turns items_enqueue\<close>)

lemma threads_in_order:
  assumes "run_acts (data_exec filters) acts (threads_init ep st0) = Inr t"
  shows "t_accepted t = t_taken t @ packets_in (sq_items (t_queue t)) \<and>
      write_all filters (t_taken t) st0 = Inr (t_sent t, t_state t)"
  by (rule run_acts_keeps [OF threads_in_order_step assms])
    (assumption+, simp add: threads_init_def)

section \<open>Endpoint 0\<close>

text \<open>
  The two threads of endpoint 0. \<open>h_direction_out\<close> and \<open>h_p\<close> are the variables of the reader's loop; a
  call of \<open>please_stop\<close> of each thread is followed by \<open>h_r_flagged\<close>, \<open>h_r_asked\<close> and \<open>h_w_flagged\<close>,
  \<open>h_w_asked\<close>. The lists are as for \<open>ep0\<close>.
\<close>

record ('s, 'd) ep0_threads =
  h_out :: "setup_packet option safe_queue"
  h_in :: "setup_packet option safe_queue"
  h_reader :: "setup_packet option place"
  h_reader_stop :: bool
  h_direction_out :: bool
  h_p :: "setup_packet option"
  h_writer :: "setup_packet option place"
  h_writer_stop :: bool
  h_ws :: "('s, 'd) writer_state"
  h_r_flagged :: bool
  h_r_asked :: bool
  h_w_flagged :: bool
  h_w_asked :: bool
  h_requests :: "usb_ctrlrequest list"
  h_replies :: "host_act list"
  h_configs :: "u16 list"

definition ep0_threads_init :: "('s, 'd) writer_state \<Rightarrow> ('s, 'd) ep0_threads" where
  "ep0_threads_init ws =
     \<lparr>h_out = new_queue, h_in = new_queue, h_reader = Test, h_reader_stop = False,
      h_direction_out = True, h_p = None, h_writer = Test, h_writer_stop = False, h_ws = ws,
      h_r_flagged = False, h_r_asked = False, h_w_flagged = False, h_w_asked = False,
      h_requests = [], h_replies = [], h_configs = []\<rparr>"

text \<open>The end of the reader's loop: \<open>completed\<close> is what \<open>send_wait_complete\<close> returns.\<close>

definition reader_wait :: "bool \<Rightarrow> ('s, 'd) ep0_threads \<Rightarrow> ('s, 'd) ep0_threads" where
  "reader_wait completed h =
     (if completed then h\<lparr>h_reader := Test, h_direction_out := True, h_p := None\<rparr>
      else h\<lparr>h_reader := Test\<rparr>)"

text \<open>\<open>req\<close> is the request that the host proxy has, with its data.\<close>

definition setup_reader_turn ::
  "(usb_ctrlrequest \<times> bytes option) option \<Rightarrow> bool \<Rightarrow> ('s, 'd) ep0_threads \<Rightarrow>
   ('s, 'd) ep0_threads res" where
  "setup_reader_turn req completed h =
     (case h_reader h of
        Test \<Rightarrow> Inr
          (if h_reader_stop h then h\<lparr>h_reader := Ended, h_reader_stop := False\<rparr>
           else h\<lparr>h_reader := Body\<rparr>)
      | Body \<Rightarrow> Inr
          (if h_direction_out h then
             (case req of
                None \<Rightarrow> h\<lparr>h_reader := Test\<rparr>
              | Some (r, d) \<Rightarrow>
                  h\<lparr>h_reader := Test, h_out := enqueue (Some (new_setup_packet r d True)) (h_out h),
                    h_direction_out := False, h_requests := h_requests h @ [r]\<rparr>)
           else
             (case h_p h of
                None \<Rightarrow>
                  (case dequeue (h_in h) of
                     (None, _) \<Rightarrow> h
                   | (Some x, q) \<Rightarrow> h\<lparr>h_reader := Got x, h_in := q\<rparr>)
              | Some s \<Rightarrow> reader_wait completed h))
      | Got x \<Rightarrow>
          if h_reader_stop h then Inr (h\<lparr>h_reader := Ended, h_reader_stop := False\<rparr>)
          else
            (case x of
               None \<Rightarrow> Inr (h\<lparr>h_reader := Test\<rparr>)
             | Some s \<Rightarrow>
                 and_then (reply_action s) (\<lambda>a.
                   Inr (h\<lparr>h_reader := Wait, h_p := Some s, h_replies := h_replies h @ [a]\<rparr>)))
      | Wait \<Rightarrow> Inr (reader_wait completed h)
      | Ended \<Rightarrow> Inr h)"

definition setup_writer_turn ::
  "'s pfilter list \<Rightarrow> 'd dev \<Rightarrow> ('s, 'd) ep0_threads \<Rightarrow> ('s, 'd) ep0_threads res" where
  "setup_writer_turn filters dev h =
     (case h_writer h of
        Test \<Rightarrow> Inr
          (if h_writer_stop h then h\<lparr>h_writer := Ended, h_writer_stop := False\<rparr>
           else h\<lparr>h_writer := Body\<rparr>)
      | Body \<Rightarrow> Inr
          (case dequeue (h_out h) of
             (None, _) \<Rightarrow> h
           | (Some x, q) \<Rightarrow> h\<lparr>h_writer := Got x, h_out := q\<rparr>)
      | Got x \<Rightarrow>
          if h_writer_stop h then Inr (h\<lparr>h_writer := Ended, h_writer_stop := False\<rparr>)
          else
            (case x of
               None \<Rightarrow> Inr (h\<lparr>h_writer := Test\<rparr>)
             | Some s \<Rightarrow>
                 and_then (relay_write_setup filters dev s (h_ws h)) (\<lambda>(s', cfg, ws).
                   Inr (h\<lparr>h_writer := Test, h_ws := ws,
                     h_in := (case s' of None \<Rightarrow> h_in h | Some s' \<Rightarrow> enqueue (Some s') (h_in h)),
                     h_configs := h_configs h @ (case cfg of None \<Rightarrow> [] | Some v \<Rightarrow> [v])\<rparr>)))
      | _ \<Rightarrow> Inr h)"

text \<open>The two halves of both \<open>please_stop\<close>.\<close>

definition setup_reader_flag :: "('s, 'd) ep0_threads \<Rightarrow> ('s, 'd) ep0_threads" where
  "setup_reader_flag h = h\<lparr>h_reader_stop := True, h_r_flagged := True\<rparr>"

definition setup_reader_wake :: "('s, 'd) ep0_threads \<Rightarrow> ('s, 'd) ep0_threads" where
  "setup_reader_wake h =
     (if h_r_flagged h then h\<lparr>h_in := enqueue None (h_in h), h_r_asked := True\<rparr> else h)"

definition setup_writer_flag :: "('s, 'd) ep0_threads \<Rightarrow> ('s, 'd) ep0_threads" where
  "setup_writer_flag h = h\<lparr>h_writer_stop := True, h_w_flagged := True\<rparr>"

definition setup_writer_wake :: "('s, 'd) ep0_threads \<Rightarrow> ('s, 'd) ep0_threads" where
  "setup_writer_wake h =
     (if h_w_flagged h then h\<lparr>h_out := enqueue None (h_out h), h_w_asked := True\<rparr> else h)"

datatype setup_act =
    SetupReaderTurn "(usb_ctrlrequest \<times> bytes option) option" bool
  | SetupWriterTurn
  | SetupReaderFlag
  | SetupReaderWake
  | SetupWriterFlag
  | SetupWriterWake

fun setup_exec ::
  "'s pfilter list \<Rightarrow> 'd dev \<Rightarrow> setup_act \<Rightarrow> ('s, 'd) ep0_threads \<Rightarrow> ('s, 'd) ep0_threads res" where
  "setup_exec filters dev (SetupReaderTurn req completed) h = setup_reader_turn req completed h"
| "setup_exec filters dev SetupWriterTurn h = setup_writer_turn filters dev h"
| "setup_exec filters dev SetupReaderFlag h = Inr (setup_reader_flag h)"
| "setup_exec filters dev SetupReaderWake h = Inr (setup_reader_wake h)"
| "setup_exec filters dev SetupWriterFlag h = Inr (setup_writer_flag h)"
| "setup_exec filters dev SetupWriterWake h = Inr (setup_writer_wake h)"

lemmas setup_stops = setup_reader_flag_def setup_reader_wake_def setup_writer_flag_def
  setup_writer_wake_def

fun is_setup_reader_turn :: "setup_act \<Rightarrow> bool" where
  "is_setup_reader_turn (SetupReaderTurn req completed) \<longleftrightarrow> True"
| "is_setup_reader_turn a \<longleftrightarrow> False"

fun is_setup_writer_turn :: "setup_act \<Rightarrow> bool" where
  "is_setup_writer_turn SetupWriterTurn \<longleftrightarrow> True"
| "is_setup_writer_turn a \<longleftrightarrow> False"

section \<open>Lemmas: endpoint 0\<close>

text \<open>As for data endpoints: a thread keeps its flag until its loop ends, and does not wait on an
  empty queue once it has been asked to stop.\<close>

definition reader_inv :: "('s, 'd) ep0_threads \<Rightarrow> bool" where
  "reader_inv h \<longleftrightarrow>
     (h_r_asked h \<longrightarrow> h_r_flagged h) \<and>
     (h_r_flagged h \<longrightarrow> h_reader h \<noteq> Ended \<longrightarrow> h_reader_stop h) \<and>
     (h_r_asked h \<longrightarrow> h_reader h = Body \<longrightarrow> \<not> h_direction_out h \<longrightarrow> h_p h = None \<longrightarrow>
        sq_items (h_in h) \<noteq> [])"

definition writer_inv :: "('s, 'd) ep0_threads \<Rightarrow> bool" where
  "writer_inv h \<longleftrightarrow>
     (h_w_asked h \<longrightarrow> h_w_flagged h) \<and>
     (h_w_flagged h \<longrightarrow> h_writer h \<noteq> Ended \<longrightarrow> h_writer_stop h) \<and>
     (h_w_asked h \<longrightarrow> h_writer h = Body \<longrightarrow> sq_items (h_out h) \<noteq> []) \<and> h_writer h \<noteq> Wait"

fun turns_left :: "'x place \<Rightarrow> nat" where
  "turns_left Test = 1"
| "turns_left Body = 2"
| "turns_left (Got x) = 1"
| "turns_left Wait = 2"
| "turns_left Ended = 0"

lemma turns_left_le: "turns_left x \<le> 2"
  by (cases x) simp_all

lemma turns_left_0 [simp]: "turns_left x = 0 \<longleftrightarrow> x = Ended"
  by (cases x) simp_all

text \<open>A turn of the reader, and what it leaves alone.\<close>

lemma reader_turn_own:
  assumes "setup_reader_turn req completed h = Inr h'" "reader_inv h"
  shows "reader_inv h'" "h_r_asked h' = h_r_asked h"
    "h_r_asked h \<Longrightarrow> turns_left (h_reader h') + 1 \<le> max (turns_left (h_reader h)) 1"
    "h_r_flagged h \<Longrightarrow> h_replies h' = h_replies h"
    "h_r_flagged h \<Longrightarrow> length (h_requests h') + (if h_reader h' = Body then 1 else 0)
      \<le> length (h_requests h) + (if h_reader h = Body then 1 else 0)"
  using assms
  by (cases "h_reader h"; auto simp: setup_reader_turn_def reader_inv_def reader_wait_def dequeue_eq
      and_then_eq_Inr split: if_splits option.splits list.splits)+

lemma reader_turn_frame:
  assumes "setup_reader_turn req completed h = Inr h'"
  shows "h_writer h' = h_writer h" "h_writer_stop h' = h_writer_stop h" "h_ws h' = h_ws h"
    "h_w_flagged h' = h_w_flagged h" "h_w_asked h' = h_w_asked h" "h_configs h' = h_configs h"
    "sq_items (h_out h) \<noteq> [] \<Longrightarrow> sq_items (h_out h') \<noteq> []"
  using assms
  by (cases "h_reader h"; auto simp: setup_reader_turn_def reader_wait_def enqueue_not_empty
      and_then_eq_Inr split: if_splits option.splits prod.splits)+

lemma writer_turn_own:
  assumes "setup_writer_turn filters dev h = Inr h'" "writer_inv h"
  shows "writer_inv h'" "h_w_asked h' = h_w_asked h"
    "h_w_asked h \<Longrightarrow> turns_left (h_writer h') + 1 \<le> max (turns_left (h_writer h)) 1"
    "h_w_flagged h \<Longrightarrow> h_ws h' = h_ws h \<and> h_configs h' = h_configs h"
  using assms
  by (cases "h_writer h"; auto simp: setup_writer_turn_def writer_inv_def dequeue_eq
      and_then_eq_Inr split: if_splits option.splits list.splits)+

lemma writer_turn_frame:
  assumes "setup_writer_turn filters dev h = Inr h'"
  shows "h_reader h' = h_reader h" "h_reader_stop h' = h_reader_stop h" "h_p h' = h_p h"
    "h_direction_out h' = h_direction_out h" "h_r_flagged h' = h_r_flagged h"
    "h_r_asked h' = h_r_asked h" "h_requests h' = h_requests h" "h_replies h' = h_replies h"
    "sq_items (h_in h) \<noteq> [] \<Longrightarrow> sq_items (h_in h') \<noteq> []"
  using assms
  by (cases "h_writer h"; auto simp: setup_writer_turn_def enqueue_not_empty and_then_eq_Inr
      split: if_splits option.splits prod.splits)+

text \<open>Every action keeps both invariants, and after the flag is set a thread neither answers the host
  nor talks to the device.\<close>

lemma reader_inv_cong:
  assumes "reader_inv h" "h_reader h' = h_reader h" "h_reader_stop h' = h_reader_stop h"
    "h_p h' = h_p h" "h_direction_out h' = h_direction_out h" "h_r_flagged h' = h_r_flagged h"
    "h_r_asked h' = h_r_asked h" "sq_items (h_in h) \<noteq> [] \<longrightarrow> sq_items (h_in h') \<noteq> []"
  shows "reader_inv h'"
  using assms by (auto simp: reader_inv_def)

lemma writer_inv_cong:
  assumes "writer_inv h" "h_writer h' = h_writer h" "h_writer_stop h' = h_writer_stop h"
    "h_w_flagged h' = h_w_flagged h" "h_w_asked h' = h_w_asked h"
    "sq_items (h_out h) \<noteq> [] \<longrightarrow> sq_items (h_out h') \<noteq> []"
  shows "writer_inv h'"
  using assms by (auto simp: writer_inv_def)

lemma setup_inv_step:
  assumes "setup_exec filters dev a h = Inr h'" "reader_inv h" "writer_inv h"
  shows "reader_inv h'" "writer_inv h'"
proof -
  have "reader_inv h' \<and> writer_inv h'"
  proof (cases a)
    case (SetupReaderTurn req completed)
    with assms(1) have t: "setup_reader_turn req completed h = Inr h'" by simp
    have "writer_inv h'"
      by (rule writer_inv_cong [OF assms(3)]) (simp_all add: reader_turn_frame [OF t])
    with reader_turn_own(1) [OF t assms(2)] show ?thesis by blast
  next
    case SetupWriterTurn
    with assms(1) have t: "setup_writer_turn filters dev h = Inr h'" by simp
    have "reader_inv h'"
      by (rule reader_inv_cong [OF assms(2)]) (simp_all add: writer_turn_frame [OF t])
    with writer_turn_own(1) [OF t assms(3)] show ?thesis by blast
  next
    case SetupReaderFlag
    with assms(1) have "h' = setup_reader_flag h" by simp
    with assms(2,3) show ?thesis by (simp add: setup_reader_flag_def reader_inv_def writer_inv_def)
  next
    case SetupReaderWake
    with assms(1) have "h' = setup_reader_wake h" by simp
    with assms(2,3) show ?thesis
      by (auto simp: setup_reader_wake_def reader_inv_def writer_inv_def enqueue_not_empty)
  next
    case SetupWriterFlag
    with assms(1) have "h' = setup_writer_flag h" by simp
    with assms(2,3) show ?thesis by (simp add: setup_writer_flag_def reader_inv_def writer_inv_def)
  next
    case SetupWriterWake
    with assms(1) have "h' = setup_writer_wake h" by simp
    with assms(2,3) show ?thesis
      by (auto simp: setup_writer_wake_def reader_inv_def writer_inv_def enqueue_not_empty)
  qed
  then show "reader_inv h'" "writer_inv h'" by simp_all
qed

lemma setup_asked_step:
  assumes "setup_exec filters dev a h = Inr h'" "reader_inv h" "writer_inv h"
  shows "h_r_asked h \<Longrightarrow> h_r_asked h'" "h_w_asked h \<Longrightarrow> h_w_asked h'"
    "h_r_flagged h \<Longrightarrow> h_replies h' = h_replies h"
    "h_w_flagged h \<Longrightarrow> h_ws h' = h_ws h \<and> h_configs h' = h_configs h"
proof -
  have "(h_r_asked h \<longrightarrow> h_r_asked h') \<and> (h_w_asked h \<longrightarrow> h_w_asked h') \<and>
    (h_r_flagged h \<longrightarrow> h_replies h' = h_replies h) \<and>
    (h_w_flagged h \<longrightarrow> h_ws h' = h_ws h \<and> h_configs h' = h_configs h)"
  proof (cases a)
    case (SetupReaderTurn req completed)
    with assms(1) have t: "setup_reader_turn req completed h = Inr h'" by simp
    show ?thesis
      using reader_turn_own [OF t assms(2)] reader_turn_frame [OF t] by simp
  next
    case SetupWriterTurn
    with assms(1) have t: "setup_writer_turn filters dev h = Inr h'" by simp
    show ?thesis
      using writer_turn_own [OF t assms(3)] writer_turn_frame [OF t] by simp
  qed (use assms in \<open>auto simp: setup_stops\<close>)
  then show "h_r_asked h \<Longrightarrow> h_r_asked h'" "h_w_asked h \<Longrightarrow> h_w_asked h'"
    "h_r_flagged h \<Longrightarrow> h_replies h' = h_replies h"
    "h_w_flagged h \<Longrightarrow> h_ws h' = h_ws h \<and> h_configs h' = h_configs h" by simp_all
qed

text \<open>Actions other than a thread's own turns do not move it.\<close>

lemma setup_other:
  assumes "setup_exec filters dev a h = Inr h'"
  shows "\<not> is_setup_reader_turn a \<Longrightarrow> h_reader h' = h_reader h \<and> h_requests h' = h_requests h"
    "\<not> is_setup_writer_turn a \<Longrightarrow> h_writer h' = h_writer h"
proof -
  show "h_reader h' = h_reader h \<and> h_requests h' = h_requests h" if "\<not> is_setup_reader_turn a"
    using that assms by (cases a) (auto simp: setup_stops writer_turn_frame)
  show "h_writer h' = h_writer h" if "\<not> is_setup_writer_turn a"
    using that assms by (cases a) (auto simp: setup_stops reader_turn_frame)
qed

interpretation setup_reader: stoppable "setup_exec filters dev" is_setup_reader_turn
    "\<lambda>h. h_r_asked h \<and> reader_inv h \<and> writer_inv h" "\<lambda>h. turns_left (h_reader h)"
    "\<lambda>h. length (h_requests h)" "\<lambda>h. if h_reader h = Body then 1 else 0"
  for filters :: "'s pfilter list" and dev :: "'d dev"
proof
  fix a and h h' :: "('s, 'd) ep0_threads"
  assume run: "setup_exec filters dev a h = Inr h'"
    and asked: "h_r_asked h \<and> reader_inv h \<and> writer_inv h"
  then show "h_r_asked h' \<and> reader_inv h' \<and> writer_inv h'"
    using setup_inv_step [OF run] setup_asked_step [OF run] by simp
  have "h_r_flagged h" using asked by (simp add: reader_inv_def)
  have "turns_left (h_reader h') + (if is_setup_reader_turn a then 1 else 0)
      \<le> max (turns_left (h_reader h)) (if is_setup_reader_turn a then 1 else 0) \<and>
    length (h_requests h') + (if h_reader h' = Body then 1 else 0)
      \<le> length (h_requests h) + (if h_reader h = Body then 1 else 0)"
  proof (cases "is_setup_reader_turn a")
    case True
    with run obtain req completed where t: "setup_reader_turn req completed h = Inr h'"
      by (cases a) auto
    from reader_turn_own(3,5) [OF t] asked \<open>h_r_flagged h\<close> True show ?thesis by simp
  next
    case False
    with setup_other(1) [OF run] show ?thesis by simp
  qed
  then show "turns_left (h_reader h') + (if is_setup_reader_turn a then 1 else 0)
      \<le> max (turns_left (h_reader h)) (if is_setup_reader_turn a then 1 else 0)"
    and "length (h_requests h') + (if h_reader h' = Body then 1 else 0)
      \<le> length (h_requests h) + (if h_reader h = Body then 1 else 0)" by simp_all
qed

interpretation setup_writer: stoppable "setup_exec filters dev" is_setup_writer_turn
    "\<lambda>h. h_w_asked h \<and> reader_inv h \<and> writer_inv h" "\<lambda>h. turns_left (h_writer h)"
    "\<lambda>h. length (h_configs h)" "\<lambda>h. 0"
  for filters :: "'s pfilter list" and dev :: "'d dev"
proof
  fix a and h h' :: "('s, 'd) ep0_threads"
  assume run: "setup_exec filters dev a h = Inr h'"
    and asked: "h_w_asked h \<and> reader_inv h \<and> writer_inv h"
  then show "h_w_asked h' \<and> reader_inv h' \<and> writer_inv h'"
    using setup_inv_step [OF run] setup_asked_step [OF run] by simp
  have "h_w_flagged h" using asked by (simp add: writer_inv_def)
  with setup_asked_step(4) [OF run] asked
  show "length (h_configs h') + 0 \<le> length (h_configs h) + 0" by simp
  show "turns_left (h_writer h') + (if is_setup_writer_turn a then 1 else 0)
      \<le> max (turns_left (h_writer h)) (if is_setup_writer_turn a then 1 else 0)"
  proof (cases "is_setup_writer_turn a")
    case True
    with run have t: "setup_writer_turn filters dev h = Inr h'" by (cases a) auto
    from writer_turn_own(3) [OF t] asked True show ?thesis by simp
  next
    case False
    with setup_other(2) [OF run] show ?thesis by simp
  qed
qed

lemma setup_inv_run:
  assumes "run_acts (setup_exec filters dev) acts (ep0_threads_init ws) = Inr h"
  shows "reader_inv h \<and> writer_inv h"
proof (rule run_acts_keeps [OF _ assms])
  fix a and k k' :: "('a, 'b) ep0_threads"
  assume "setup_exec filters dev a k = Inr k'" "reader_inv k \<and> writer_inv k"
  then show "reader_inv k' \<and> writer_inv k'" by (simp add: setup_inv_step)
qed (simp add: reader_inv_def writer_inv_def ep0_threads_init_def)



section \<open>Endpoint 0 before a stop\<close>

text \<open>What the threads are doing in terms of \<open>ep0\<close>: a packet that a thread has taken but not yet
  handled still counts as queued.\<close>

definition queue_of :: "'a list \<Rightarrow> 'a safe_queue" where
  "queue_of xs = new_queue\<lparr>sq_items := xs\<rparr>"

fun in_hand :: "'a option place \<Rightarrow> 'a option list" where
  "in_hand (Got x) = [x]"
| "in_hand _ = []"

definition abs_ep0 :: "('s, 'd) ep0_threads \<Rightarrow> ('s, 'd) ep0" where
  "abs_ep0 h =
     \<lparr>e_out = queue_of (map the (in_hand (h_writer h) @ sq_items (h_out h))),
      e_in = queue_of (map the (in_hand (h_reader h) @ sq_items (h_in h))),
      e_direction_out = h_direction_out h, e_p = h_p h, e_ws = h_ws h,
      e_requests = h_requests h, e_replies = h_replies h, e_configs = h_configs h\<rparr>"

lemma queue_of_simps [simp]:
  "sq_items (queue_of xs) = xs" "dequeue (queue_of (x # xs)) = (Some x, queue_of xs)"
  "length xs \<le> 1 \<Longrightarrow> enqueue x (queue_of xs) = queue_of (xs @ [x])"
  by (simp_all add: queue_of_def new_queue_def dequeue_def dequeue_test_def dequeue_enter_def
      enqueue_def push_def notify_one_def QUEUE_MAX_def QUEUE_FULL_WARNING_THRESHOLD_def)

text \<open>Nobody has asked a thread to stop; there are packets only in the queues, and the reader's
  variables agree with its place.\<close>

fun place_ok :: "'a place \<Rightarrow> bool \<Rightarrow> 'b option \<Rightarrow> bool" where
  "place_ok (Got x) direction_out p \<longleftrightarrow> \<not> direction_out \<and> p = None"
| "place_ok Wait direction_out p \<longleftrightarrow> \<not> direction_out \<and> p \<noteq> None"
| "place_ok _ direction_out p \<longleftrightarrow> True"

definition running :: "('s, 'd) ep0_threads \<Rightarrow> bool" where
  "running h \<longleftrightarrow> \<not> h_reader_stop h \<and> \<not> h_writer_stop h \<and> h_reader h \<noteq> Ended \<and>
     h_writer h \<noteq> Ended \<and> h_writer h \<noteq> Wait \<and>
     None \<notin> set (in_hand (h_writer h) @ sq_items (h_out h)) \<and>
     None \<notin> set (in_hand (h_reader h) @ sq_items (h_in h)) \<and>
     (h_direction_out h \<longrightarrow> h_p h = None) \<and>
     place_ok (h_reader h) (h_direction_out h) (h_p h)"

lemma abs_in_flight:
  assumes "ep0_reachable filters dev (abs_ep0 h)"
  shows "length (in_hand (h_writer h)) + length (sq_items (h_out h))
    + length (in_hand (h_reader h)) + length (sq_items (h_in h)) \<le> 1"
  using ep0_reachable_inv [OF assms] by (auto simp: ep0_inv_def in_flight_def abs_ep0_def)

lemma items_enqueue_short:
  "length (sq_items q) \<le> 1 \<Longrightarrow> sq_items (enqueue x q) = sq_items q @ [x]"
  by (simp add: items_enqueue QUEUE_MAX_def)

lemma wait_refines:
  assumes run: "running h" "ep0_reachable filters dev (abs_ep0 h)"
    and here: "\<not> h_direction_out h" "h_p h = Some s" "h_reader h = Body \<or> h_reader h = Wait"
  shows "running (reader_wait completed h) \<and>
    ep0_reachable filters dev (abs_ep0 (reader_wait completed h))"
proof (cases completed)
  case True
  have "ep0_step filters dev (abs_ep0 h) ((abs_ep0 h)\<lparr>e_p := None, e_direction_out := True\<rparr>)"
    by (rule ep0_step.complete [of _ s]) (simp_all add: abs_ep0_def here)
  moreover have "(abs_ep0 h)\<lparr>e_p := None, e_direction_out := True\<rparr> = abs_ep0 (reader_wait completed h)"
    using True here(3) by (auto simp: reader_wait_def abs_ep0_def)
  ultimately have "ep0_reachable filters dev (abs_ep0 (reader_wait completed h))"
    using ep0_reachable.step [OF run(2)] by simp
  moreover have "running (reader_wait completed h)"
    using run(1) here(3) True by (auto simp: reader_wait_def running_def)
  ultimately show ?thesis by blast
qed (use run here in \<open>auto simp: reader_wait_def running_def abs_ep0_def\<close>)

text \<open>A turn of a thread is a step of \<open>ep0\<close> or changes nothing there.\<close>

lemma reader_turn_refines:
  assumes turn: "setup_reader_turn req completed h = Inr h'"
    and run: "running h" "ep0_reachable filters dev (abs_ep0 h)"
  shows "running h' \<and> ep0_reachable filters dev (abs_ep0 h')"
proof (cases "h_reader h")
  case Test
  with turn run show ?thesis by (auto simp: setup_reader_turn_def running_def abs_ep0_def)
next
  case Body
  note short = abs_in_flight [OF run(2)]
  show ?thesis
  proof (cases "h_direction_out h")
    case True
    show ?thesis
    proof (cases req)
      case None
      with turn run Body True show ?thesis
        by (auto simp: setup_reader_turn_def running_def abs_ep0_def)
    next
      case (Some rd)
      obtain r d where rd: "rd = (r, d)" by (cases rd)
      let ?s = "new_setup_packet r d True"
      have h': "h' = h\<lparr>h_reader := Test, h_out := enqueue (Some ?s) (h_out h),
          h_direction_out := False, h_requests := h_requests h @ [r]\<rparr>"
        using turn Body True Some rd by (simp add: setup_reader_turn_def)
      have "ep0_step filters dev (abs_ep0 h) ((abs_ep0 h)\<lparr>e_out := enqueue ?s (e_out (abs_ep0 h)),
          e_direction_out := False, e_requests := e_requests (abs_ep0 h) @ [r]\<rparr>)"
        by (rule ep0_step.request) (simp add: abs_ep0_def True)
      moreover have "(abs_ep0 h)\<lparr>e_out := enqueue ?s (e_out (abs_ep0 h)), e_direction_out := False,
          e_requests := e_requests (abs_ep0 h) @ [r]\<rparr> = abs_ep0 h'"
        using short Body by (simp add: h' abs_ep0_def items_enqueue_short)
      ultimately have "ep0_reachable filters dev (abs_ep0 h')"
        using ep0_reachable.step [OF run(2)] by simp
      moreover have "running h'"
        using run(1) short Body True by (simp add: h' running_def items_enqueue_short)
      ultimately show ?thesis by blast
    qed
  next
    case False
    show ?thesis
    proof (cases "h_p h")
      case None
      show ?thesis
      proof (cases "sq_items (h_in h)")
        case Nil
        with turn run Body False None show ?thesis
          by (simp add: setup_reader_turn_def dequeue_eq)
      next
        case (Cons x xs)
        with turn Body False None
        have h': "h' = h\<lparr>h_reader := Got x, h_in := (h_in h)\<lparr>sq_items := xs\<rparr>\<rparr>"
          by (simp add: setup_reader_turn_def dequeue_eq)
        have "abs_ep0 h' = abs_ep0 h" using Cons Body by (simp add: h' abs_ep0_def)
        with run show ?thesis using Cons Body False None by (simp add: h' running_def)
      qed
    next
      case (Some s)
      with turn Body False have h': "h' = reader_wait completed h"
        by (simp add: setup_reader_turn_def)
      show ?thesis
        unfolding h' by (rule wait_refines [OF run]) (simp_all add: Body False Some)
    qed
  qed
next
  case (Got x)
  with run(1) obtain s where x: "x = Some s" and here: "\<not> h_direction_out h" "h_p h = None"
    by (cases x) (auto simp: running_def)
  from turn run(1) Got x obtain a where a: "reply_action s = Inr a"
    and h': "h' = h\<lparr>h_reader := Wait, h_p := Some s, h_replies := h_replies h @ [a]\<rparr>"
    by (auto simp: setup_reader_turn_def running_def and_then_eq_Inr)
  let ?q = "queue_of (map the (sq_items (h_in h)))"
  have "ep0_step filters dev (abs_ep0 h) ((abs_ep0 h)\<lparr>e_in := ?q, e_p := Some s,
      e_replies := e_replies (abs_ep0 h) @ [a]\<rparr>)"
    by (rule ep0_step.reply) (simp_all add: abs_ep0_def here Got x a)
  moreover have "(abs_ep0 h)\<lparr>e_in := ?q, e_p := Some s,
      e_replies := e_replies (abs_ep0 h) @ [a]\<rparr> = abs_ep0 h'"
    by (simp add: h' abs_ep0_def)
  ultimately have "ep0_reachable filters dev (abs_ep0 h')"
    using ep0_reachable.step [OF run(2)] by simp
  moreover have "running h'" using run(1) Got here by (simp add: h' running_def)
  ultimately show ?thesis by blast
next
  case Wait
  with run(1) obtain s where "\<not> h_direction_out h" "h_p h = Some s" by (auto simp: running_def)
  moreover from turn Wait have "h' = reader_wait completed h" by (simp add: setup_reader_turn_def)
  ultimately show ?thesis using wait_refines [OF run] Wait by simp
next
  case Ended
  with run(1) show ?thesis by (simp add: running_def)
qed

lemma writer_turn_refines:
  assumes turn: "setup_writer_turn filters dev h = Inr h'"
    and run: "running h" "ep0_reachable filters dev (abs_ep0 h)"
  shows "running h' \<and> ep0_reachable filters dev (abs_ep0 h')"
proof (cases "h_writer h")
  case Test
  with turn run show ?thesis by (auto simp: setup_writer_turn_def running_def abs_ep0_def)
next
  case Body
  show ?thesis
  proof (cases "sq_items (h_out h)")
    case Nil
    with turn run Body show ?thesis by (simp add: setup_writer_turn_def dequeue_eq)
  next
    case (Cons x xs)
    with turn Body have h': "h' = h\<lparr>h_writer := Got x, h_out := (h_out h)\<lparr>sq_items := xs\<rparr>\<rparr>"
      by (simp add: setup_writer_turn_def dequeue_eq)
    have "abs_ep0 h' = abs_ep0 h" using Cons Body by (simp add: h' abs_ep0_def)
    with run show ?thesis using Cons Body by (simp add: h' running_def)
  qed
next
  case (Got x)
  note short = abs_in_flight [OF run(2)]
  from run(1) Got obtain s where x: "x = Some s" by (cases x) (auto simp: running_def)
  from turn run(1) Got x obtain s' cfg ws where
    w: "relay_write_setup filters dev s (h_ws h) = Inr (s', cfg, ws)" and
    h': "h' = h\<lparr>h_writer := Test, h_ws := ws,
      h_in := (case s' of None \<Rightarrow> h_in h | Some s' \<Rightarrow> enqueue (Some s') (h_in h)),
      h_configs := h_configs h @ (case cfg of None \<Rightarrow> [] | Some v \<Rightarrow> [v])\<rparr>"
    by (auto simp: setup_writer_turn_def running_def and_then_eq_Inr)
  let ?q = "queue_of (map the (sq_items (h_out h)))"
  have dq: "dequeue (e_out (abs_ep0 h)) = (Some s, ?q)" by (simp add: abs_ep0_def Got x)
  have w': "relay_write_setup filters dev s (e_ws (abs_ep0 h)) = Inr (s', cfg, ws)"
    using w by (simp add: abs_ep0_def)
  have "ep0_reachable filters dev (abs_ep0 h')"
  proof (cases s')
    case None
    with w have "cfg = None" by (auto simp: relay_write_setup_def and_then_eq_Inr split: if_splits)
    have "ep0_step filters dev (abs_ep0 h) ((abs_ep0 h)\<lparr>e_out := ?q, e_ws := ws\<rparr>)"
      by (rule ep0_step.drop_packet [OF dq w' [unfolded None]])
    moreover have "(abs_ep0 h)\<lparr>e_out := ?q, e_ws := ws\<rparr> = abs_ep0 h'"
      by (simp add: h' abs_ep0_def None \<open>cfg = None\<close>)
    ultimately show ?thesis using ep0_reachable.step [OF run(2)] by simp
  next
    case (Some p)
    have "ep0_step filters dev (abs_ep0 h) ((abs_ep0 h)\<lparr>e_out := ?q,
        e_in := enqueue p (e_in (abs_ep0 h)), e_ws := ws,
        e_configs := e_configs (abs_ep0 h) @ (case cfg of None \<Rightarrow> [] | Some v \<Rightarrow> [v])\<rparr>)"
      by (rule ep0_step.write_back [OF dq w' [unfolded Some]])
    moreover have "(abs_ep0 h)\<lparr>e_out := ?q,
        e_in := enqueue p (e_in (abs_ep0 h)), e_ws := ws,
        e_configs := e_configs (abs_ep0 h) @ (case cfg of None \<Rightarrow> [] | Some v \<Rightarrow> [v])\<rparr> = abs_ep0 h'"
      using short Got by (simp add: h' abs_ep0_def Some items_enqueue_short)
    ultimately show ?thesis using ep0_reachable.step [OF run(2)] by simp
  qed
  moreover have "running h'"
    using run(1) short Got
    by (cases s') (simp_all add: h' running_def items_enqueue_short)
  ultimately show ?thesis by blast
qed (use run(1) in \<open>simp_all add: running_def\<close>)

lemma flags_stay:
  assumes "setup_exec filters dev a h = Inr h'" "\<not> h_r_flagged h' \<and> \<not> h_w_flagged h'"
  shows "\<not> h_r_flagged h \<and> \<not> h_w_flagged h \<and>
    (setup_exec filters dev a h = Inr h \<or> is_setup_reader_turn a \<or> is_setup_writer_turn a)"
proof (cases a)
  case (SetupReaderTurn req completed)
  with assms(1) have t: "setup_reader_turn req completed h = Inr h'" by simp
  then have "h_r_flagged h' = h_r_flagged h"
    by (cases "h_reader h") (auto simp: setup_reader_turn_def reader_wait_def and_then_eq_Inr
      split: if_splits option.splits prod.splits)
  with reader_turn_frame(4) [OF t] assms(2) show ?thesis by (simp add: SetupReaderTurn)
next
  case SetupWriterTurn
  with assms(1) have t: "setup_writer_turn filters dev h = Inr h'" by simp
  then have "h_w_flagged h' = h_w_flagged h"
    by (cases "h_writer h") (auto simp: setup_writer_turn_def and_then_eq_Inr
      split: if_splits option.splits prod.splits)
  with writer_turn_frame(5) [OF t] assms(2) show ?thesis by (simp add: SetupWriterTurn)
qed (use assms in \<open>auto simp: setup_stops split: if_splits\<close>)

text \<open>C18: until one of them is asked to stop, the loops of the two threads of endpoint 0 implement the
  steps of \<open>ep0\<close>: every state of the threads corresponds to a reachable state there, in which a
  packet that a thread holds counts as queued. So there is one request under way at a time.\<close>

theorem ep0_threads_refine:
  assumes "run_acts (setup_exec filters dev) acts (ep0_threads_init ws) = Inr h"
    and "\<not> h_r_flagged h \<and> \<not> h_w_flagged h"
  shows "ep0_reachable filters dev (abs_ep0 h)"
proof -
  have "\<not> h_r_flagged h \<and> \<not> h_w_flagged h \<longrightarrow>
    running h \<and> ep0_reachable filters dev (abs_ep0 h)"
  proof (rule run_acts_keeps [OF _ assms(1)])
    fix a and k k' :: "('a, 'b) ep0_threads"
    assume k: "setup_exec filters dev a k = Inr k'"
      and P: "\<not> h_r_flagged k \<and> \<not> h_w_flagged k \<longrightarrow>
        running k \<and> ep0_reachable filters dev (abs_ep0 k)"
    show "\<not> h_r_flagged k' \<and> \<not> h_w_flagged k' \<longrightarrow>
        running k' \<and> ep0_reachable filters dev (abs_ep0 k')"
    proof
      assume "\<not> h_r_flagged k' \<and> \<not> h_w_flagged k'"
      from flags_stay [OF k this] P have run: "running k" "ep0_reachable filters dev (abs_ep0 k)"
        and act: "setup_exec filters dev a k = Inr k \<or> is_setup_reader_turn a \<or>
          is_setup_writer_turn a" by simp_all
      show "running k' \<and> ep0_reachable filters dev (abs_ep0 k')"
      proof (cases a)
        case (SetupReaderTurn req completed)
        with k reader_turn_refines [OF _ run] show ?thesis by simp
      next
        case SetupWriterTurn
        with k writer_turn_refines [OF _ run] show ?thesis by simp
      qed (use k act run in simp_all)
    qed
  next
    have "abs_ep0 (ep0_threads_init ws) = ep0_init ws"
      by (simp add: abs_ep0_def ep0_threads_init_def ep0_init_def queue_of_def new_queue_def)
    then show "\<not> h_r_flagged (ep0_threads_init ws) \<and> \<not> h_w_flagged (ep0_threads_init ws) \<longrightarrow>
      running (ep0_threads_init ws) \<and> ep0_reachable filters dev (abs_ep0 (ep0_threads_init ws))"
      by (simp add: ep0_reachable.initial) (simp add: running_def ep0_threads_init_def)
  qed
  with assms(2) show ?thesis by blast
qed

text \<open>A request that the writer has taken from its queue.\<close>

theorem ep0_threads_refine_witness:
  "\<exists>h. run_acts (setup_exec [] (echo_device [18, 1]))
      [SetupReaderTurn None True, SetupReaderTurn (Some (get_device_request, None)) True,
       SetupWriterTurn, SetupWriterTurn] (ep0_threads_init (fresh_writer ((), ()))) = Inr h \<and>
    h_requests h = [get_device_request] \<and>
    ep0_reachable ([] :: unit pfilter list) (echo_device [18, 1]) (abs_ep0 h)"
proof -
  obtain h where 1: "run_acts (setup_exec ([] :: unit pfilter list) (echo_device [18, 1]))
      [SetupReaderTurn None True, SetupReaderTurn (Some (get_device_request, None)) True,
       SetupWriterTurn, SetupWriterTurn] (ep0_threads_init (fresh_writer ((), ()))) = Inr h"
    and 2: "\<not> h_r_flagged h \<and> \<not> h_w_flagged h" "h_requests h = [get_device_request]"
    by (simp add: setup_reader_turn_def setup_writer_turn_def dequeue_eq enqueue_def push_def
        notify_one_def new_queue_def ep0_threads_init_def)
  from ep0_threads_refine [OF 1 2(1)] 1 2(2) show ?thesis by blast
qed

end
