(* ===== verification/Loopback.thy ===== *)
theory Loopback
  imports Device_Model Relay
begin

text \<open>
  The loopback device (\<open>src/Plugins/Devices/DeviceProxy_Loopback.cpp\<close>): a device proxy that
  answers the enumeration requests itself and keeps a ring of \<open>BUF_LEN\<close> packets between
  \<open>send_data\<close> and \<open>receive_data\<close>. The ring implements a counter of packets, and the theorems show
  that the packets that come out of it are empty.
\<close>

definition BUF_LEN :: nat where "BUF_LEN = 100"

record pkt =
  pkt_length :: int
  pkt_data :: "bytes option"

definition STRING_MANUFACTURER :: u8 where "STRING_MANUFACTURER = 1"
definition STRING_PRODUCT :: u8 where "STRING_PRODUCT = 2"
definition STRING_SERIAL :: u8 where "STRING_SERIAL = 3"
definition STRING_LOOPBACK :: u8 where "STRING_LOOPBACK = 4"

lemmas loopback_consts =
  STRING_MANUFACTURER_def STRING_PRODUCT_def STRING_SERIAL_def STRING_LOOPBACK_def

text \<open>\<open>lb_buffer\<close> is the pointer to the ring, NULL while the proxy is not connected;
  \<open>lb_strings\<close> is the static table of strings.\<close>

record loopback =
  lb_is_connected :: bool
  lb_buffer :: "pkt list option"
  lb_head :: nat
  lb_tail :: nat
  lb_full :: bool
  lb_device :: device_descriptor
  lb_config :: config_descriptor
  lb_interface :: interface_descriptor
  lb_eps :: "endpoint_descriptor list"
  lb_strings :: "usb_string list"

section \<open>Construction\<close>

definition loopback_endpoint :: "u8 \<Rightarrow> endpoint_descriptor" where
  "loopback_endpoint address =
     \<lparr>ep_bLength = 7, ep_bDescriptorType = USB_DT_ENDPOINT, ep_bEndpointAddress = address,
      ep_bmAttributes = 3, ep_wMaxPacketSize = 64, ep_bInterval = 10,
      ep_bRefresh = None, ep_bSynchAddress = None\<rparr>"

text \<open>The five strings; their bytes are the ASCII codes of the literals.\<close>

definition loopback_strings :: "usb_string list" where
  "loopback_strings =
     [string_of_units 0 [0x0409] 0 0,
      string_of_chars 1 [0x4d, 0x61, 0x6e, 0x75, 0x66, 0x61, 0x63, 0x74, 0x75, 0x72, 0x65, 0x72]
        STRING_MANUFACTURER 0x409,
      string_of_chars 2 [0x50, 0x72, 0x6f, 0x64, 0x75, 0x63, 0x74] STRING_PRODUCT 0x409,
      string_of_chars 3 [0x53, 0x65, 0x72, 0x69, 0x61, 0x6c] STRING_SERIAL 0x409,
      string_of_chars 4 [0x4c, 0x6f, 0x6f, 0x70, 0x62, 0x61, 0x63, 0x6b] STRING_LOOPBACK 0x409]"

definition loopback_new :: "int \<Rightarrow> int \<Rightarrow> loopback" where
  "loopback_new vendorId productId =
     \<lparr>lb_is_connected = False, lb_buffer = None, lb_head = 0, lb_tail = 0, lb_full = False,
      lb_device =
        \<lparr>dd_bLength = 18, dd_bDescriptorType = USB_DT_DEVICE, dd_bcdUSB = 0x0100,
         dd_bDeviceClass = 0xff, dd_bDeviceSubClass = 0, dd_bDeviceProtocol = 0,
         dd_bMaxPacketSize0 = 64, dd_idVendor = of_int vendorId, dd_idProduct = of_int productId,
         dd_bcdDevice = 0, dd_iManufacturer = STRING_MANUFACTURER, dd_iProduct = STRING_PRODUCT,
         dd_iSerialNumber = STRING_SERIAL, dd_bNumConfigurations = 1\<rparr>,
      lb_config =
        \<lparr>cf_bLength = 9, cf_bDescriptorType = USB_DT_CONFIG, cf_wTotalLength = 9 + 9 + 7 + 7,
         cf_bNumInterfaces = 1, cf_bConfigurationValue = 1, cf_iConfiguration = STRING_LOOPBACK,
         cf_bmAttributes = 0x80 OR 0x40, cf_bMaxPower = 1\<rparr>,
      lb_interface =
        \<lparr>if_bLength = 9, if_bDescriptorType = USB_DT_INTERFACE, if_bInterfaceNumber = 0,
         if_bAlternateSetting = 0, if_bNumEndpoints = 2, if_bInterfaceClass = 0xff,
         if_bInterfaceSubClass = 0, if_bInterfaceProtocol = 0, if_iInterface = STRING_LOOPBACK\<rparr>,
      lb_eps = [loopback_endpoint (0x80 OR 1), loopback_endpoint 1],
      lb_strings = loopback_strings\<rparr>"

definition loopback_of_config :: loopback where
  "loopback_of_config = loopback_new 0xffff 0xffff"

section \<open>Connection\<close>

definition lb_connect :: "loopback \<Rightarrow> loopback" where
  "lb_connect lb = lb\<lparr>lb_buffer := Some (replicate BUF_LEN \<lparr>pkt_length = 0, pkt_data = None\<rparr>),
     lb_head := 0, lb_tail := 0, lb_full := False, lb_is_connected := True\<rparr>"

definition lb_disconnect :: "loopback \<Rightarrow> loopback" where
  "lb_disconnect lb = lb\<lparr>lb_buffer := None, lb_full := False, lb_is_connected := False\<rparr>"

definition lb_reset :: "loopback \<Rightarrow> loopback" where
  "lb_reset lb = lb\<lparr>lb_head := 0, lb_tail := 0, lb_full := False\<rparr>"

section \<open>Control requests\<close>

definition lb_config_bytes :: "loopback \<Rightarrow> bytes res" where
  "lb_config_bytes lb =
     and_then (written (concat (map (\<lambda>e. take (unat (ep_bLength e)) (endpoint_struct e)) (lb_eps lb))))
       (\<lambda>eps. Inr (take (unat (cf_bLength (lb_config lb))) (config_struct (lb_config lb))
          @ take (unat (if_bLength (lb_interface lb))) (interface_struct (lb_interface lb))
          @ eps))"

text \<open>The return code, what is stored through \<open>nbytes\<close> (\<open>None\<close> when nothing is) and the bytes
  stored at \<open>dataptr\<close>. The device descriptor is stored whole, whatever \<open>wLength\<close> is; requests
  that the proxy does not know are answered with 0 and store nothing.\<close>

definition lb_get_descriptor :: "loopback \<Rightarrow> usb_ctrlrequest \<Rightarrow> (int \<times> int option \<times> bytes) res" where
  "lb_get_descriptor lb r =
     (let ty = hi8 (cr_wValue r); idx = lo8 (cr_wValue r) in
      if ty = USB_DT_DEVICE then
        Inr (0, Some (uint (dd_bLength (lb_device lb))),
             take (unat (dd_bLength (lb_device lb))) (device_struct (lb_device lb)))
      else if ty = USB_DT_CONFIG then
        (if idx \<ge> dd_bNumConfigurations (lb_device lb) then Inr (-1, None, [])
         else and_then (lb_config_bytes lb) (\<lambda>buf.
           let n = min (unat (cf_wTotalLength (lb_config lb))) (unat (cr_wLength r)) in
           and_then (first_n buf n) (\<lambda>b. Inr (0, Some (int n), b))))
      else if ty = USB_DT_STRING then
        (if 0 < idx \<and> cr_wIndex r \<noteq> 0x409 then Inr (-1, None, [])
         else if idx > STRING_LOOPBACK then Inr (-1, None, [])
         else and_then (index (lb_strings lb) (unat idx)) (\<lambda>s.
           and_then (string_length_byte s) (\<lambda>len.
             let n = min (unat len) (unat (cr_wLength r)) in
             and_then (first_n (us_data s) n) (\<lambda>b. Inr (0, Some (int n), b)))))
      else if ty = USB_DT_DEVICE_QUALIFIER then Inr (-1, None, [])
      else if ty = USB_DT_OTHER_SPEED_CONFIG then Inr (-1, None, [])
      else Inr (0, None, []))"

definition lb_control_request :: "loopback \<Rightarrow> usb_ctrlrequest \<Rightarrow> (int \<times> int option \<times> bytes) res" where
  "lb_control_request lb r =
     (if is_in r \<and> cr_bRequest r = USB_REQ_GET_DESCRIPTOR then lb_get_descriptor lb r
      else if is_in r \<and> cr_bRequest r = USB_REQ_GET_CONFIGURATION then Inr (0, Some 1, [1])
      else if is_in r \<and> cr_bRequest r = USB_REQ_GET_INTERFACE then Inr (0, Some 1, [1])
      else Inr (0, None, []))"

section \<open>Data\<close>

text \<open>\<open>send_data\<close> fills a local copy of the slot (\<open>next\<close>) and frees the slot's own block: of the
  packet only the step of \<open>tail\<close> remains.\<close>

definition lb_send_data :: "bytes \<Rightarrow> loopback \<Rightarrow> loopback res" where
  "lb_send_data dataptr lb =
     (if lb_head lb = lb_tail lb \<and> lb_full lb then Inr lb
      else and_then (deref (lb_buffer lb)) (\<lambda>buf.
        and_then (index buf (lb_tail lb)) (\<lambda>slot.
          let tail = (lb_tail lb + 1) mod BUF_LEN in
          Inr (lb\<lparr>lb_buffer := Some (buf[lb_tail lb := slot\<lparr>pkt_data := None\<rparr>]),
                 lb_tail := tail, lb_full := (lb_head lb = tail)\<rparr>))))"

text \<open>What is stored through \<open>dataptr\<close> (if anything) and \<open>length\<close>.\<close>

definition lb_receive_data :: "loopback \<Rightarrow> ((bytes option option \<times> int) \<times> loopback) res" where
  "lb_receive_data lb =
     (if lb_head lb = lb_tail lb \<and> \<not> lb_full lb then Inr ((None, 0), lb)
      else and_then (deref (lb_buffer lb)) (\<lambda>buf.
        and_then (index buf (lb_head lb)) (\<lambda>next.
          let head = (lb_head lb + 1) mod BUF_LEN in
          Inr ((Some (pkt_data next), pkt_length next),
               lb\<lparr>lb_head := head, lb_full := (head \<noteq> lb_tail lb)\<rparr>))))"

text \<open>The operations of a connected proxy, one after the other; the results of \<open>receive_data\<close>.\<close>

datatype lb_op = LbSend bytes | LbReceive | LbReset | LbConnect

fun lb_run :: "lb_op list \<Rightarrow> loopback \<Rightarrow> ((bytes option option \<times> int) list \<times> loopback) res" where
  "lb_run [] lb = Inr ([], lb)"
| "lb_run (LbSend b # ops) lb = and_then (lb_send_data b lb) (lb_run ops)"
| "lb_run (LbReceive # ops) lb = and_then (lb_receive_data lb) (\<lambda>(r, lb1).
     and_then (lb_run ops lb1) (\<lambda>(rs, lb2). Inr (r # rs, lb2)))"
| "lb_run (LbReset # ops) lb = lb_run ops (lb_reset lb)"
| "lb_run (LbConnect # ops) lb = lb_run ops (lb_connect lb)"


section \<open>The ring\<close>

definition lb_count :: "loopback \<Rightarrow> nat" where
  "lb_count lb =
     (if lb_head lb = lb_tail lb then (if lb_full lb then BUF_LEN else 0)
      else (lb_tail lb + BUF_LEN - lb_head lb) mod BUF_LEN)"

definition empty_pkt :: pkt where
  "empty_pkt = \<lparr>pkt_length = 0, pkt_data = None\<rparr>"

definition lb_wf :: "loopback \<Rightarrow> bool" where
  "lb_wf lb \<longleftrightarrow> lb_head lb < BUF_LEN \<and> lb_tail lb < BUF_LEN \<and>
     lb_buffer lb = Some (replicate BUF_LEN empty_pkt)"

text \<open>The specification: a counter of at most \<open>BUF_LEN\<close> packets without contents.\<close>

fun lb_spec :: "lb_op list \<Rightarrow> nat \<Rightarrow> (bytes option option \<times> int) list \<times> nat" where
  "lb_spec [] n = ([], n)"
| "lb_spec (LbSend b # ops) n = lb_spec ops (min BUF_LEN (n + 1))"
| "lb_spec (LbReceive # ops) n =
     (case lb_spec ops (n - 1) of (rs, m) \<Rightarrow> ((if n = 0 then None else Some None, 0) # rs, m))"
| "lb_spec (LbReset # ops) n = lb_spec ops 0"
| "lb_spec (LbConnect # ops) n = lb_spec ops 0"

lemma empty_pkt_update [simp]:
  "(replicate n empty_pkt)[i := empty_pkt\<lparr>pkt_data := None\<rparr>] = replicate n empty_pkt"
  by (induction n arbitrary: i) (auto simp: empty_pkt_def split: nat.splits)

lemma lb_connect_wf: "lb_wf (lb_connect lb)" "lb_count (lb_connect lb) = 0"
  by (simp_all add: lb_wf_def lb_connect_def BUF_LEN_def empty_pkt_def lb_count_def)

lemma lb_reset_wf: "lb_wf lb \<Longrightarrow> lb_wf (lb_reset lb)" "lb_count (lb_reset lb) = 0"
  by (simp_all add: lb_wf_def lb_reset_def BUF_LEN_def lb_count_def)

lemma ring_step:
  assumes "h < (100::nat)" "t < 100"
  shows "h \<noteq> t \<Longrightarrow> (t + 100 - h) mod 100 = (if h < t then t - h else t + 100 - h)"
    "(t + 1) mod 100 = (if t = 99 then 0 else t + 1)"
  using assms by (auto simp: mod_if)

lemma lb_send_step:
  assumes "lb_wf lb"
  obtains lb' where "lb_send_data b lb = Inr lb'" "lb_wf lb'" "lb_count lb' = min BUF_LEN (lb_count lb + 1)"
proof (cases "lb_head lb = lb_tail lb \<and> lb_full lb")
  case True
  with assms show ?thesis
    by (intro that [of lb]) (simp_all add: lb_send_data_def lb_count_def)
next
  case False
  let ?t = "(lb_tail lb + 1) mod BUF_LEN"
  let ?lb = "lb\<lparr>lb_tail := ?t, lb_full := (lb_head lb = ?t)\<rparr>"
  from assms have wf: "lb_head lb < 100" "lb_tail lb < 100"
    "lb_buffer lb = Some (replicate 100 empty_pkt)"
    by (simp_all add: lb_wf_def BUF_LEN_def)
  show ?thesis
  proof (rule that [of "?lb\<lparr>lb_buffer := Some (replicate BUF_LEN empty_pkt)\<rparr>"])
    show "lb_send_data b lb = Inr (?lb\<lparr>lb_buffer := Some (replicate BUF_LEN empty_pkt)\<rparr>)"
      using False wf by (auto simp: lb_send_data_def Let_def BUF_LEN_def)
    show "lb_wf (?lb\<lparr>lb_buffer := Some (replicate BUF_LEN empty_pkt)\<rparr>)"
      using wf by (simp add: lb_wf_def BUF_LEN_def)
    show "lb_count (?lb\<lparr>lb_buffer := Some (replicate BUF_LEN empty_pkt)\<rparr>) = min BUF_LEN (lb_count lb + 1)"
      using False wf ring_step [OF wf(1,2)] ring_step(1) [OF wf(1), of "(lb_tail lb + 1) mod 100"]
      by (auto simp: lb_count_def BUF_LEN_def split: if_splits)
  qed
qed

lemma lb_receive_step:
  assumes "lb_wf lb"
  obtains lb' where
    "lb_receive_data lb = Inr ((if lb_count lb = 0 then None else Some None, 0), lb')"
    "lb_wf lb'" "lb_count lb' = lb_count lb - 1"
proof -
  from assms have wf: "lb_head lb < 100" "lb_tail lb < 100"
    "lb_buffer lb = Some (replicate 100 empty_pkt)"
    by (simp_all add: lb_wf_def BUF_LEN_def)
  show ?thesis
  proof (cases "lb_head lb = lb_tail lb \<and> \<not> lb_full lb")
    case True
    with assms show ?thesis
      by (intro that [of lb]) (simp_all add: lb_receive_data_def lb_count_def)
  next
    case False
    let ?h = "(lb_head lb + 1) mod BUF_LEN"
    have pos: "lb_count lb \<noteq> 0"
      using False wf ring_step(1) [OF wf(1,2)]
      by (auto simp: lb_count_def BUF_LEN_def split: if_splits)
    show ?thesis
    proof (rule that [of "lb\<lparr>lb_head := ?h, lb_full := (?h \<noteq> lb_tail lb)\<rparr>"])
      show "lb_receive_data lb = Inr ((if lb_count lb = 0 then None else Some None, 0),
          lb\<lparr>lb_head := ?h, lb_full := (?h \<noteq> lb_tail lb)\<rparr>)"
        using False pos wf by (simp add: lb_receive_data_def Let_def BUF_LEN_def empty_pkt_def)
      show "lb_wf (lb\<lparr>lb_head := ?h, lb_full := (?h \<noteq> lb_tail lb)\<rparr>)"
        using wf by (simp add: lb_wf_def BUF_LEN_def)
      show "lb_count (lb\<lparr>lb_head := ?h, lb_full := (?h \<noteq> lb_tail lb)\<rparr>) = lb_count lb - 1"
        using False wf ring_step [OF wf(1,2)] ring_step(2) [OF wf(2,1)]
          ring_step(1) [OF _ wf(2), of "(lb_head lb + 1) mod 100"]
        by (auto simp: lb_count_def BUF_LEN_def split: if_splits)
    qed
  qed
qed

lemma lb_run_spec:
  "lb_wf lb \<Longrightarrow>
     \<exists>lb'. lb_run ops lb = Inr (fst (lb_spec ops (lb_count lb)), lb') \<and> lb_wf lb' \<and>
       lb_count lb' = snd (lb_spec ops (lb_count lb))"
proof (induction ops arbitrary: lb)
  case Nil
  then show ?case by simp
next
  case (Cons op ops)
  show ?case
  proof (cases op)
    case (LbSend b)
    obtain lb1 where 1: "lb_send_data b lb = Inr lb1" "lb_wf lb1"
      "lb_count lb1 = min BUF_LEN (lb_count lb + 1)"
      using lb_send_step [OF Cons.prems] by blast
    from Cons.IH [OF 1(2)] show ?thesis by (simp add: LbSend 1)
  next
    case LbReceive
    obtain lb1 where 1: "lb_receive_data lb = Inr ((if lb_count lb = 0 then None else Some None, 0), lb1)"
      "lb_wf lb1" "lb_count lb1 = lb_count lb - 1"
      using lb_receive_step [OF Cons.prems] by blast
    from Cons.IH [OF 1(2)] show ?thesis
      by (auto simp: LbReceive 1 split: prod.split)
  next
    case LbReset
    from Cons.IH [OF lb_reset_wf(1) [OF Cons.prems]] show ?thesis
      by (simp add: LbReset lb_reset_wf)
  next
    case LbConnect
    from Cons.IH [OF lb_connect_wf(1)] show ?thesis by (simp add: LbConnect lb_connect_wf)
  qed
qed

text \<open>C33: the ring of the loopback device implements a counter: from \<open>connect\<close> on, every sequence
  of operations runs without a fault, leaves as many packets in the ring as were sent and neither
  received nor dropped because \<open>BUF_LEN\<close> were waiting, and each \<open>receive_data\<close> reports no data
  exactly when the counter is 0. (\<open>full\<close> is also set when packets remain after a receive; it is
  only read when \<open>head\<close> meets \<open>tail\<close>, where it is right.) What a waiting packet delivers is always
  a null pointer and length 0: \<open>send_data\<close> never stores the data.\<close>

theorem loopback_ring_refines:
  "\<exists>lb'. lb_run ops (lb_connect lb) = Inr (fst (lb_spec ops 0), lb') \<and>
     lb_count lb' = snd (lb_spec ops 0) \<and>
     set (fst (lb_spec ops 0)) \<subseteq> {(None, 0), (Some None, 0)}"
proof -
  have "set (fst (lb_spec ops n)) \<subseteq> {(None, 0), (Some None, 0)}" for n
    by (induction ops n rule: lb_spec.induct) (auto split: prod.splits)
  with lb_run_spec [OF lb_connect_wf(1), of ops lb] show ?thesis
    by (auto simp: lb_connect_wf)
qed

section \<open>The loopback device behind the other components\<close>

text \<open>The proxy as the parameter of the constructors of the device model, and of the relay.\<close>

definition lb_dev :: "loopback \<Rightarrow> unit dev" where
  "lb_dev lb r d st =
     (case lb_control_request lb r of
        Inr (rc, nb, bs) \<Rightarrow> ((rc, nb, bs), st)
      | Inl e \<Rightarrow> ((-1, None, []), st))"

definition lb_creq :: "loopback \<Rightarrow> unit creq" where
  "lb_creq lb r st = (case lb_dev lb r None st of ((rc, nb, bs), st') \<Rightarrow> ((rc, bs), st'))"

text \<open>The loopback device enumerates: the constructor of \<open>Device\<close>, run on the loopback proxy,
  succeeds, and the device it builds passes \<open>Device::is_defined\<close> with configuration 1 active: the
  descriptors, strings and languages the proxy serves are complete and consistent.\<close>

theorem loopback_enumerates:
  "case device_from_proxy 512 (lb_creq loopback_of_config) (\<lambda>_. 1) (\<lambda>_. False) () of
     Inl e \<Rightarrow> False
   | Inr (dv, st) \<Rightarrow> device_is_defined dv = Inr no_error \<and> dv_deviceConfigurationIndex dv = 1"
  by code_simp

text \<open>A request for fewer than 18 bytes of the device descriptor makes the loopback device
  write past the buffer that the relay allocated for the answer: the descriptor is copied whole,
  whatever \<open>wLength\<close> says.\<close>

theorem loopback_overflows_short_request:
  assumes "is_in r" "cr_bRequest r = USB_REQ_GET_DESCRIPTOR"
    and "hi8 (cr_wValue r) = USB_DT_DEVICE" "cr_wLength r < 18"
  shows "relay_write_setup [] (lb_dev (loopback_new vendor product))
    (new_setup_packet r None True) ws = Inl OutOfBounds"
proof -
  have "length (device_struct d) = 18" for d by (simp add: device_struct_def)
  moreover have "unat (cr_wLength r) < 18"
    using assms(4) by (simp add: word_less_nat_alt)
  ultimately show ?thesis
    using assms
    by (simp add: relay_write_setup_def new_setup_packet_def writer_transfer_def lb_dev_def is_in_def
        lb_control_request_def lb_get_descriptor_def loopback_new_def Let_def)
qed

theorem loopback_overflows_short_request_witness:
  "relay_write_setup [] (lb_dev loopback_of_config)
     (new_setup_packet (get_device_request\<lparr>cr_wLength := 8\<rparr>) None True) (fresh_writer ((), ())) =
   Inl OutOfBounds"
  unfolding loopback_of_config_def
  by (rule loopback_overflows_short_request)
    (simp_all add: get_device_request_def is_in_def hi8_def usb_consts)

end
