(* ===== verification/Tcp_Model.thy ===== *)
theory Tcp_Model
  imports Configuration_Model
begin

text \<open>
  The TCP transport: \<open>TCP_Helper\<close> (\<open>src/lib/TCP_Helper.cpp\<close>) with one connection per endpoint,
  and the framing of control transfers by \<open>DeviceProxy_TCP\<close> and \<open>HostProxy_TCP\<close>. What the socket
  calls return is a parameter of every operation (\<open>net_env\<close>, \<open>open_env\<close>, \<open>read_result\<close>); sleeping
  and messages are left out.
\<close>

definition TCP_BUFFER_SIZE :: nat where "TCP_BUFFER_SIZE = 1456"
definition ETIMEDOUT :: int where "ETIMEDOUT = 110"
definition POLLIN :: u16 where "POLLIN = 1"
definition POLLOUT :: u16 where "POLLOUT = 4"
definition POLLHUP :: u16 where "POLLHUP = 16"

section \<open>Connections\<close>

text \<open>The tables have 32 entries, and 0 stands for no file descriptor. Of \<open>ep_buf\<close> only whether a
  block is allocated is kept: nothing reads the blocks.\<close>

record tcp_helper =
  tc_server :: bool
  tc_is_connected :: bool
  tc_connect :: "bool list"
  tc_socket :: "int list"
  tc_listener :: "int list"
  tc_buf :: "bool list"

definition new_tcp_helper :: "bool \<Rightarrow> tcp_helper" where
  "new_tcp_helper has_address =
     \<lparr>tc_server = \<not> has_address, tc_is_connected = False, tc_connect = replicate 32 False,
      tc_socket = replicate 32 0, tc_listener = replicate 32 0, tc_buf = replicate 32 False\<rparr>"

text \<open>The answers of one round of socket calls: \<open>socket()\<close>, \<open>connect()\<close>, \<open>poll()\<close> (\<open>None\<close> when it
  returns 0, otherwise \<open>revents\<close>), \<open>bind()\<close>, \<open>listen()\<close>, \<open>accept()\<close>.\<close>

datatype connect_result = Connected | InProgress | ConnectFailed

record net_env =
  ne_socket :: int
  ne_connect :: connect_result
  ne_poll :: "u16 option"
  ne_bind_ok :: bool
  ne_listen_ok :: bool
  ne_accept :: int

text \<open>The wait for an asynchronous connection, the last part of \<open>client_connect\<close>.\<close>

definition await_connect :: "net_env \<Rightarrow> nat \<Rightarrow> tcp_helper \<Rightarrow> int \<times> tcp_helper" where
  "await_connect env port tc =
     (if tc_socket tc ! port = 0 then (-1, tc)
      else (case ne_poll env of
        None \<Rightarrow> (ETIMEDOUT, tc)
      | Some revents \<Rightarrow>
          if revents AND POLLHUP \<noteq> 0 then (ETIMEDOUT, tc\<lparr>tc_socket := (tc_socket tc)[port := 0]\<rparr>)
          else if revents = POLLOUT then (0, tc\<lparr>tc_connect := (tc_connect tc)[port := True]\<rparr>)
          else (-1, tc)))"

definition client_connect :: "net_env \<Rightarrow> nat \<Rightarrow> tcp_helper \<Rightarrow> (int \<times> tcp_helper) res" where
  "client_connect env port tc =
     and_then (index (tc_connect tc) port) (\<lambda>conn. and_then (index (tc_socket tc) port) (\<lambda>sock.
       if conn \<and> sock \<noteq> 0 then Inr (0, tc)
       else if sock \<noteq> 0 then Inr (await_connect env port tc)
       else if ne_socket env < 0 then Inr (-1, tc)
       else
         (case ne_connect env of
            Connected \<Rightarrow>
              Inr (0, tc\<lparr>tc_socket := (tc_socket tc)[port := ne_socket env],
                         tc_connect := (tc_connect tc)[port := True]\<rparr>)
          | ConnectFailed \<Rightarrow> Inr (-1, tc)
          | InProgress \<Rightarrow>
              Inr (await_connect env port
                (tc\<lparr>tc_socket := (tc_socket tc)[port := ne_socket env],
                    tc_connect := (tc_connect tc)[port := False]\<rparr>)))))"

definition server_listen :: "net_env \<Rightarrow> nat \<Rightarrow> tcp_helper \<Rightarrow> tcp_helper res" where
  "server_listen env port tc =
     and_then (index (tc_listener tc) port) (\<lambda>listener.
       if listener \<noteq> 0 then Inr tc
       else if \<not> ne_bind_ok env then Inr tc
       else if \<not> ne_listen_ok env then Inr tc
       else Inr (tc\<lparr>tc_connect := (tc_connect tc)[port := False],
                    tc_listener := (tc_listener tc)[port := ne_socket env]\<rparr>))"

definition server_connect :: "net_env \<Rightarrow> nat \<Rightarrow> tcp_helper \<Rightarrow> int \<times> tcp_helper" where
  "server_connect env port tc =
     (if ne_poll env = Some POLLIN then
        (if ne_accept env < 0 then (-1, tc)
         else (0, tc\<lparr>tc_socket := (tc_socket tc)[port := ne_accept env],
                     tc_connect := (tc_connect tc)[port := True]\<rparr>))
      else (ETIMEDOUT, tc))"

text \<open>\<open>TCP_Helper::connect\<close>: the connection of endpoint 0.\<close>

definition tcp_connect :: "net_env \<Rightarrow> tcp_helper \<Rightarrow> (int \<times> tcp_helper) res" where
  "tcp_connect env tc =
     and_then
       (if tc_server tc then
          and_then (server_listen env 0 tc) (\<lambda>tc.
            and_then (index (tc_listener tc) 0) (\<lambda>l.
              Inr (if l = 0 then (ETIMEDOUT, tc) else server_connect env 0 tc)))
        else client_connect env 0 tc)
       (\<lambda>(rc, tc). Inr (rc, tc\<lparr>tc_is_connected := (rc = 0),
          tc_buf := (if rc = 0 then (tc_buf tc)[0 := True] else tc_buf tc)\<rparr>))"

text \<open>\<open>disconnect\<close> leaves \<open>ep_connect\<close> and \<open>p_is_connected\<close> as they are.\<close>

definition tcp_disconnect :: "tcp_helper \<Rightarrow> tcp_helper" where
  "tcp_disconnect tc =
     tc\<lparr>tc_listener := replicate 32 0, tc_socket := replicate 32 0, tc_buf := replicate 32 False\<rparr>"

section \<open>Opening the endpoints of a configuration\<close>

definition endpoint_port :: "u8 \<Rightarrow> nat" where
  "endpoint_port ep = unat (if ep AND 0x80 \<noteq> 0 then (ep AND 0xf) OR 0x10 else ep)"

text \<open>The answers during one call of \<open>open_endpoints\<close>: in the first loop (for the i-th endpoint),
  of the \<open>poll\<close> over all pending connections (\<open>revents\<close> by position) and in the last loop.\<close>

record open_env =
  oe_first :: "nat \<Rightarrow> net_env"
  oe_poll :: "(nat \<Rightarrow> u16) option"
  oe_last :: "nat \<Rightarrow> net_env"

fun client_first_loop :: "(nat \<Rightarrow> net_env) \<Rightarrow> nat \<Rightarrow> u8 list \<Rightarrow> tcp_helper \<Rightarrow> (nat \<times> tcp_helper) res" where
  "client_first_loop env i [] tc = Inr (0, tc)"
| "client_first_loop env i (ep # eps) tc =
     (let idx = endpoint_port ep in
      and_then (index (tc_connect tc) idx) (\<lambda>conn.
        if conn then client_first_loop env (i + 1) eps tc
        else and_then (index (tc_socket tc) idx) (\<lambda>sock.
          and_then (if sock = 0 then client_connect (env i) idx tc else Inr (0, tc)) (\<lambda>(rc, tc1).
            and_then (client_first_loop env (i + 1) eps tc1) (\<lambda>(n, tc2).
              Inr (if tc_connect tc1 ! idx then n else n + 1, tc2))))))"

fun server_first_loop :: "(nat \<Rightarrow> net_env) \<Rightarrow> nat \<Rightarrow> u8 list \<Rightarrow> tcp_helper \<Rightarrow> (nat \<times> tcp_helper) res" where
  "server_first_loop env i [] tc = Inr (0, tc)"
| "server_first_loop env i (ep # eps) tc =
     (let idx = endpoint_port ep in
      and_then (index (tc_connect tc) idx) (\<lambda>conn.
        if conn then server_first_loop env (i + 1) eps tc
        else and_then (server_listen (env i) idx tc) (\<lambda>tc1.
          and_then (server_first_loop env (i + 1) eps tc1) (\<lambda>(n, tc2). Inr (n + 1, tc2)))))"

text \<open>The second loop fills \<open>poll_idxs\<close>, an array of \<open>poll_count\<close> zeros.\<close>

definition pending_ports :: "tcp_helper \<Rightarrow> u8 list \<Rightarrow> nat \<Rightarrow> nat list res" where
  "pending_ports tc eps poll_count =
     (let idxs = filter (\<lambda>idx. \<not> tc_connect tc ! idx) (map endpoint_port eps) in
      if length idxs > poll_count then Inl OutOfBounds
      else Inr (idxs @ replicate (poll_count - length idxs) 0))"

fun client_last_loop ::
  "(nat \<Rightarrow> u16) \<Rightarrow> (nat \<Rightarrow> net_env) \<Rightarrow> nat \<Rightarrow> nat list \<Rightarrow> tcp_helper \<Rightarrow> (nat \<times> tcp_helper) res" where
  "client_last_loop revents env i [] tc = Inr (0, tc)"
| "client_last_loop revents env i (idx # idxs) tc =
     (let tc0 = (if revents i AND POLLHUP \<noteq> 0
                 then tc\<lparr>tc_socket := (tc_socket tc)[idx := 0]\<rparr> else tc) in
      and_then
        (if revents i = POLLOUT then
           and_then (client_connect (env i) idx tc0) (\<lambda>(rc, tc1).
             Inr (if rc = 0 then (1, tc1\<lparr>tc_buf := (tc_buf tc1)[idx := True]\<rparr>) else (0, tc1)))
         else Inr (0, tc0))
        (\<lambda>(k, tc1). and_then (client_last_loop revents env (i + 1) idxs tc1) (\<lambda>(n, tc2).
          Inr (k + n, tc2))))"

fun server_last_loop ::
  "(nat \<Rightarrow> u16) \<Rightarrow> (nat \<Rightarrow> net_env) \<Rightarrow> nat \<Rightarrow> nat list \<Rightarrow> tcp_helper \<Rightarrow> nat \<times> tcp_helper" where
  "server_last_loop revents env i [] tc = (0, tc)"
| "server_last_loop revents env i (idx # idxs) tc =
     (case (if revents i = POLLIN then
              (case server_connect (env i) idx tc of (rc, tc1) \<Rightarrow>
                 if rc = 0 then (1, tc1\<lparr>tc_buf := (tc_buf tc1)[idx := True]\<rparr>) else (0, tc1))
            else (0, tc)) of (k, tc1) \<Rightarrow>
        (case server_last_loop revents env (i + 1) idxs tc1 of (n, tc2) \<Rightarrow> (k + n, tc2)))"

text \<open>Both return the number of connections that are still missing, or \<open>ETIMEDOUT\<close>. Only the
  client's returns at once when nothing is missing.\<close>

definition client_open_endpoints :: "open_env \<Rightarrow> u8 list \<Rightarrow> tcp_helper \<Rightarrow> (int \<times> tcp_helper) res" where
  "client_open_endpoints env eps tc =
     and_then (client_first_loop (oe_first env) 0 eps tc) (\<lambda>(poll_count, tc1).
       if poll_count = 0 then Inr (0, tc1)
       else and_then (pending_ports tc1 eps poll_count) (\<lambda>idxs.
         case oe_poll env of
           None \<Rightarrow> Inr (ETIMEDOUT, tc1)
         | Some revents \<Rightarrow>
             and_then (client_last_loop revents (oe_last env) 0 idxs tc1) (\<lambda>(n, tc2).
               Inr (int poll_count - int n, tc2))))"

definition server_open_endpoints :: "open_env \<Rightarrow> u8 list \<Rightarrow> tcp_helper \<Rightarrow> (int \<times> tcp_helper) res" where
  "server_open_endpoints env eps tc =
     and_then (server_first_loop (oe_first env) 0 eps tc) (\<lambda>(poll_count, tc1).
       and_then (pending_ports tc1 eps poll_count) (\<lambda>idxs.
         case oe_poll env of
           None \<Rightarrow> Inr (ETIMEDOUT, tc1)
         | Some revents \<Rightarrow>
             (case server_last_loop revents (oe_last env) 0 idxs tc1 of (n, tc2) \<Rightarrow>
               Inr (int poll_count - int n, tc2))))"

definition open_endpoints :: "open_env \<Rightarrow> u8 list \<Rightarrow> tcp_helper \<Rightarrow> (int \<times> tcp_helper) res" where
  "open_endpoints env eps tc =
     (if tc_server tc then server_open_endpoints env eps tc else client_open_endpoints env eps tc)"

text \<open>The loop of both proxies' \<open>setConfig\<close>: \<open>open_endpoints\<close> until it returns 0 or less. It may
  run for ever, so it has fuel; \<open>envs\<close> are the answers of the rounds.\<close>

fun open_loop :: "nat \<Rightarrow> (nat \<Rightarrow> open_env) \<Rightarrow> nat \<Rightarrow> u8 list \<Rightarrow> tcp_helper \<Rightarrow> tcp_helper res" where
  "open_loop 0 envs n eps tc = Inl OutOfFuel"
| "open_loop (Suc fuel) envs n eps tc =
     and_then (open_endpoints (envs n) eps tc) (\<lambda>(rc, tc1).
       if rc > 0 then open_loop fuel envs (n + 1) eps tc1 else Inr tc1)"

text \<open>The endpoint addresses of the active interfaces: both loops of \<open>setConfig\<close>. The number of
  endpoints is a byte and so is the index into the block allocated for them.\<close>

fun active_ifaces :: "config \<Rightarrow> nat list \<Rightarrow> iface list res" where
  "active_ifaces c [] = Inr []"
| "active_ifaces c (i # is') =
     and_then (get_interface c (of_nat i)) (\<lambda>ic. and_then (deref ic) (\<lambda>ic.
       and_then (active_ifaces c is') (\<lambda>ics. Inr (ic # ics))))"

fun store_addresses :: "endpoint_descriptor option list \<Rightarrow> u8 \<times> u8 option list \<Rightarrow>
    (u8 \<times> u8 option list) res" where
  "store_addresses [] st = Inr st"
| "store_addresses (e # es) (at, eps) =
     and_then (deref e) (\<lambda>d.
       and_then (store eps (unat at) (Some (ep_bEndpointAddress d))) (\<lambda>eps'.
         store_addresses es (at + 1, eps')))"

definition config_endpoints :: "config \<Rightarrow> bytes res" where
  "config_endpoints c =
     and_then (active_ifaces c [0..<unat (cf_bNumInterfaces (cf_descriptor c))]) (\<lambda>ics.
       and_then (concat_of (\<lambda>ic. the_endpoints ic) ics) (\<lambda>es.
         let ep_total = of_nat (length es) :: u8 in
         and_then (store_addresses es (0, replicate (unat ep_total) None)) (\<lambda>(at, eps).
           written eps)))"

definition tcp_set_config ::
  "nat \<Rightarrow> (nat \<Rightarrow> open_env) \<Rightarrow> config option \<Rightarrow> tcp_helper \<Rightarrow> tcp_helper res" where
  "tcp_set_config fuel envs fs_cfg tc =
     and_then (deref fs_cfg) (\<lambda>c. and_then (config_endpoints c) (\<lambda>eps.
       open_loop fuel envs 0 eps tc))"

section \<open>Data\<close>

text \<open>The end of a wait on a socket: no data in time, the bytes that are there (none when the
  peer has closed the connection), or an error of \<open>read\<close>.\<close>

datatype read_result = NotReady | Readable bytes | ReadError

text \<open>\<open>receive_data\<close> with the caller's variables \<open>data\<close> and \<open>length\<close>; a block that is read is cut
  to \<open>TCP_BUFFER_SIZE\<close>.\<close>

definition tcp_receive_data :: "read_result \<Rightarrow> bytes option \<times> int \<Rightarrow> bytes option \<times> int" where
  "tcp_receive_data r old =
     (case r of NotReady \<Rightarrow> old
      | Readable bs \<Rightarrow>
          (let b = take TCP_BUFFER_SIZE bs in
           (if b = [] then None else Some b, int (length b)))
      | ReadError \<Rightarrow> (None, -1))"

section \<open>Control transfers\<close>

text \<open>What \<open>DeviceProxy_TCP::control_request\<close> sends.\<close>

definition tcp_request :: "usb_ctrlrequest \<Rightarrow> bytes option \<Rightarrow> bytes res" where
  "tcp_request r dataptr =
     (if cr_bRequestType r AND 0x80 \<noteq> 0 \<or> cr_wLength r = 0 then Inr (ctrl_bytes r)
      else and_then (deref dataptr) (\<lambda>d. and_then (first_n d (unat (cr_wLength r))) (\<lambda>b.
        Inr (ctrl_bytes r @ b))))"

text \<open>How it reads the answer: return code, \<open>nbytes\<close> and the bytes stored at \<open>dataptr\<close>.\<close>

definition tcp_reply :: "usb_ctrlrequest \<Rightarrow> read_result \<Rightarrow> (int \<times> int option \<times> bytes) res" where
  "tcp_reply r rr =
     (case tcp_receive_data rr (None, 0) of (buf, len) \<Rightarrow>
        if len = 0 then Inr (-1, None, [])
        else and_then (deref buf) (\<lambda>buf.
          and_then (index buf 0) (\<lambda>b0.
            if b0 \<noteq> 0 then Inr (-1, None, [])
            else and_then (index buf 1) (\<lambda>hi. and_then (index buf 2) (\<lambda>lo.
              let usblen = le16 lo hi;
                  nbytes = (if usblen > cr_wLength r then cr_wLength r else usblen) in
              and_then (first_n (drop 3 buf) (unat nbytes)) (\<lambda>b.
                Inr (0, Some (uint nbytes), b)))))))"

text \<open>
  \<open>HostProxy_TCP::control_request\<close>: what the caller's pointer is afterwards. For an OUT transfer a
  block of \<open>length-8\<close> bytes is allocated, and then the data are copied over the pointer itself
  (\<open>memcpy(dataptr,...)\<close>, where \<open>dataptr\<close> is the address of the caller's pointer of eight bytes).
\<close>

datatype host_data = NoData | AllocatedBlock nat | PointerOverwritten bytes

definition host_control_request ::
  "read_result \<Rightarrow> (int \<times> (usb_ctrlrequest \<times> host_data \<times> int) option) res" where
  "host_control_request rr =
     (case tcp_receive_data rr (None, 0) of (buf, len) \<Rightarrow>
        if len = 0 then Inr (0, None)
        else and_then (deref buf) (\<lambda>buf.
          and_then (first_n buf 8) (\<lambda>b.
            let r = ctrl_of_bytes b; n = length buf - 8 in
            if cr_bRequestType r AND 0x80 = 0 \<and> cr_wLength r \<noteq> 0 then
              (if n > 8 then Inl OutOfBounds
               else Inr (1, Some (r, if n = 0 then AllocatedBlock 0
                                     else PointerOverwritten (drop 8 buf), int n)))
            else Inr (1, Some (r, NoData, 0)))))"

definition host_send_data :: "u8 \<Rightarrow> bytes \<Rightarrow> bytes" where
  "host_send_data endpoint dat =
     (if endpoint = 0 then [0, of_nat (length dat div 256), of_nat (length dat)] @ dat else dat)"

definition host_control_ack :: bytes where
  "host_control_ack = [0, 0, 0]"

definition host_stall_ep :: "u8 \<Rightarrow> bytes" where
  "host_stall_ep endpoint = (if endpoint = 0 then [1] else [])"

section \<open>Lemmas\<close>

lemma tcp_receive_whole:
  "bs \<noteq> [] \<Longrightarrow> length bs \<le> TCP_BUFFER_SIZE \<Longrightarrow>
     tcp_receive_data (Readable bs) old = (Some bs, int (length bs))"
  by (simp add: tcp_receive_data_def)

lemma le16_of_nat:
  assumes "n < 65536"
  shows "le16 (of_nat n) (of_nat (n div 256)) = of_nat n"
proof -
  from assms have n: "take_bit 16 n = n" by (simp add: take_bit_nat_eq_self)
  then have "(of_nat n :: u8) = lo8 (of_nat n)" by (simp add: lo8_def unsigned_of_nat)
  moreover have "(of_nat (n div 256) :: u8) = hi8 (of_nat n)"
  proof -
    have "drop_bit 8 (of_nat n :: u16) = of_nat (n div 256)"
      using n assms by (simp add: word_unat_eq_iff unsigned_of_nat drop_bit_eq_div unat_div_distrib
          take_bit_nat_eq_self)
    moreover have "take_bit 16 (n div 256) = n div 256"
      using assms by (simp add: take_bit_nat_eq_self)
    ultimately show ?thesis by (simp add: hi8_def unsigned_of_nat)
  qed
  ultimately show ?thesis by simp
qed


lemma uint_of_nat_u16: "n < 65536 \<Longrightarrow> uint (of_nat n :: u16) = int n"
  using unat_of_nat_u16 [of n] by (metis uint_nat)

text \<open>Where a call of \<open>client_connect\<close> or \<open>server_connect\<close> can change the tables.\<close>

definition only_port :: "nat \<Rightarrow> tcp_helper \<Rightarrow> tcp_helper \<Rightarrow> bool" where
  "only_port p tc tc' \<longleftrightarrow>
     length (tc_connect tc') = length (tc_connect tc) \<and>
     length (tc_socket tc') = length (tc_socket tc) \<and>
     (\<forall>q. q \<noteq> p \<longrightarrow> tc_connect tc' ! q = tc_connect tc ! q)"

lemma only_port_refl [simp]: "only_port p tc tc"
  by (simp add: only_port_def)

lemma only_port_buf [simp]: "only_port p tc (tc'\<lparr>tc_buf := b\<rparr>) = only_port p tc tc'"
  by (simp add: only_port_def)

lemma only_port_trans: "only_port p tc tc' \<Longrightarrow> only_port p tc' tc'' \<Longrightarrow> only_port p tc tc''"
  by (simp add: only_port_def)

lemma only_port_socket: "only_port p tc (tc\<lparr>tc_socket := (tc_socket tc)[q := v]\<rparr>)"
  by (simp add: only_port_def)

lemma await_connect_frame:
  "await_connect env port tc = (rc, tc') \<Longrightarrow> port < length (tc_connect tc) \<Longrightarrow>
     only_port port tc tc' \<and> (rc = 0 \<longrightarrow> tc_connect tc' ! port)"
  by (auto simp: await_connect_def only_port_def ETIMEDOUT_def split: if_splits option.splits)

lemma client_connect_frame:
  assumes "client_connect env port tc = Inr (rc, tc')"
  shows "only_port port tc tc'" "rc = 0 \<Longrightarrow> tc_connect tc' ! port"
proof -
  from assms have p: "port < length (tc_connect tc)" "port < length (tc_socket tc)"
    by (auto simp: client_connect_def res_simps)
  let ?tc = "tc\<lparr>tc_socket := (tc_socket tc)[port := ne_socket env],
                 tc_connect := (tc_connect tc)[port := False]\<rparr>"
  have o: "only_port port tc ?tc" by (simp add: only_port_def)
  have "only_port port tc tc' \<and> (rc = 0 \<longrightarrow> tc_connect tc' ! port)"
  proof (cases "tc_socket tc ! port = 0")
    case False
    with assms p await_connect_frame [of env port tc rc tc'] show ?thesis
      by (auto simp: client_connect_def split: if_splits)
  next
    case True
    then show ?thesis
      using assms p await_connect_frame [of env port ?tc rc tc'] only_port_trans [OF o]
      by (auto simp: client_connect_def only_port_def split: if_splits connect_result.splits)
  qed
  then show "only_port port tc tc'" "rc = 0 \<Longrightarrow> tc_connect tc' ! port" by simp_all
qed

lemma server_connect_frame:
  assumes "server_connect env port tc = (rc, tc')" "port < length (tc_connect tc)"
  shows "only_port port tc tc'" "rc = 0 \<Longrightarrow> tc_connect tc' ! port"
  using assms by (auto simp: server_connect_def only_port_def ETIMEDOUT_def split: if_splits)

lemma server_listen_frame:
  assumes "server_listen env port tc = Inr tc'" "\<not> tc_connect tc ! port" "port < length (tc_connect tc)"
  shows "only_port port tc tc'" "\<not> tc_connect tc' ! port"
  using assms by (auto simp: server_listen_def only_port_def res_simps split: if_splits)

text \<open>The first loop counts the ports that are not connected after it.\<close>

definition missing :: "tcp_helper \<Rightarrow> nat list \<Rightarrow> nat" where
  "missing tc ports = length (filter (\<lambda>p. \<not> tc_connect tc ! p) ports)"

definition counts_missing :: "tcp_helper \<Rightarrow> nat list \<Rightarrow> nat \<Rightarrow> tcp_helper \<Rightarrow> bool" where
  "counts_missing tc ports n tc' \<longleftrightarrow>
     n = missing tc' ports \<and>
     length (tc_connect tc') = length (tc_connect tc) \<and>
     (\<forall>q. q \<notin> set ports \<longrightarrow> tc_connect tc' ! q = tc_connect tc ! q) \<and>
     (\<forall>q \<in> set ports. q < length (tc_connect tc))"

lemma missing_Cons: "missing tc (p # ps) = (if tc_connect tc ! p then 0 else 1) + missing tc ps"
  by (simp add: missing_def)

lemma counts_missing_Cons:
  assumes "only_port p tc tc1" "p < length (tc_connect tc)"
    and "counts_missing tc1 ps n tc2" "p \<notin> set ps"
  shows "counts_missing tc (p # ps) (if tc_connect tc1 ! p then n else n + 1) tc2"
  using assms by (auto simp: counts_missing_def missing_Cons only_port_def)

lemma client_first_loop_missing:
  assumes "client_first_loop env i eps tc = Inr (n, tc')" "distinct (map endpoint_port eps)"
  shows "counts_missing tc (map endpoint_port eps) n tc'"
  using assms
proof (induction eps arbitrary: i n tc)
  case Nil
  then show ?case by (simp add: counts_missing_def missing_def)
next
  case (Cons ep eps)
  let ?p = "endpoint_port ep"
  from Cons.prems have p: "?p < length (tc_connect tc)"
    by (auto simp: Let_def res_simps)
  show ?case
  proof (cases "tc_connect tc ! ?p")
    case True
    with Cons.prems p have "client_first_loop env (i + 1) eps tc = Inr (n, tc')"
      by (simp add: Let_def)
    with Cons have "counts_missing tc (map endpoint_port eps) n tc'" by simp
    from counts_missing_Cons [OF only_port_refl p this] True Cons.prems(2) show ?thesis by simp
  next
    case False
    with Cons.prems p obtain rc tc1 n' where
      1: "(if tc_socket tc ! ?p = 0 then client_connect (env i) ?p tc else Inr (0, tc)) = Inr (rc, tc1)"
      and 2: "client_first_loop env (i + 1) eps tc1 = Inr (n', tc')"
      and n: "n = (if tc_connect tc1 ! ?p then n' else n' + 1)"
      by (auto simp: Let_def res_simps)
    from 1 have "only_port ?p tc tc1"
      by (auto dest: client_connect_frame(1) split: if_splits)
    from counts_missing_Cons [OF this p] Cons.IH [OF 2] Cons.prems(2) show ?thesis
      by (simp add: n)
  qed
qed

lemma server_first_loop_missing:
  assumes "server_first_loop env i eps tc = Inr (n, tc')" "distinct (map endpoint_port eps)"
  shows "counts_missing tc (map endpoint_port eps) n tc'"
  using assms
proof (induction eps arbitrary: i n tc)
  case Nil
  then show ?case by (simp add: counts_missing_def missing_def)
next
  case (Cons ep eps)
  let ?p = "endpoint_port ep"
  from Cons.prems have p: "?p < length (tc_connect tc)"
    by (auto simp: Let_def res_simps)
  show ?case
  proof (cases "tc_connect tc ! ?p")
    case True
    with Cons.prems p have "server_first_loop env (i + 1) eps tc = Inr (n, tc')"
      by (simp add: Let_def)
    with Cons have "counts_missing tc (map endpoint_port eps) n tc'" by simp
    from counts_missing_Cons [OF only_port_refl p this] True Cons.prems(2) show ?thesis by simp
  next
    case False
    with Cons.prems p obtain tc1 n' where
      1: "server_listen (env i) ?p tc = Inr tc1"
      and 2: "server_first_loop env (i + 1) eps tc1 = Inr (n', tc')" and n: "n = n' + 1"
      by (auto simp: Let_def res_simps)
    note f = server_listen_frame [OF 1 False p]
    from counts_missing_Cons [OF f(1) p] Cons.IH [OF 2] Cons.prems(2) f(2) show ?thesis
      by (simp add: n)
  qed
qed


text \<open>The last loop counts the connections it completes; when these are all, all are connected.\<close>

definition counts_done :: "tcp_helper \<Rightarrow> nat list \<Rightarrow> nat \<Rightarrow> tcp_helper \<Rightarrow> bool" where
  "counts_done tc ports n tc' \<longleftrightarrow>
     n \<le> length ports \<and>
     length (tc_connect tc') = length (tc_connect tc) \<and>
     (\<forall>q. q \<notin> set ports \<longrightarrow> tc_connect tc' ! q = tc_connect tc ! q) \<and>
     (n = length ports \<longrightarrow> (\<forall>q \<in> set ports. tc_connect tc' ! q))"

lemma counts_done_Cons:
  assumes "only_port p tc tc1" "k = (0::nat) \<or> k = 1 \<and> tc_connect tc1 ! p"
    and "counts_done tc1 ps n tc2" "p \<notin> set ps"
  shows "counts_done tc (p # ps) (k + n) tc2"
  using assms by (auto simp: counts_done_def only_port_def)

lemma client_last_loop_done:
  assumes "client_last_loop revents env i ports tc = Inr (n, tc')" "distinct ports"
  shows "counts_done tc ports n tc'"
  using assms
proof (induction ports arbitrary: i n tc)
  case Nil
  then show ?case by (simp add: counts_done_def)
next
  case (Cons p ps)
  define tc0 where "tc0 = (if revents i AND POLLHUP \<noteq> 0
     then tc\<lparr>tc_socket := (tc_socket tc)[p := 0]\<rparr> else tc)"
  have o: "only_port p tc tc0" by (simp add: tc0_def only_port_socket)
  from Cons.prems obtain k tc1 m where
    1: "(if revents i = POLLOUT then
           and_then (client_connect (env i) p tc0) (\<lambda>(rc, tc1).
             Inr (if rc = 0 then (1, tc1\<lparr>tc_buf := (tc_buf tc1)[p := True]\<rparr>) else (0, tc1)))
         else Inr (0, tc0)) = Inr (k, tc1)"
    and 2: "client_last_loop revents env (i + 1) ps tc1 = Inr (m, tc')" and n: "n = k + m"
    by (auto simp: Let_def tc0_def [symmetric] and_then_eq_Inr [of _ "\<lambda>(k, tc1). _ k tc1"])
  have "only_port p tc0 tc1 \<and> (k = 0 \<or> k = 1 \<and> tc_connect tc1 ! p)"
  proof (cases "revents i = POLLOUT")
    case True
    with 1 obtain rc tc2 where c: "client_connect (env i) p tc0 = Inr (rc, tc2)"
      and k: "(k, tc1) = (if rc = 0 then (1, tc2\<lparr>tc_buf := (tc_buf tc2)[p := True]\<rparr>) else (0, tc2))"
      by (auto simp: and_then_eq_Inr)
    from client_connect_frame [OF c] k show ?thesis by (auto split: if_splits)
  next
    case False
    with 1 show ?thesis by simp
  qed
  with counts_done_Cons [OF only_port_trans [OF o, of tc1], of k ps m tc'] Cons.IH [OF 2] Cons.prems(2)
  show ?case by (simp add: n)
qed

lemma server_last_loop_done:
  assumes "server_last_loop revents env i ports tc = (n, tc')" "distinct ports"
    and "\<forall>p \<in> set ports. p < length (tc_connect tc)"
  shows "counts_done tc ports n tc'"
  using assms
proof (induction ports arbitrary: i n tc)
  case Nil
  then show ?case by (simp add: counts_done_def)
next
  case (Cons p ps)
  from Cons.prems(1) obtain k tc1 m where
    1: "(if revents i = POLLIN then
              (case server_connect (env i) p tc of (rc, tc1) \<Rightarrow>
                 if rc = 0 then (1, tc1\<lparr>tc_buf := (tc_buf tc1)[p := True]\<rparr>) else (0, tc1))
            else (0, tc)) = (k, tc1)"
    and 2: "server_last_loop revents env (i + 1) ps tc1 = (m, tc')" and n: "n = k + m"
    by (auto split: prod.splits)
  have o: "only_port p tc tc1 \<and> (k = 0 \<or> k = 1 \<and> tc_connect tc1 ! p)"
  proof (cases "revents i = POLLIN")
    case True
    obtain rc tc2 where c: "server_connect (env i) p tc = (rc, tc2)"
      by (cases "server_connect (env i) p tc")
    from server_connect_frame [OF c] 1 True c Cons.prems(3) show ?thesis
      by (auto split: if_splits)
  next
    case False
    with 1 show ?thesis by simp
  qed
  moreover from o Cons.prems(3) have "\<forall>p \<in> set ps. p < length (tc_connect tc1)"
    by (simp add: only_port_def)
  ultimately show ?case
    using counts_done_Cons [of p tc tc1 k ps m tc'] Cons.IH [OF 2] Cons.prems(2) by (simp add: n)
qed

lemma all_connected:
  assumes "counts_missing tc ports k tc1" "distinct ports"
    and "pending = filter (\<lambda>p. \<not> tc_connect tc1 ! p) ports"
    and "counts_done tc1 pending n tc2" "n = k"
  shows "\<forall>p \<in> set ports. tc_connect tc2 ! p"
proof
  fix p
  assume p: "p \<in> set ports"
  from assms have "n = length pending" by (simp add: counts_missing_def missing_def)
  with assms p show "tc_connect tc2 ! p"
    by (cases "p \<in> set pending") (auto simp: counts_done_def)
qed

lemma pending_ports_counts:
  assumes "counts_missing tc (map endpoint_port eps) k tc1"
  shows "pending_ports tc1 eps k = Inr (filter (\<lambda>p. \<not> tc_connect tc1 ! p) (map endpoint_port eps))"
  using assms by (simp add: pending_ports_def counts_missing_def missing_def)

lemma client_open_zero:
  assumes "client_open_endpoints env eps tc = Inr (0, tc')" "distinct (map endpoint_port eps)"
  shows "\<forall>p \<in> set (map endpoint_port eps). tc_connect tc' ! p"
proof -
  obtain k tc1 where 1: "client_first_loop (oe_first env) 0 eps tc = Inr (k, tc1)"
    using assms(1) by (auto simp: client_open_endpoints_def and_then_eq_Inr)
  note c = client_first_loop_missing [OF 1 assms(2)]
  note pp = pending_ports_counts [OF c]
  show ?thesis
  proof (cases "k = 0")
    case True
    with assms(1) 1 have "tc' = tc1" by (simp add: client_open_endpoints_def)
    with c True show ?thesis by (auto simp: counts_missing_def missing_def filter_empty_conv)
  next
    case False
    with assms(1) 1 pp obtain revents n where
      2: "client_last_loop revents (oe_last env) 0
          (filter (\<lambda>p. \<not> tc_connect tc1 ! p) (map endpoint_port eps)) tc1 = Inr (n, tc')" and "n = k"
      by (auto simp: client_open_endpoints_def ETIMEDOUT_def and_then_eq_Inr split: option.splits)
    with all_connected [OF c assms(2) refl client_last_loop_done [OF 2]] assms(2) show ?thesis
      by simp
  qed
qed

lemma server_open_zero:
  assumes "server_open_endpoints env eps tc = Inr (0, tc')" "distinct (map endpoint_port eps)"
  shows "\<forall>p \<in> set (map endpoint_port eps). tc_connect tc' ! p"
proof -
  obtain k tc1 where 1: "server_first_loop (oe_first env) 0 eps tc = Inr (k, tc1)"
    using assms(1) by (auto simp: server_open_endpoints_def and_then_eq_Inr)
  note c = server_first_loop_missing [OF 1 assms(2)]
  with assms(1) 1 pending_ports_counts [OF c] obtain revents n where
    2: "server_last_loop revents (oe_last env) 0
        (filter (\<lambda>p. \<not> tc_connect tc1 ! p) (map endpoint_port eps)) tc1 = (n, tc')" and "n = k"
    by (auto simp: server_open_endpoints_def ETIMEDOUT_def split: option.splits prod.splits)
  moreover from c have
    "\<forall>p \<in> set (filter (\<lambda>p. \<not> tc_connect tc1 ! p) (map endpoint_port eps)). p < length (tc_connect tc1)"
    by (auto simp: counts_missing_def)
  ultimately show ?thesis
    using all_connected [OF c assms(2) refl server_last_loop_done [OF 2]] assms(2) by simp
qed


section \<open>Properties\<close>

text \<open>C12: when \<open>open_endpoints\<close> returns 0, which is when \<open>setConfig\<close> stops calling it, every
  endpoint of the configuration has its connection, on the client's side and on the server's.\<close>

theorem open_endpoints_zero_connected:
  assumes "open_endpoints env eps tc = Inr (0, tc')" "distinct (map endpoint_port eps)"
  shows "list_all (\<lambda>ep. tc_connect tc' ! endpoint_port ep) eps"
  using assms client_open_zero [of env eps tc tc'] server_open_zero [of env eps tc tc']
  by (auto simp: open_endpoints_def list_all_iff split: if_splits)

definition ready_env :: open_env where
  "ready_env =
     (let e = \<lparr>ne_socket = 5, ne_connect = InProgress, ne_poll = Some POLLOUT, ne_bind_ok = True,
              ne_listen_ok = True, ne_accept = 6\<rparr> in
      \<lparr>oe_first = (\<lambda>_. e\<lparr>ne_poll := None\<rparr>), oe_poll = Some (\<lambda>_. POLLOUT), oe_last = (\<lambda>_. e)\<rparr>)"

theorem open_endpoints_zero_connected_witness:
  "\<exists>tc'. open_endpoints ready_env [0x81, 2] (new_tcp_helper True) = Inr (0, tc') \<and>
     list_all (\<lambda>ep. tc_connect tc' ! endpoint_port ep) [0x81, 2]"
proof -
  have "\<exists>tc'. open_endpoints ready_env [0x81, 2] (new_tcp_helper True) = Inr (0, tc')"
  proof -
    have "(case open_endpoints ready_env [0x81, 2] (new_tcp_helper True) of
        Inr (rc, tc') \<Rightarrow> rc = 0 | Inl _ \<Rightarrow> False)" by code_simp
    then show ?thesis by (auto split: sum.splits)
  qed
  then obtain tc' where 1: "open_endpoints ready_env [0x81, 2] (new_tcp_helper True) = Inr (0, tc')"
    by blast
  have 2: "distinct (map endpoint_port [0x81, 2])" by code_simp
  from 1 open_endpoints_zero_connected [OF 1 2] show ?thesis by blast
qed

text \<open>C34: on the server's side \<open>setConfig\<close> does not return once all endpoints of the configuration
  are connected (a second SET_CONFIGURATION, or a configuration without endpoints): nothing is
  left to poll for, \<open>poll\<close> on no descriptor times out, and \<open>ETIMEDOUT\<close> is positive.\<close>

theorem server_set_config_hangs:
  assumes "tc_server tc"
    and "list_all (\<lambda>ep. endpoint_port ep < length (tc_connect tc) \<and> tc_connect tc ! endpoint_port ep) eps"
    and "\<And>n. oe_poll (envs n) = None"
  shows "open_loop fuel envs n eps tc = Inl OutOfFuel"
proof (induction fuel arbitrary: n)
  case (Suc fuel)
  have "server_first_loop e i eps tc = Inr (0, tc)" for e i
    using assms(2) by (induction eps arbitrary: i) (simp_all add: Let_def)
  moreover have "pending_ports tc eps 0 = Inr []"
    using assms(2) by (simp add: pending_ports_def list_all_iff comp_def Let_def filter_empty_conv)
  ultimately have "open_endpoints (envs n) eps tc = Inr (ETIMEDOUT, tc)"
    by (simp add: open_endpoints_def server_open_endpoints_def assms(1,3))
  with Suc show ?case by (simp add: ETIMEDOUT_def)
qed simp

theorem server_set_config_hangs_witness:
  "open_loop 1000 (\<lambda>_. ready_env\<lparr>oe_poll := None\<rparr>) 0 [] (new_tcp_helper False) = Inl OutOfFuel"
  by (rule server_set_config_hangs) (simp_all add: new_tcp_helper_def)

text \<open>C11: a control transfer from the device passes the TCP transport unchanged when its data fit
  one read: the host's side decodes the request the device's side sent, and the answer that the
  host's side frames is read back as return code, length and bytes, cut to \<open>wLength\<close>; an
  acknowledgement is an empty answer, and a stall is a stall.\<close>

theorem tcp_in_transfer:
  assumes "is_in r" "length bs + 3 \<le> TCP_BUFFER_SIZE"
  shows "tcp_request r dat = Inr (ctrl_bytes r) \<and>
    host_control_request (Readable (ctrl_bytes r)) = Inr (1, Some (r, NoData, 0)) \<and>
    tcp_reply r (Readable (host_send_data 0 bs)) =
      Inr (0, Some (int (min (length bs) (unat (cr_wLength r)))), take (unat (cr_wLength r)) bs) \<and>
    tcp_reply r (Readable host_control_ack) = Inr (0, Some 0, []) \<and>
    tcp_reply r (Readable (host_stall_ep 0)) = Inr (-1, None, [])"
proof (intro conjI)
  from assms(1) have out: "cr_bRequestType r AND 0x80 \<noteq> 0" by (simp add: is_in_def)
  then show "tcp_request r dat = Inr (ctrl_bytes r)" by (simp add: tcp_request_def)
  have "tcp_receive_data (Readable (ctrl_bytes r)) (None, 0) = (Some (ctrl_bytes r), 8)"
    using tcp_receive_whole [of "ctrl_bytes r"] by (simp add: TCP_BUFFER_SIZE_def ctrl_bytes_def)
  then show "host_control_request (Readable (ctrl_bytes r)) = Inr (1, Some (r, NoData, 0))"
    using out ctrl_of_bytes_inverse [of r "[]"] by (simp add: host_control_request_def Let_def)
  have n: "length bs < 65536" using assms(2) by (simp add: TCP_BUFFER_SIZE_def)
  have "tcp_receive_data (Readable (host_send_data 0 bs)) (None, 0) =
      (Some (host_send_data 0 bs), int (length bs + 3))"
    using assms(2) by (subst tcp_receive_whole) (simp_all add: host_send_data_def)
  then show "tcp_reply r (Readable (host_send_data 0 bs)) =
      Inr (0, Some (int (min (length bs) (unat (cr_wLength r)))), take (unat (cr_wLength r)) bs)"
    using le16_of_nat [OF n] unat_of_nat_u16 [OF n] uint_of_nat_u16 [OF n]
    by (simp add: tcp_reply_def host_send_data_def word_less_nat_alt Let_def min_def)
  show "tcp_reply r (Readable host_control_ack) = Inr (0, Some 0, [])"
    by (simp add: tcp_reply_def tcp_receive_data_def host_control_ack_def TCP_BUFFER_SIZE_def le16_def
        Let_def)
  show "tcp_reply r (Readable (host_stall_ep 0)) = Inr (-1, None, [])"
    by (simp add: tcp_reply_def tcp_receive_data_def host_stall_ep_def TCP_BUFFER_SIZE_def Let_def)
qed


theorem tcp_in_transfer_witness:
  "(let r = \<lparr>cr_bRequestType = 0x80, cr_bRequest = USB_REQ_GET_DESCRIPTOR, cr_wValue = 0x100,
             cr_wIndex = 0, cr_wLength = 2\<rparr> in
    tcp_request r None = Inr (ctrl_bytes r) \<and>
    host_control_request (Readable (ctrl_bytes r)) = Inr (1, Some (r, NoData, 0)) \<and>
    tcp_reply r (Readable (host_send_data 0 [18, 1, 0])) =
      Inr (0, Some (int (min (length [18, 1, 0 :: u8]) (unat (cr_wLength r)))),
        take (unat (cr_wLength r)) [18, 1, 0]) \<and>
    tcp_reply r (Readable host_control_ack) = Inr (0, Some 0, []) \<and>
    tcp_reply r (Readable (host_stall_ep 0)) = Inr (-1, None, []))"
  unfolding Let_def by (rule tcp_in_transfer) (simp_all add: is_in_def TCP_BUFFER_SIZE_def)

text \<open>An answer of more than \<open>TCP_BUFFER_SIZE - 3\<close> bytes, which one read cannot deliver, makes
  the device's side copy past the end of the block it has read.\<close>

theorem tcp_long_answer_overruns:
  assumes "TCP_BUFFER_SIZE < length bs + 3" "length bs < 65536"
    and "TCP_BUFFER_SIZE < unat (cr_wLength r) + 3"
  shows "tcp_reply r (Readable (host_send_data 0 bs)) = Inl OutOfBounds"
proof -
  have "tcp_receive_data (Readable (host_send_data 0 bs)) (None, 0) =
      (Some (take TCP_BUFFER_SIZE (host_send_data 0 bs)), 1456)"
    using assms(1) by (simp add: tcp_receive_data_def host_send_data_def TCP_BUFFER_SIZE_def Let_def)
  then show ?thesis
    using assms le16_of_nat [OF assms(2)] unat_of_nat_u16 [OF assms(2)]
    by (simp add: tcp_reply_def host_send_data_def TCP_BUFFER_SIZE_def word_less_nat_alt Let_def
        take_Cons' first_n_def)
qed

theorem tcp_long_answer_overruns_witness:
  "tcp_reply \<lparr>cr_bRequestType = 0x80, cr_bRequest = USB_REQ_GET_DESCRIPTOR, cr_wValue = 0x200,
             cr_wIndex = 0, cr_wLength = 4096\<rparr>
     (Readable (host_send_data 0 (replicate 2000 0))) = Inl OutOfBounds"
  by (rule tcp_long_answer_overruns) (simp_all add: TCP_BUFFER_SIZE_def)

text \<open>The data of a control transfer to the device never arrive on the host's side: they are
  written over the caller's pointer to them (and past it when there are more than eight).\<close>

theorem tcp_out_data_lost:
  assumes "\<not> is_in r" "dat \<noteq> []" "length dat = unat (cr_wLength r)"
    and "length dat + 8 \<le> TCP_BUFFER_SIZE"
  shows "tcp_request r (Some dat) = Inr (ctrl_bytes r @ dat) \<and>
    host_control_request (Readable (ctrl_bytes r @ dat)) =
      (if length dat > 8 then Inl OutOfBounds
       else Inr (1, Some (r, PointerOverwritten dat, int (length dat))))"
proof
  from assms(1) have out: "cr_bRequestType r AND 0x80 = 0" by (simp add: is_in_def)
  from assms(2,3) have w: "cr_wLength r \<noteq> 0" by auto
  from out w assms(3) show "tcp_request r (Some dat) = Inr (ctrl_bytes r @ dat)"
    by (simp add: tcp_request_def)
  have "tcp_receive_data (Readable (ctrl_bytes r @ dat)) (None, 0) =
      (Some (ctrl_bytes r @ dat), int (length dat + 8))"
    using assms(4) by (subst tcp_receive_whole) (simp_all add: ctrl_bytes_def)
  then show "host_control_request (Readable (ctrl_bytes r @ dat)) =
      (if length dat > 8 then Inl OutOfBounds
       else Inr (1, Some (r, PointerOverwritten dat, int (length dat))))"
    using out w assms(2) ctrl_of_bytes_inverse [of r "[]"]
    by (simp add: host_control_request_def Let_def)
qed

theorem tcp_out_data_lost_witness:
  "(let r = \<lparr>cr_bRequestType = 0x21, cr_bRequest = 9, cr_wValue = 0x200, cr_wIndex = 0,
             cr_wLength = 1\<rparr> in
    tcp_request r (Some [7]) = Inr (ctrl_bytes r @ [7]) \<and>
    host_control_request (Readable (ctrl_bytes r @ [7])) =
      (if length [7 :: u8] > 8 then Inl OutOfBounds
       else Inr (1, Some (r, PointerOverwritten [7], int (length [7 :: u8])))))"
  unfolding Let_def by (rule tcp_out_data_lost) (simp_all add: is_in_def TCP_BUFFER_SIZE_def)

text \<open>The endpoint addresses of USB, 0 to 15 in each direction, are mapped to the 32 entries of
  the connection tables, each to its own.\<close>

theorem endpoint_ports_bijective:
  "bij_betw endpoint_port {ep. ep AND 0x70 = 0} {..<32}"
proof -
  have "list_all (\<lambda>n. (of_nat n :: u8) AND 0x70 = 0 \<longrightarrow> endpoint_port (of_nat n) < 32 \<and>
      of_nat (endpoint_port (of_nat n) mod 16) OR
        (if endpoint_port (of_nat n) < 16 then 0 else 0x80) = (of_nat n :: u8)) [0..<256]"
    by code_simp
  then have 1: "\<And>n. n < 256 \<Longrightarrow> (of_nat n :: u8) AND 0x70 = 0 \<longrightarrow> endpoint_port (of_nat n) < 32 \<and>
      of_nat (endpoint_port (of_nat n) mod 16) OR
        (if endpoint_port (of_nat n) < 16 then 0 else 0x80) = (of_nat n :: u8)"
    by (simp add: list_all_iff)
  have 3: "ep AND 0x70 = 0 \<longrightarrow> endpoint_port ep < 32 \<and>
      of_nat (endpoint_port ep mod 16) OR (if endpoint_port ep < 16 then 0 else 0x80) = ep" for ep
    using 1 [OF unat_u8_less [of ep]] by simp
  have 2: "list_all (\<lambda>n. (of_nat (n mod 16) OR (if n < 16 then 0 else 0x80) :: u8) AND 0x70 = 0 \<and>
      endpoint_port (of_nat (n mod 16) OR (if n < 16 then 0 else 0x80)) = n) [0..<32]"
    by code_simp
  show ?thesis
  proof (rule bij_betw_byWitness
      [where f' = "\<lambda>n. of_nat (n mod 16) OR (if n < 16 then 0 else 0x80)"])
    show "\<forall>ep \<in> {ep. ep AND 0x70 = 0}. of_nat (endpoint_port ep mod 16) OR
        (if endpoint_port ep < 16 then 0 else 0x80) = ep"
      using 3 by blast
    show "endpoint_port ` {ep. ep AND 0x70 = 0} \<subseteq> {..<32}"
      using 3 by blast
    show "\<forall>n \<in> {..<32}. endpoint_port (of_nat (n mod 16) OR (if n < 16 then 0 else 0x80)) = n"
      and "(\<lambda>n. of_nat (n mod 16) OR (if n < 16 then 0 else 0x80)) ` {..<32} \<subseteq> {ep :: u8. ep AND 0x70 = 0}"
      using 2 by (auto simp: list_all_iff simp del: upt_Suc)
  qed
qed

end
