(* ===== verification/Pointer_Arrays.thy ===== *)
theory Pointer_Arrays
  imports USB_String_Model
begin

text \<open>
  The arrays in which the manager keeps its filters and injectors (\<open>add_filter\<close>,
  \<open>remove_filter\<close>, \<open>get_filter\<close>, their counterparts for injectors, and \<open>cleanup\<close>, of
  \<open>src/lib/Manager.cpp\<close>), and the proof that they implement lists as long as the indices are in
  range and there are fewer than 256 objects.
\<close>

section \<open>The arrays of filters and injectors\<close>

text \<open>A pointer to an array of pointers with a count of one byte. An entry is \<open>None\<close> when
  nothing has written it.\<close>

record 'a ptr_array =
  pa_array :: "'a option list option"
  pa_count :: u8

definition no_ptrs :: "'a ptr_array" where
  "no_ptrs = \<lparr>pa_array = None, pa_count = 0\<rparr>"

text \<open>\<open>realloc(a, n)\<close>; for \<open>n = 0\<close> it frees the block.\<close>

definition realloc_ptrs :: "'a option list option \<Rightarrow> u8 \<Rightarrow> 'a option list option" where
  "realloc_ptrs a n =
     (let old = (case a of None \<Rightarrow> [] | Some xs \<Rightarrow> xs) in
      if n = 0 then None
      else Some (take (unat n) old @ replicate (unat n - length old) None))"

definition add_filter :: "'a \<Rightarrow> 'a ptr_array \<Rightarrow> 'a ptr_array res" where
  "add_filter x p =
     (let q = (case pa_array p of
                 Some _ \<Rightarrow> \<lparr>pa_array = realloc_ptrs (pa_array p) (pa_count p + 1),
                            pa_count = pa_count p + 1\<rparr>
               | None \<Rightarrow> \<lparr>pa_array = Some [None], pa_count = 1\<rparr>) in
      if pa_count q = 0 then Inl OutOfBounds
      else and_then (deref (pa_array q)) (\<lambda>xs.
        and_then (store xs (unat (pa_count q) - 1) (Some x)) (\<lambda>xs'.
          Inr (q\<lparr>pa_array := Some xs'\<rparr>))))"

text \<open>\<open>remove_filter\<close> and \<open>remove_injector\<close>; the checks of the status and of the index print a
  message and go on. The result has the object that was deleted.\<close>

definition remove_filter :: "u8 \<Rightarrow> bool \<Rightarrow> 'a ptr_array \<Rightarrow> ('a option \<times> 'a ptr_array) res" where
  "remove_filter idx freeMemory p =
     and_then
       (if freeMemory then
          and_then (deref (pa_array p)) (\<lambda>xs. and_then (index xs (unat idx)) (\<lambda>x.
            case x of None \<Rightarrow> Inl Uninit | Some x \<Rightarrow> Inr (Some x)))
        else Inr None)
       (\<lambda>del.
         if pa_count p = 1 then Inr (del, no_ptrs)
         else
           (let xs = (case pa_array p of None \<Rightarrow> [] | Some xs \<Rightarrow> xs);
                moved = (if idx < pa_count p
                         then take (unat idx) xs @ drop (unat idx + 1) (take (unat (pa_count p)) xs)
                              @ drop (unat (pa_count p) - 1) xs
                         else xs) in
            Inr (del, \<lparr>pa_array = realloc_ptrs (map_option (\<lambda>_. moved) (pa_array p)) (pa_count p - 1),
                      pa_count = pa_count p - 1\<rparr>)))"

definition get_filter :: "u8 \<Rightarrow> 'a ptr_array \<Rightarrow> 'a option res" where
  "get_filter idx p =
     (case pa_array p of
        None \<Rightarrow> Inr None
      | Some xs \<Rightarrow> if idx \<ge> pa_count p then Inr None
                   else and_then (index xs (unat idx)) (\<lambda>x.
                     case x of None \<Rightarrow> Inl Uninit | Some x \<Rightarrow> Inr (Some x)))"

text \<open>The loops of \<open>cleanup\<close>: the last object first, with what is deleted. The count goes down to
  0, so 256 rounds are enough.\<close>

fun remove_all :: "nat \<Rightarrow> 'a ptr_array \<Rightarrow> ('a list \<times> 'a ptr_array) res" where
  "remove_all 0 p = Inl OutOfFuel"
| "remove_all (Suc fuel) p =
     (if pa_count p = 0 then Inr ([], p)
      else and_then (remove_filter (pa_count p - 1) True p) (\<lambda>(del, p1).
        and_then (remove_all fuel p1) (\<lambda>(dels, p2).
          Inr ((case del of None \<Rightarrow> [] | Some x \<Rightarrow> [x]) @ dels, p2))))"

text \<open>The objects that a loop over all entries visits.\<close>

definition the_ptrs :: "'a ptr_array \<Rightarrow> 'a list res" where
  "the_ptrs p =
     (if pa_count p = 0 then Inr []
      else and_then (deref (pa_array p)) (\<lambda>xs. and_then (first_n xs (unat (pa_count p)))
        (map_res (\<lambda>x. case x of None \<Rightarrow> Inl Uninit | Some x \<Rightarrow> Inr x))))"

section \<open>The arrays implement lists\<close>

definition holds :: "'a ptr_array \<Rightarrow> 'a list \<Rightarrow> bool" where
  "holds p xs \<longleftrightarrow> length xs < 256 \<and> pa_count p = of_nat (length xs) \<and>
     pa_array p = (if xs = [] then None else Some (map Some xs))"

lemma unat_minus_one_u8: "unat (x :: u8) = Suc n \<Longrightarrow> unat (x - 1) = n"
  by (cases "x = 0") (auto simp: unat_minus_one)

lemma holds_no_ptrs [simp]: "holds no_ptrs []"
  by (simp add: holds_def no_ptrs_def)

lemma holds_count: "holds p xs \<Longrightarrow> unat (pa_count p) = length xs"
  by (simp add: holds_def unat_of_nat_u8)

lemma holds_Nil: "holds p [] \<longleftrightarrow> p = no_ptrs"
  by (auto simp: holds_def no_ptrs_def)

lemma map_res_Some [simp]:
  "map_res (\<lambda>x. case x of None \<Rightarrow> Inl Uninit | Some x \<Rightarrow> Inr x) (map Some xs) = Inr xs"
  by (induction xs) simp_all

lemma the_ptrs_holds: "holds p xs \<Longrightarrow> the_ptrs p = Inr xs"
  using holds_count [of p xs]
  by (cases "xs = []") (auto simp: the_ptrs_def holds_def word_unat_eq_iff)

lemma add_filter_holds:
  assumes "holds p xs" "length xs < 255"
  shows "add_filter x p = Inr \<lparr>pa_array = Some (map Some (xs @ [x])), pa_count = of_nat (length xs + 1)\<rparr>"
    "holds \<lparr>pa_array = Some (map Some (xs @ [x])), pa_count = of_nat (length xs + 1)\<rparr> (xs @ [x])"
proof -
  have u: "unat (of_nat (length xs + 1) :: u8) = length xs + 1"
    using assms(2) by (intro unat_of_nat_u8) simp
  have c: "pa_count p + 1 = of_nat (length xs + 1)" "(of_nat (length xs + 1) :: u8) \<noteq> 0"
    using assms u by (auto simp: holds_def add.commute) 
  show "add_filter x p = Inr \<lparr>pa_array = Some (map Some (xs @ [x])), pa_count = of_nat (length xs + 1)\<rparr>"
  proof (cases "xs = []")
    case True
    with assms(1) show ?thesis by (simp add: holds_def add_filter_def)
  next
    case False
    with assms(1) have "pa_array p = Some (map Some xs)" by (simp add: holds_def)
    with u c show ?thesis
      by (simp add: add_filter_def realloc_ptrs_def Let_def list_update_append del: of_nat_add of_nat_Suc)
  qed
  show "holds \<lparr>pa_array = Some (map Some (xs @ [x])), pa_count = of_nat (length xs + 1)\<rparr> (xs @ [x])"
    using assms by (simp add: holds_def)
qed

lemma remove_filter_holds:
  assumes "holds p xs" "unat idx < length xs"
  shows "\<exists>q. remove_filter idx freeMemory p = Inr (if freeMemory then Some (xs ! unat idx) else None, q) \<and>
    holds q (take (unat idx) xs @ drop (unat idx + 1) xs)"
proof -
  from assms have ne: "xs \<noteq> []" and arr: "pa_array p = Some (map Some xs)"
    by (auto simp: holds_def)
  note n = holds_count [OF assms(1)]
  let ?del = "if freeMemory then Some (xs ! unat idx) else None"
  have del: "(if freeMemory then
      and_then (deref (pa_array p)) (\<lambda>xs. and_then (index xs (unat idx)) (\<lambda>x.
            case x of None \<Rightarrow> Inl Uninit | Some x \<Rightarrow> Inr (Some x)))
      else Inr None) = Inr ?del"
    using assms(2) arr by simp
  show ?thesis
  proof (cases "length xs = 1")
    case True
    then obtain x where xs: "xs = [x]" by (cases xs) auto
    have "pa_count p = 1" using assms(1) xs by (simp add: holds_def)
    with del assms(2) xs show ?thesis by (simp add: remove_filter_def)
  next
    case False
    with ne have len: "1 < length xs" by (cases xs) auto
    have c1: "pa_count p \<noteq> 1" using n len by auto
    have m1: "unat (pa_count p - 1) = length xs - 1"
      using n len by (intro unat_minus_one_u8) simp
    have lt: "idx < pa_count p" using assms(2) n by (simp add: word_less_nat_alt)
    let ?q = "\<lparr>pa_array = Some (map Some (take (unat idx) xs @ drop (unat idx + 1) xs)),
      pa_count = pa_count p - 1\<rparr>"
    have "length xs - Suc 0 \<le> unat idx \<Longrightarrow> unat idx = length xs - Suc 0"
      using assms(2) by simp
    moreover have "pa_count p - 1 \<noteq> 0" using m1 len by auto
    ultimately have "remove_filter idx freeMemory p = Inr (?del, ?q)"
      using del c1 m1 lt len arr n assms(2)
      by (auto simp: remove_filter_def realloc_ptrs_def Let_def min_def drop_map take_map)
    moreover have "holds ?q (take (unat idx) xs @ drop (unat idx + 1) xs)"
      using assms len by (auto simp: holds_def of_nat_diff)
    ultimately show ?thesis by blast
  qed
qed

lemma get_filter_holds:
  assumes "holds p xs"
  shows "get_filter idx p = Inr (if unat idx < length xs then Some (xs ! unat idx) else None)"
  using assms holds_count [OF assms]
  by (auto simp: get_filter_def holds_def word_le_nat_alt not_le split: if_splits)

lemma remove_all_holds:
  "holds p xs \<Longrightarrow> length xs < fuel \<Longrightarrow> remove_all fuel p = Inr (rev xs, no_ptrs)"
proof (induction fuel arbitrary: p xs)
  case (Suc fuel)
  show ?case
  proof (cases xs rule: rev_cases)
    case Nil
    with Suc.prems show ?thesis by (simp add: holds_Nil no_ptrs_def)
  next
    case (snoc ys y)
    note n = holds_count [OF Suc.prems(1)]
    have m1: "unat (pa_count p - 1) = length ys"
      using n snoc by (intro unat_minus_one_u8) simp
    from remove_filter_holds [OF Suc.prems(1), of "pa_count p - 1" True] m1 snoc obtain q where
      q: "remove_filter (pa_count p - 1) True p = Inr (Some y, q)" "holds q ys"
      by auto
    from Suc.IH [OF q(2)] Suc.prems(2) snoc q n show ?thesis
      by (auto simp: word_unat_eq_iff)
  qed
qed simp




text \<open>The index check of \<open>remove_filter\<close> only prints a message: an index out of range takes the
  last object out, and on an empty array the count becomes 255, with 255 pointers that nothing
  has written.\<close>

theorem remove_out_of_range:
  assumes "holds p xs" "length xs \<le> unat idx"
  shows "\<exists>q. remove_filter idx False p = Inr (None, q) \<and>
    (if xs = [] then q = \<lparr>pa_array = Some (replicate 255 None), pa_count = 255\<rparr>
     else holds q (butlast xs))"
proof (cases xs rule: rev_cases)
  case Nil
  have "unat (-1 :: u8) = 255" by code_simp
  with Nil assms(1) show ?thesis
    by (simp add: holds_Nil remove_filter_def no_ptrs_def realloc_ptrs_def Let_def)
next
  case (snoc ys y)
  note n = holds_count [OF assms(1)]
  from assms(1) snoc have arr: "pa_array p = Some (map Some (ys @ [y]))" by (simp add: holds_def)
  have ge: "\<not> idx < pa_count p" using n assms(2) by (simp add: word_less_nat_alt not_less)
  show ?thesis
  proof (cases ys)
    case Nil
    with snoc assms(1) have "pa_count p = 1" by (simp add: holds_def)
    with Nil snoc show ?thesis by (simp add: remove_filter_def)
  next
    case (Cons z zs)
    have m1: "unat (pa_count p - 1) = length ys"
      using n snoc by (intro unat_minus_one_u8) simp
    then have "pa_count p - 1 \<noteq> 0" "pa_count p \<noteq> 1" using Cons by auto
    then have "remove_filter idx False p =
        Inr (None, \<lparr>pa_array = Some (map Some ys), pa_count = pa_count p - 1\<rparr>)"
      using ge arr m1 by (simp add: remove_filter_def realloc_ptrs_def Let_def)
    moreover have "holds \<lparr>pa_array = Some (map Some ys), pa_count = pa_count p - 1\<rparr> ys"
      using assms(1) snoc Cons by (simp add: holds_def)
    ultimately show ?thesis using snoc by auto
  qed
qed

theorem remove_out_of_range_witness:
  "\<exists>q. remove_filter 0 False (no_ptrs :: nat ptr_array) = Inr (None, q) \<and>
    (if [] = ([] :: nat list) then q = \<lparr>pa_array = Some (replicate 255 None), pa_count = 255\<rparr>
     else holds q (butlast []))"
  by (rule remove_out_of_range) simp_all


end
