(* ===== verification/Manager_Model.thy ===== *)
theory Manager_Model
  imports Device_Model Relay Pointer_Arrays
begin

text \<open>
  The manager (\<open>src/lib/Manager.cpp\<close>): the status of the relaying, the
  relays of the sixteen endpoints in each direction and their threads, and the operations that
  start and stop them. Requests to stop come from a signal handler or another thread: the places
  where one can arrive between two reads of the status are parameters of the start. A thread that
  is started in a slot whose thread has not been joined ends the process (\<open>std::terminate\<close>), which
  is the fault \<open>Exits\<close>.
\<close>

section \<open>The manager\<close>

datatype manager_status =
  USBM_IDLE | USBM_SETUP | USBM_RELAYING | USBM_STOPPING | USBM_SETUP_ABORT | USBM_RESET

text \<open>One endpoint number and direction: the endpoint with its interface (endpoint 0 has none),
  whether there is a reader, the writer's filters, and whether the threads are joinable.\<close>

record 's slot =
  sl_endpoint :: "(endpoint_descriptor \<times> interface_descriptor option) option"
  sl_reader :: bool
  sl_writer :: "'s pfilter list option"
  sl_reader_thread :: bool
  sl_writer_thread :: bool

definition empty_slot :: "'s slot" where
  "empty_slot = \<lparr>sl_endpoint = None, sl_reader = False, sl_writer = None,
     sl_reader_thread = False, sl_writer_thread = False\<rparr>"

text \<open>\<open>mg_claimed\<close>, \<open>mg_device_connected\<close>, \<open>mg_host_connected\<close> and \<open>mg_configs\<close> are what the proxies
  have been told: the claimed interfaces, the connections, and the arguments of \<open>setConfig\<close>.\<close>

record ('s, 'i) manager =
  mg_status :: manager_status
  mg_filters :: "'s pfilter ptr_array"
  mg_injectors :: "'i ptr_array"
  mg_injector_threads :: nat
  mg_device :: "device option"
  mg_in :: "'s slot list"
  mg_out :: "'s slot list"
  mg_claimed :: "nat list"
  mg_device_connected :: bool
  mg_host_connected :: bool
  mg_configs :: "(config option \<times> config option \<times> bool) list"

definition new_manager :: "('s, 'i) manager" where
  "new_manager =
     \<lparr>mg_status = USBM_IDLE, mg_filters = no_ptrs, mg_injectors = no_ptrs,
      mg_injector_threads = 0, mg_device = None, mg_in = replicate 16 empty_slot,
      mg_out = replicate 16 empty_slot, mg_claimed = [], mg_device_connected = False,
      mg_host_connected = False, mg_configs = []\<rparr>"

text \<open>The number of interfaces of the active configuration.\<close>

definition interface_count :: "device \<Rightarrow> nat res" where
  "interface_count dv =
     and_then (get_active_configuration dv) (\<lambda>c. and_then (deref c) (\<lambda>c.
       Inr (unat (cf_bNumInterfaces (cf_descriptor c)))))"

section \<open>Stopping\<close>

definition stop_relaying :: "('s, 'i) manager \<Rightarrow> ('s, 'i) manager res" where
  "stop_relaying m =
     (if mg_status m = USBM_SETUP then Inr (m\<lparr>mg_status := USBM_SETUP_ABORT\<rparr>)
      else if mg_status m \<noteq> USBM_RELAYING \<and> mg_status m \<noteq> USBM_SETUP_ABORT then Inr m
      else
        (let m1 = m\<lparr>mg_injector_threads := 0, mg_in := replicate 16 empty_slot,
                    mg_out := replicate 16 empty_slot\<rparr> in
         and_then
           (case mg_device m of
              None \<Rightarrow> Inr m1
            | Some dv \<Rightarrow> and_then (interface_count dv) (\<lambda>n.
                Inr (m1\<lparr>mg_claimed := filter (\<lambda>i. n \<le> i) (mg_claimed m)\<rparr>)))
           (\<lambda>m2. Inr (m2\<lparr>mg_host_connected := False, mg_device_connected := False,
              mg_device := None, mg_status := USBM_IDLE\<rparr>))))"

section \<open>Starting the relaying of endpoint 0\<close>

text \<open>Where a request to stop can be noticed.\<close>

datatype place =
  AtDeviceConnect nat | AfterClaim | AfterEndpoint | AtFilter nat | AtInjector nat
| AtInjectorThread nat | AtHostConnect nat | AfterReader | AfterWriter | BeforeRelaying

text \<open>What the start depends on: the results of the proxies' \<open>connect\<close>, the device model that is
  read through the proxy, and whether a request to stop arrives before the status is read at a
  place.\<close>

record start_env =
  se_device_connect :: "nat \<Rightarrow> int"
  se_host_connect :: "nat \<Rightarrow> int"
  se_device :: "device res"
  se_stop :: "place \<Rightarrow> bool"

definition interrupt :: "bool \<Rightarrow> ('s, 'i) manager \<Rightarrow> ('s, 'i) manager res" where
  "interrupt stop m = (if stop then stop_relaying m else Inr m)"

text \<open>The loops that connect a proxy (\<open>ETIMEDOUT\<close> is 110); they end when the device answers or a
  stop is requested, so they have fuel.\<close>

fun connect_loop ::
  "nat \<Rightarrow> (nat \<Rightarrow> int) \<Rightarrow> (nat \<Rightarrow> bool) \<Rightarrow> nat \<Rightarrow> ('s, 'i) manager \<Rightarrow> (int \<times> ('s, 'i) manager) res"
where
  "connect_loop 0 rcs stop n m = Inl OutOfFuel"
| "connect_loop (Suc fuel) rcs stop n m =
     and_then (interrupt (stop n) m) (\<lambda>m1.
       if rcs n = 110 \<and> mg_status m1 = USBM_SETUP then connect_loop fuel rcs stop (n + 1) m1
       else Inr (rcs n, m1))"

text \<open>Steps that begin with \<open>if (status!=USBM_SETUP) {stop_relaying();return;}\<close>; the result says
  whether the function has returned.\<close>

fun run_steps ::
  "(bool \<times> (('s, 'i) manager \<Rightarrow> ('s, 'i) manager res)) list \<Rightarrow> ('s, 'i) manager \<Rightarrow>
   (bool \<times> ('s, 'i) manager) res"
where
  "run_steps [] m = Inr (False, m)"
| "run_steps ((stop, body) # steps) m =
     and_then (interrupt stop m) (\<lambda>m1.
       if mg_status m1 \<noteq> USBM_SETUP then and_then (stop_relaying m1) (\<lambda>m2. Inr (True, m2))
       else and_then (body m1) (run_steps steps))"

definition ep0_descriptor :: "device \<Rightarrow> endpoint_descriptor" where
  "ep0_descriptor dv =
     \<lparr>ep_bLength = 7, ep_bDescriptorType = USB_DT_ENDPOINT, ep_bEndpointAddress = 0,
      ep_bmAttributes = 0, ep_wMaxPacketSize = ucast (dd_bMaxPacketSize0 (dv_descriptor dv)),
      ep_bInterval = 0, ep_bRefresh = None, ep_bSynchAddress = None\<rparr>"

definition upd_out0 :: "('s slot \<Rightarrow> 's slot) \<Rightarrow> ('s, 'i) manager \<Rightarrow> ('s, 'i) manager" where
  "upd_out0 f m = m\<lparr>mg_out := (mg_out m)[0 := f (mg_out m ! 0)]\<rparr>"

definition create_ep0 :: "device \<Rightarrow> ('s, 'i) manager \<Rightarrow> ('s, 'i) manager res" where
  "create_ep0 dv m = Inr (upd_out0 (\<lambda>s. s\<lparr>sl_endpoint := Some (ep0_descriptor dv, None)\<rparr>) m)"

definition create_ep0_relays :: "('s, 'i) manager \<Rightarrow> ('s, 'i) manager res" where
  "create_ep0_relays m = Inr (upd_out0 (\<lambda>s. s\<lparr>sl_reader := True, sl_writer := Some []\<rparr>) m)"

definition attach_ep0 :: "device \<Rightarrow> 's pfilter \<Rightarrow> ('s, 'i) manager \<Rightarrow> ('s, 'i) manager res" where
  "attach_ep0 dv f m =
     (if test_device (fb_device (fl_base f)) (dv_descriptor dv) then
        (case sl_endpoint (mg_out m ! 0) of
           None \<Rightarrow> Inr m
         | Some (d, _) \<Rightarrow>
             if test_endpoint (fb_endpoint (fl_base f)) d then
               and_then (deref (sl_writer (mg_out m ! 0))) (\<lambda>fs.
                 Inr (upd_out0 (\<lambda>s. s\<lparr>sl_writer := Some (fs @ [f])\<rparr>) m))
             else Inr m)
      else Inr m)"

definition start_injector_thread :: "('s, 'i) manager \<Rightarrow> ('s, 'i) manager res" where
  "start_injector_thread m = Inr (m\<lparr>mg_injector_threads := mg_injector_threads m + 1\<rparr>)"

definition start_reader0 :: "('s, 'i) manager \<Rightarrow> ('s, 'i) manager res" where
  "start_reader0 m =
     (if sl_reader (mg_out m ! 0) then
        (if sl_reader_thread (mg_out m ! 0) then Inl Exits
         else Inr (upd_out0 (\<lambda>s. s\<lparr>sl_reader_thread := True\<rparr>) m))
      else Inr m)"

definition start_writer0 :: "('s, 'i) manager \<Rightarrow> ('s, 'i) manager res" where
  "start_writer0 m =
     (if sl_writer (mg_out m ! 0) \<noteq> None then
        (if sl_writer_thread (mg_out m ! 0) then Inl Exits
         else Inr (upd_out0 (\<lambda>s. s\<lparr>sl_writer_thread := True\<rparr>) m))
      else Inr m)"

text \<open>The steps between the claim of the interfaces and the connection of the host. The injectors
  are tested against the device and the endpoint, and then nothing is done with them.\<close>

definition setup_steps ::
  "(place \<Rightarrow> bool) \<Rightarrow> device \<Rightarrow> 's pfilter list \<Rightarrow> 'i list \<Rightarrow>
   (bool \<times> (('s, 'i) manager \<Rightarrow> ('s, 'i) manager res)) list"
where
  "setup_steps stop dv fs is' =
     [(stop AfterClaim, create_ep0 dv), (stop AfterEndpoint, create_ep0_relays)]
     @ map (\<lambda>(i, f). (stop (AtFilter i), attach_ep0 dv f)) (enumerate 0 fs)
     @ map (\<lambda>(i, j). (stop (AtInjector i), \<lambda>m. Inr m)) (enumerate 0 is')
     @ map (\<lambda>(i, j). (stop (AtInjectorThread i), start_injector_thread)) (enumerate 0 is')"

text \<open>The last part: the threads of endpoint 0, and the connection of the host before them.\<close>

definition finish_start :: "(place \<Rightarrow> bool) \<Rightarrow> ('s, 'i) manager \<Rightarrow> ('s, 'i) manager res" where
  "finish_start stop m =
     and_then (start_writer0 m) (\<lambda>m1. and_then (interrupt (stop AfterWriter) m1) (\<lambda>m2.
       if mg_status m2 \<noteq> USBM_SETUP then stop_relaying m2
       else and_then (interrupt (stop BeforeRelaying) m2) (\<lambda>m3.
         Inr (m3\<lparr>mg_status := USBM_RELAYING\<rparr>))))"

definition start_threads0 :: "(place \<Rightarrow> bool) \<Rightarrow> ('s, 'i) manager \<Rightarrow> ('s, 'i) manager res" where
  "start_threads0 stop m =
     and_then (start_reader0 m) (\<lambda>m1. and_then (interrupt (stop AfterReader) m1) (\<lambda>m2.
       if mg_status m2 \<noteq> USBM_SETUP then stop_relaying (m2\<lparr>mg_status := USBM_SETUP_ABORT\<rparr>)
       else finish_start stop m2))"

definition connect_host :: "nat \<Rightarrow> start_env \<Rightarrow> ('s, 'i) manager \<Rightarrow> ('s, 'i) manager res" where
  "connect_host fuel env m =
     and_then (connect_loop fuel (se_host_connect env) (\<lambda>n. se_stop env (AtHostConnect n)) 0 m)
       (\<lambda>(rc, m1).
         if rc \<noteq> 0 then stop_relaying (m1\<lparr>mg_status := USBM_SETUP_ABORT\<rparr>)
         else start_threads0 (se_stop env) (m1\<lparr>mg_host_connected := True\<rparr>))"

text \<open>The part with the device connected: the device model, the claim of its interfaces, and the
  steps above.\<close>

definition set_up_device :: "nat \<Rightarrow> start_env \<Rightarrow> ('s, 'i) manager \<Rightarrow> ('s, 'i) manager res" where
  "set_up_device fuel env m =
     and_then (se_device env) (\<lambda>dv. and_then (interface_count dv) (\<lambda>n.
       and_then (the_ptrs (mg_filters m)) (\<lambda>fs. and_then (the_ptrs (mg_injectors m)) (\<lambda>is'.
         and_then (run_steps (setup_steps (se_stop env) dv fs is')
             (m\<lparr>mg_device_connected := True, mg_device := Some dv,
                mg_claimed := mg_claimed m @ [0..<n]\<rparr>)) (\<lambda>(returned, m1).
           if returned then Inr m1 else connect_host fuel env m1)))))"

definition start_control_relaying ::
  "nat \<Rightarrow> start_env \<Rightarrow> ('s, 'i) manager \<Rightarrow> ('s, 'i) manager res" where
  "start_control_relaying fuel env m =
     and_then (connect_loop fuel (se_device_connect env) (\<lambda>n. se_stop env (AtDeviceConnect n)) 0
         (m\<lparr>mg_status := USBM_SETUP\<rparr>)) (\<lambda>(rc, m1).
       if rc \<noteq> 0 then Inr (m1\<lparr>mg_status := USBM_IDLE\<rparr>) else set_up_device fuel env m1)"

section \<open>Starting the relaying of the other endpoints\<close>

text \<open>The endpoints of all alternate settings of all interfaces, in the order of the loops, with
  their interfaces.\<close>

definition iface_endpoints ::
  "iface \<Rightarrow> (endpoint_descriptor \<times> interface_descriptor) list res" where
  "iface_endpoints ic =
     map_res (\<lambda>k. and_then (get_endpoint_by_idx ic (of_nat k)) (\<lambda>e. and_then (deref e) (\<lambda>d.
         Inr (d, if_descriptor ic))))
       [0..<unat (get_endpoint_count ic)]"

definition config_iface_endpoints ::
  "config \<Rightarrow> nat \<Rightarrow> (endpoint_descriptor \<times> interface_descriptor) list res" where
  "config_iface_endpoints c i =
     and_then (get_interface_alternate_count c (of_nat i)) (\<lambda>n.
       concat_of (\<lambda>a. and_then (get_interface_alternate c (of_nat i) (of_nat a)) (\<lambda>ic.
           and_then (deref ic) iface_endpoints))
         [0..<unat n])"

definition active_endpoints ::
  "config \<Rightarrow> (endpoint_descriptor \<times> interface_descriptor) list res" where
  "active_endpoints c =
     concat_of (config_iface_endpoints c) [0..<unat (cf_bNumInterfaces (cf_descriptor c))]"

text \<open>An isochronous endpoint is skipped; another is stored under its number and direction.\<close>

definition is_isochronous :: "endpoint_descriptor \<Rightarrow> bool" where
  "is_isochronous d \<longleftrightarrow> ep_bmAttributes d AND 3 = 1"

definition endpoint_number :: "endpoint_descriptor \<Rightarrow> nat" where
  "endpoint_number d = unat (ep_bEndpointAddress d AND 0x0f)"

definition is_in_endpoint :: "endpoint_descriptor \<Rightarrow> bool" where
  "is_in_endpoint d \<longleftrightarrow> ep_bEndpointAddress d AND 0x80 \<noteq> 0"

definition set_slot ::
  "endpoint_descriptor \<times> interface_descriptor \<Rightarrow> 's slot list \<Rightarrow> 's slot list" where
  "set_slot = (\<lambda>(d, ic) slots.
     slots[endpoint_number d := (slots ! endpoint_number d)\<lparr>sl_endpoint := Some (d, Some ic)\<rparr>])"

definition place_endpoint_slot ::
  "endpoint_descriptor \<times> interface_descriptor \<Rightarrow> ('s, 'i) manager \<Rightarrow> ('s, 'i) manager" where
  "place_endpoint_slot e m =
     (if is_isochronous (fst e) then m
      else if is_in_endpoint (fst e) then m\<lparr>mg_in := set_slot e (mg_in m)\<rparr>
      else m\<lparr>mg_out := set_slot e (mg_out m)\<rparr>)"

text \<open>The loops over the endpoints 1 to 15.\<close>

definition data_slots :: "('s slot \<Rightarrow> 's slot res) \<Rightarrow> 's slot list \<Rightarrow> 's slot list res" where
  "data_slots f slots = and_then (map_res f (drop 1 slots)) (\<lambda>ss. Inr (take 1 slots @ ss))"

definition create_relays :: "'s slot \<Rightarrow> 's slot" where
  "create_relays s =
     (if sl_endpoint s \<noteq> None then s\<lparr>sl_reader := True, sl_writer := Some []\<rparr> else s)"

definition attach_filter ::
  "device \<Rightarrow> config \<Rightarrow> 's pfilter \<Rightarrow> 's slot \<Rightarrow> 's slot res" where
  "attach_filter dv c f s =
     (let b = fl_base f in
      if test_device (fb_device b) (dv_descriptor dv)
        \<and> test_configuration (fb_configuration b) (cf_descriptor c) then
        (case sl_endpoint s of
           None \<Rightarrow> Inr s
         | Some (d, ic) \<Rightarrow>
             if test_endpoint (fb_endpoint b) d then
               and_then (deref ic) (\<lambda>ic.
                 if test_interface (fb_interface b) ic then
                   and_then (deref (sl_writer s)) (\<lambda>fs. Inr (s\<lparr>sl_writer := Some (fs @ [f])\<rparr>))
                 else Inr s)
             else Inr s)
      else Inr s)"

text \<open>The threads of one endpoint; assigning a new thread to one that is joinable ends the
  process.\<close>

definition start_threads :: "'s slot \<Rightarrow> 's slot res" where
  "start_threads s =
     (if sl_reader s \<and> sl_reader_thread s \<or> sl_writer s \<noteq> None \<and> sl_writer_thread s then Inl Exits
      else Inr (s\<lparr>sl_reader_thread := sl_reader s \<or> sl_reader_thread s,
                 sl_writer_thread := sl_writer s \<noteq> None \<or> sl_writer_thread s\<rparr>))"

definition start_data_relaying :: "('s, 'i) manager \<Rightarrow> ('s, 'i) manager res" where
  "start_data_relaying m =
     and_then (deref (mg_device m)) (\<lambda>dv. and_then (get_active_configuration dv) (\<lambda>c.
       and_then (deref c) (\<lambda>c. and_then (active_endpoints c) (\<lambda>es.
         let m1 = fold place_endpoint_slot es m in
         and_then (data_slots (\<lambda>s. Inr (create_relays s)) (mg_in m1)) (\<lambda>ins.
           and_then (data_slots (\<lambda>s. Inr (create_relays s)) (mg_out m1)) (\<lambda>outs.
             and_then (the_ptrs (mg_filters m)) (\<lambda>fs.
               and_then (data_slots (fold_res (attach_filter dv c) fs) ins) (\<lambda>ins.
                 and_then (data_slots (fold_res (attach_filter dv c) fs) outs) (\<lambda>outs.
                   let n = unat (cf_bNumInterfaces (cf_descriptor c)) in
                   and_then (data_slots start_threads ins) (\<lambda>ins.
                     and_then (data_slots start_threads outs) (\<lambda>outs.
                       Inr (m1\<lparr>mg_in := ins, mg_out := outs,
                               mg_claimed := mg_claimed m1 @ [0..<n]\<rparr>))))))))))))"

text \<open>\<open>setConfig\<close>: both proxies get the full-speed and the high-speed configuration.\<close>

definition manager_set_config :: "u8 \<Rightarrow> ('s, 'i) manager \<Rightarrow> ('s, 'i) manager res" where
  "manager_set_config idx m =
     and_then (deref (mg_device m)) (\<lambda>dv0.
       let dv = set_active_configuration dv0 idx in
       and_then (get_configuration dv idx) (\<lambda>c.
         and_then
           (case dv_qualifier dv of
              Some q \<Rightarrow> and_then (qualifier_get_configuration q idx) (\<lambda>qc.
                Inr (if dv_highspeed dv then (qc, c, True) else (c, qc, False)))
            | None \<Rightarrow> Inr (c, None, dv_highspeed dv))
           (\<lambda>call. start_data_relaying
              (m\<lparr>mg_device := Some dv, mg_configs := mg_configs m @ [call]\<rparr>))))"

end
