(* ===== verification/Manager_Start.thy ===== *)
theory Manager_Start
  imports Manager_Model
begin

text \<open>
  What \<open>Manager::start_control_relaying\<close> and \<open>stop_relaying\<close> leave behind: the invariant of the
  set-up, its preservation by every step and by a request to stop at any place, and the two
  outcomes of a start.
\<close>

section \<open>The outcome of a start\<close>

text \<open>Nothing runs and nothing is claimed or connected.\<close>

definition quiescent :: "('s, 'i) manager \<Rightarrow> bool" where
  "quiescent m \<longleftrightarrow> mg_status m = USBM_IDLE \<and> mg_injector_threads m = 0 \<and> mg_device m = None \<and>
     mg_in m = replicate 16 empty_slot \<and> mg_out m = replicate 16 empty_slot \<and>
     mg_claimed m = [] \<and> \<not> mg_device_connected m \<and> \<not> mg_host_connected m"

text \<open>While the relaying is being set up: what is claimed belongs to the device's active
  configuration, unless a stop has already undone everything.\<close>

definition setting_up :: "device \<Rightarrow> nat \<Rightarrow> ('s, 'i) manager \<Rightarrow> bool" where
  "setting_up dv n m \<longleftrightarrow> interface_count dv = Inr n \<and> length (mg_out m) = 16 \<and>
     mg_in m = replicate 16 empty_slot \<and> drop 1 (mg_out m) = replicate 15 empty_slot \<and>
     mg_device m = Some dv \<and> mg_claimed m = [0..<n] \<and>
     mg_status m \<in> {USBM_SETUP, USBM_SETUP_ABORT}"

lemma stop_from_setup: "mg_status m = USBM_SETUP \<Longrightarrow> stop_relaying m = Inr (m\<lparr>mg_status := USBM_SETUP_ABORT\<rparr>)"
  by (simp add: stop_relaying_def)

lemma stop_idle: "mg_status m = USBM_IDLE \<Longrightarrow> stop_relaying m = Inr m"
  by (simp add: stop_relaying_def)

lemma stop_setting_up:
  assumes "setting_up dv n m" "mg_status m = USBM_SETUP_ABORT" "stop_relaying m = Inr m'"
  shows "quiescent m'"
proof -
  have "filter ((\<le>) n) [0..<n] = []" by (simp add: filter_empty_conv)
  with assms show ?thesis
    by (auto simp: stop_relaying_def setting_up_def quiescent_def Let_def)
qed

lemma stop_setting_up_quiescent:
  "quiescent m \<Longrightarrow> stop_relaying (m\<lparr>mg_status := USBM_SETUP_ABORT\<rparr>) = Inr m' \<Longrightarrow> quiescent m'"
  by (auto simp: stop_relaying_def quiescent_def Let_def)

text \<open>A request to stop during the set-up either is noted in the status or undoes everything.\<close>

definition progress :: "device \<Rightarrow> nat \<Rightarrow> ('s, 'i) manager \<Rightarrow> bool" where
  "progress dv n m \<longleftrightarrow> setting_up dv n m \<or> quiescent m"

lemma interrupt_progress:
  assumes "progress dv n m" "interrupt stop m = Inr m'"
  shows "progress dv n m'" "mg_status m' = USBM_SETUP \<Longrightarrow> m' = m \<and> \<not> stop"
proof -
  have "progress dv n m' \<and> (mg_status m' = USBM_SETUP \<longrightarrow> m' = m \<and> \<not> stop)"
  proof (cases stop)
    case False
    with assms show ?thesis by (simp add: interrupt_def)
  next
    case True
    with assms(2) have s: "stop_relaying m = Inr m'" by (simp add: interrupt_def)
    consider "setting_up dv n m" "mg_status m = USBM_SETUP"
      | "setting_up dv n m" "mg_status m = USBM_SETUP_ABORT" | "quiescent m"
      using assms(1) by (auto simp: progress_def setting_up_def)
    then show ?thesis
    proof cases
      case 1
      with s show ?thesis by (auto simp: stop_from_setup progress_def setting_up_def)
    next
      case 2
      from stop_setting_up [OF 2 s] show ?thesis by (simp add: progress_def quiescent_def)
    next
      case 3
      with s show ?thesis by (auto simp: stop_idle progress_def quiescent_def)
    qed
  qed
  then show "progress dv n m'" "mg_status m' = USBM_SETUP \<Longrightarrow> m' = m \<and> \<not> stop" by simp_all
qed

lemma stop_progress:
  assumes "progress dv n m" "mg_status m \<noteq> USBM_SETUP" "stop_relaying m = Inr m'"
  shows "quiescent m'"
  using assms stop_setting_up [of dv n m m'] stop_idle [of m]
  by (auto simp: progress_def setting_up_def quiescent_def)

lemma connect_loop_status:
  assumes "connect_loop fuel rcs stop i m = Inr (rc, m')" "mg_status m = USBM_SETUP"
  shows "m' = m \<or> m' = m\<lparr>mg_status := USBM_SETUP_ABORT\<rparr>"
  using assms
proof (induction fuel arbitrary: i)
  case (Suc fuel)
  have "interrupt (stop i) m = Inr (if stop i then m\<lparr>mg_status := USBM_SETUP_ABORT\<rparr> else m)"
    using Suc.prems(2) by (simp add: interrupt_def stop_from_setup)
  with Suc show ?case by (auto split: if_splits)
qed simp

lemma setting_up_status:
  "setting_up dv n m \<Longrightarrow> s \<in> {USBM_SETUP, USBM_SETUP_ABORT} \<Longrightarrow> setting_up dv n (m\<lparr>mg_status := s\<rparr>)"
  by (simp add: setting_up_def)

text \<open>A step of the set-up keeps the status, and what is set up.\<close>

definition setup_body :: "device \<Rightarrow> nat \<Rightarrow> (('s, 'i) manager \<Rightarrow> ('s, 'i) manager res) \<Rightarrow> bool" where
  "setup_body dv n body \<longleftrightarrow> (\<forall>m m'. setting_up dv n m \<longrightarrow> body m = Inr m' \<longrightarrow>
     setting_up dv n m' \<and> mg_status m' = mg_status m)"

lemma setup_bodyD:
  "setup_body dv n body \<Longrightarrow> setting_up dv n m \<Longrightarrow> body m = Inr m' \<Longrightarrow>
     setting_up dv n m' \<and> mg_status m' = mg_status m"
  unfolding setup_body_def by blast

lemma setting_up_upd_out0:
  "setting_up dv n m \<Longrightarrow> setting_up dv n (upd_out0 f m) \<and> mg_status (upd_out0 f m) = mg_status m"
  by (auto simp: setting_up_def upd_out0_def)

lemma setup_body_upd:
  assumes "\<And>m m'. body m = Inr m' \<Longrightarrow> m' = m \<or> (\<exists>f. m' = upd_out0 f m)"
  shows "setup_body dv n body"
  unfolding setup_body_def
proof (intro allI impI)
  fix m m'
  assume su: "setting_up dv n m" and "body m = Inr m'"
  then consider "m' = m" | f where "m' = upd_out0 f m" using assms by blast
  then show "setting_up dv n m' \<and> mg_status m' = mg_status m"
  proof cases
    case 1
    with su show ?thesis by simp
  next
    case 2
    with setting_up_upd_out0 [OF su] show ?thesis by simp
  qed
qed

lemma setup_bodies:
  "setup_body dv n (create_ep0 dv)" "setup_body dv n create_ep0_relays"
  "setup_body dv n (attach_ep0 dv f)" "setup_body dv n (\<lambda>m. Inr m)"
  "setup_body dv n start_reader0" "setup_body dv n start_writer0"
proof -
  show "setup_body dv n (create_ep0 dv)"
    by (rule setup_body_upd) (auto simp: create_ep0_def)
  show "setup_body dv n create_ep0_relays"
    by (rule setup_body_upd) (auto simp: create_ep0_relays_def)
  show "setup_body dv n (attach_ep0 dv f)"
    by (rule setup_body_upd)
      (auto simp: attach_ep0_def and_then_eq_Inr split: if_splits option.splits)
  show "setup_body dv n (\<lambda>m. Inr m)"
    by (rule setup_body_upd) simp
  show "setup_body dv n start_reader0"
    by (rule setup_body_upd) (auto simp: start_reader0_def split: if_splits)
  show "setup_body dv n start_writer0"
    by (rule setup_body_upd) (auto simp: start_writer0_def split: if_splits)
qed

lemma setup_body_injector: "setup_body dv n start_injector_thread"
  by (auto simp: setup_body_def start_injector_thread_def setting_up_def)

text \<open>The steps without the checks.\<close>

definition run_bodies ::
  "(bool \<times> (('s, 'i) manager \<Rightarrow> ('s, 'i) manager res)) list \<Rightarrow> ('s, 'i) manager \<Rightarrow> ('s, 'i) manager res" where
  "run_bodies steps = fold_res (\<lambda>step. snd step) steps"

lemma run_steps_outcome:
  assumes "run_steps steps m = Inr (returned, m')" "progress dv n m"
    and "\<forall>step \<in> set steps. setup_body dv n (snd step)"
  shows "if returned then quiescent m'
    else progress dv n m' \<and> list_all (\<lambda>step. \<not> fst step) steps \<and> run_bodies steps m = Inr m' \<and>
      (steps \<noteq> [] \<longrightarrow> mg_status m' = USBM_SETUP)"
  using assms
proof (induction steps arbitrary: m)
  case Nil
  then show ?case by (simp add: run_bodies_def)
next
  case (Cons step steps)
  obtain stop body where step: "step = (stop, body)" by (cases step)
  from Cons.prems(1) obtain m1 where 1: "interrupt stop m = Inr m1"
    and 2: "(if mg_status m1 \<noteq> USBM_SETUP then and_then (stop_relaying m1) (\<lambda>m2. Inr (True, m2))
       else and_then (body m1) (run_steps steps)) = Inr (returned, m')"
    by (auto simp: step and_then_eq_Inr)
  note p = interrupt_progress [OF Cons.prems(2) 1]
  show ?case
  proof (cases "mg_status m1 = USBM_SETUP")
    case False
    with 2 have "returned" "stop_relaying m1 = Inr m'" by (auto simp: and_then_eq_Inr)
    with stop_progress [OF p(1) False] show ?thesis by simp
  next
    case True
    with 2 obtain m2 where b: "body m1 = Inr m2" and r: "run_steps steps m2 = Inr (returned, m')"
      by (auto simp: and_then_eq_Inr)
    have m1: "m1 = m" "\<not> stop" using p(2) [OF True] by simp_all
    have su: "setting_up dv n m1" using p(1) True by (auto simp: progress_def quiescent_def)
    have "setting_up dv n m2" "mg_status m2 = USBM_SETUP"
      using setup_bodyD [of dv n body m1 m2] su b Cons.prems(3) True by (simp_all add: step)
    with Cons.IH [OF r] Cons.prems(3) m1 b step show ?thesis
      by (cases steps) (auto simp: progress_def run_bodies_def)
  qed
qed

lemma fold_res_append:
  "fold_res f (xs @ ys) st = and_then (fold_res f xs st) (fold_res f ys)"
proof (induction xs arbitrary: st)
  case (Cons x xs)
  have "fold_res f (xs @ ys) = (\<lambda>s. and_then (fold_res f xs s) (fold_res f ys))"
    using Cons by (rule ext)
  then show ?case by (simp add: and_then_assoc)
qed simp

definition ep0_filter :: "device \<Rightarrow> 's pfilter \<Rightarrow> bool" where
  "ep0_filter dv f \<longleftrightarrow> test_device (fb_device (fl_base f)) (dv_descriptor dv) \<and>
     test_endpoint (fb_endpoint (fl_base f)) (ep0_descriptor dv)"

definition ep0_slot :: "device \<Rightarrow> 's pfilter list \<Rightarrow> bool \<Rightarrow> 's slot" where
  "ep0_slot dv fs threads =
     \<lparr>sl_endpoint = Some (ep0_descriptor dv, None), sl_reader = True, sl_writer = Some fs,
      sl_reader_thread = threads, sl_writer_thread = threads\<rparr>"

lemma attach_ep0_slot:
  assumes "mg_out m ! 0 = ep0_slot dv ws False" "mg_out m \<noteq> []"
  shows "attach_ep0 dv f m =
    Inr (upd_out0 (\<lambda>s. ep0_slot dv (ws @ (if ep0_filter dv f then [f] else [])) False) m)"
proof -
  have "upd_out0 (\<lambda>s. ep0_slot dv ws False) m = m"
    using assms by (simp add: upd_out0_def flip: assms(1))
  with assms show ?thesis
    by (auto simp: attach_ep0_def ep0_slot_def ep0_filter_def upd_out0_def)
qed

lemma upd_out0_upd_out0 [simp]: "mg_out m \<noteq> [] \<Longrightarrow> upd_out0 f (upd_out0 g m) = upd_out0 (f \<circ> g) m"
  by (cases "mg_out m") (auto simp: upd_out0_def)

lemma upd_out0_const:
  "mg_out (upd_out0 (\<lambda>s. c) m) \<noteq> [] \<longleftrightarrow> mg_out m \<noteq> []"
  "mg_out m \<noteq> [] \<Longrightarrow> mg_out (upd_out0 (\<lambda>s. c) m) ! 0 = c"
  by (auto simp: upd_out0_def)

lemma run_attach:
  "mg_out m ! 0 = ep0_slot dv ws False \<Longrightarrow> mg_out m \<noteq> [] \<Longrightarrow>
   run_bodies (map (\<lambda>(i, f). (g i, attach_ep0 dv f)) (enumerate k fs)) m =
     Inr (upd_out0 (\<lambda>s. ep0_slot dv (ws @ filter (ep0_filter dv) fs) False) m)"
proof (induction fs arbitrary: m ws k)
  case Nil
  then have "upd_out0 (\<lambda>s. ep0_slot dv ws False) m = m"
    by (simp add: upd_out0_def flip: Nil(1))
  then show ?case by (simp add: run_bodies_def)
next
  case (Cons f fs)
  let ?ws = "ws @ (if ep0_filter dv f then [f] else [])"
  let ?m = "upd_out0 (\<lambda>s. ep0_slot dv ?ws False) m"
  from Cons.IH [of ?m ?ws "Suc k"] Cons.prems
  have "run_bodies (map (\<lambda>(i, f). (g i, attach_ep0 dv f)) (enumerate (Suc k) fs)) ?m =
      Inr (upd_out0 (\<lambda>s. ep0_slot dv (?ws @ filter (ep0_filter dv) fs) False) ?m)"
    by (simp add: upd_out0_const del: upd_out0_upd_out0)
  with attach_ep0_slot [OF Cons.prems, of f] Cons.prems(2) show ?case
    by (simp add: run_bodies_def comp_def)
qed


lemma run_bodies_append:
  "run_bodies (xs @ ys) m = and_then (run_bodies xs m) (run_bodies ys)"
  by (simp add: run_bodies_def fold_res_append)

lemma run_nothing: "run_bodies (map (\<lambda>(i, j). (g i, \<lambda>m. Inr m)) (enumerate k is')) m = Inr m"
  by (induction "is'" arbitrary: k) (simp_all add: run_bodies_def)

lemma run_injectors:
  "run_bodies (map (\<lambda>(i, j). (g i, start_injector_thread)) (enumerate k is')) m =
     Inr (m\<lparr>mg_injector_threads := mg_injector_threads m + length is'\<rparr>)"
  by (induction "is'" arbitrary: k m) (simp_all add: run_bodies_def start_injector_thread_def)

lemma run_setup:
  assumes "mg_out m = replicate 16 empty_slot"
  shows "run_bodies (setup_steps stop dv fs is') m =
    Inr ((upd_out0 (\<lambda>s. ep0_slot dv (filter (ep0_filter dv) fs) False) m)
      \<lparr>mg_injector_threads := mg_injector_threads m + length is'\<rparr>)"
proof -
  let ?m = "upd_out0 (\<lambda>s. ep0_slot dv [] False) m"
  have ne: "mg_out m \<noteq> []" and nth0: "mg_out m ! 0 = empty_slot" by (simp_all add: assms)
  have "run_bodies [(stop AfterClaim, create_ep0 dv), (stop AfterEndpoint, create_ep0_relays)] m = Inr ?m"
    using ne nth0 by (simp add: run_bodies_def create_ep0_def create_ep0_relays_def upd_out0_def
        ep0_slot_def empty_slot_def)
  moreover have "run_bodies (map (\<lambda>(i, f). (stop (AtFilter i), attach_ep0 dv f)) (enumerate 0 fs)) ?m =
      Inr (upd_out0 (\<lambda>s. ep0_slot dv (filter (ep0_filter dv) fs) False) m)"
    using run_attach [of ?m dv "[]" "\<lambda>i. stop (AtFilter i)" 0 fs] ne
    by (simp add: upd_out0_const comp_def)
  moreover have "mg_injector_threads (upd_out0 f m) = mg_injector_threads m" for f
    by (simp add: upd_out0_def)
  ultimately show ?thesis
    by (simp add: setup_steps_def run_bodies_append run_nothing run_injectors
        del: append_Cons append_Nil)
qed

lemma setup_steps_nonempty: "setup_steps stop dv fs is' \<noteq> []"
  by (simp add: setup_steps_def)

lemma setup_steps_bodies:
  "\<forall>step \<in> set (setup_steps stop dv fs is'). setup_body dv n (snd step)"
  by (auto simp: setup_steps_def setup_bodies setup_body_injector)

text \<open>The places where a request to stop is noticed, for \<open>nf\<close> filters and \<open>ni\<close> injectors.\<close>

definition noticed_places :: "nat \<Rightarrow> nat \<Rightarrow> place list" where
  "noticed_places nf ni =
     [AfterClaim, AfterEndpoint] @ map AtFilter [0..<nf] @ map AtInjector [0..<ni]
     @ map AtInjectorThread [0..<ni] @ [AfterReader, AfterWriter]"

lemma setup_steps_stops:
  "list_all (\<lambda>step. \<not> fst step) (setup_steps stop dv fs is') \<and> \<not> stop AfterReader \<and> \<not> stop AfterWriter
   \<Longrightarrow> list_all (\<lambda>p. \<not> stop p) (noticed_places (length fs) (length is'))"
proof -
  have e: "map (\<lambda>(i, x). (g i, b x)) (enumerate 0 xs) = map (\<lambda>i. (g i, b (xs ! i))) [0..<length xs]"
    for g :: "nat \<Rightarrow> bool" and b :: "'x \<Rightarrow> 'y" and xs
    by (rule nth_equalityI) (simp_all add: nth_enumerate_eq)
  show "list_all (\<lambda>step. \<not> fst step) (setup_steps stop dv fs is') \<and> \<not> stop AfterReader \<and> \<not> stop AfterWriter
   \<Longrightarrow> ?thesis"
    by (simp add: setup_steps_def noticed_places_def list_all_iff e ball_Un)
qed

text \<open>The state that relays: both threads of endpoint 0 run.\<close>

definition relays_ep0 :: "device \<Rightarrow> 's pfilter list \<Rightarrow> ('s, 'i) manager \<Rightarrow> bool" where
  "relays_ep0 dv fs m \<longleftrightarrow> mg_status m = USBM_RELAYING \<and> mg_device m = Some dv \<and>
     mg_out m ! 0 = ep0_slot dv fs True"

lemma finish_start_outcome:
  assumes "finish_start stop m = Inr m'" "setting_up dv n m" "mg_status m = USBM_SETUP"
    and "mg_out m ! 0 = (ep0_slot dv fs False)\<lparr>sl_reader_thread := True\<rparr>"
  shows "quiescent m' \<or> \<not> stop AfterWriter \<and> relays_ep0 dv fs m'"
proof -
  have l: "mg_out m \<noteq> []" using assms(2) by (auto simp: setting_up_def)
  let ?m1 = "upd_out0 (\<lambda>s. s\<lparr>sl_writer_thread := True\<rparr>) m"
  have 1: "start_writer0 m = Inr ?m1" using assms(4) by (simp add: start_writer0_def ep0_slot_def)
  have s1: "setting_up dv n ?m1" "mg_status ?m1 = USBM_SETUP"
    using setting_up_upd_out0 [OF assms(2)] assms(3) by simp_all
  from assms(1) 1 obtain m2 where 2: "interrupt (stop AfterWriter) ?m1 = Inr m2"
    and r: "(if mg_status m2 \<noteq> USBM_SETUP then stop_relaying m2
         else and_then (interrupt (stop BeforeRelaying) m2) (\<lambda>m3.
           Inr (m3\<lparr>mg_status := USBM_RELAYING\<rparr>))) = Inr m'"
    by (auto simp: finish_start_def and_then_eq_Inr [of "interrupt _ _"])
  have "progress dv n ?m1" using s1 by (simp add: progress_def)
  note p2 = interrupt_progress [OF this 2]
  show ?thesis
  proof (cases "mg_status m2 = USBM_SETUP")
    case False
    with r stop_progress [OF p2(1) False] show ?thesis by simp
  next
    case True
    with p2(2) have m2: "m2 = ?m1" "\<not> stop AfterWriter" by simp_all
    from True r have "m' = ?m1\<lparr>mg_status := USBM_RELAYING\<rparr>"
      by (auto simp: interrupt_def stop_from_setup m2(1) split: if_splits)
    moreover have "mg_out ?m1 ! 0 = ep0_slot dv fs True"
      using assms(4) l by (simp add: upd_out0_def ep0_slot_def)
    ultimately have "relays_ep0 dv fs m'" using s1(1) by (simp add: relays_ep0_def setting_up_def)
    with m2(2) show ?thesis by simp
  qed
qed

lemma start_threads0_outcome:
  assumes "start_threads0 stop m = Inr m'" "setting_up dv n m"
    and "mg_out m ! 0 = ep0_slot dv fs False"
  shows "quiescent m' \<or> \<not> stop AfterReader \<and> \<not> stop AfterWriter \<and> relays_ep0 dv fs m'"
proof -
  have l: "mg_out m \<noteq> []" using assms(2) by (auto simp: setting_up_def)
  let ?m1 = "upd_out0 (\<lambda>s. s\<lparr>sl_reader_thread := True\<rparr>) m"
  have 1: "start_reader0 m = Inr ?m1" using assms(3) by (simp add: start_reader0_def ep0_slot_def)
  have s1: "setting_up dv n ?m1" using setting_up_upd_out0 [OF assms(2)] by simp
  from assms(1) 1 obtain m2 where 2: "interrupt (stop AfterReader) ?m1 = Inr m2"
    and r: "(if mg_status m2 \<noteq> USBM_SETUP then stop_relaying (m2\<lparr>mg_status := USBM_SETUP_ABORT\<rparr>)
         else finish_start stop m2) = Inr m'"
    by (auto simp: start_threads0_def and_then_eq_Inr [of "interrupt _ _"])
  have "progress dv n ?m1" using s1 by (simp add: progress_def)
  note p2 = interrupt_progress [OF this 2]
  show ?thesis
  proof (cases "mg_status m2 = USBM_SETUP")
    case False
    with r have st: "stop_relaying (m2\<lparr>mg_status := USBM_SETUP_ABORT\<rparr>) = Inr m'" by simp
    from p2(1) consider (up) "setting_up dv n (m2\<lparr>mg_status := USBM_SETUP_ABORT\<rparr>)"
      | (idle) "quiescent m2"
      by (auto simp: progress_def dest: setting_up_status)
    then have "quiescent m'"
    proof cases
      case up
      then show ?thesis by (rule stop_setting_up [OF _ _ st]) simp
    next
      case idle
      then show ?thesis by (rule stop_setting_up_quiescent [OF _ st])
    qed
    then show ?thesis ..
  next
    case True
    with p2(2) have m2: "m2 = ?m1" "\<not> stop AfterReader" by simp_all
    have "mg_out ?m1 ! 0 = (ep0_slot dv fs False)\<lparr>sl_reader_thread := True\<rparr>"
      using assms(3) l by (simp add: upd_out0_def)
    with r True finish_start_outcome [of stop ?m1 m' dv n fs] s1 m2 show ?thesis by simp
  qed
qed

lemma connect_host_outcome:
  assumes "connect_host fuel env m = Inr m'" "setting_up dv n m" "mg_status m = USBM_SETUP"
    and "mg_out m ! 0 = ep0_slot dv fs False"
  shows "quiescent m' \<or>
    \<not> se_stop env AfterReader \<and> \<not> se_stop env AfterWriter \<and> relays_ep0 dv fs m'"
proof -
  from assms(1) obtain rc m1 where
    1: "connect_loop fuel (se_host_connect env) (\<lambda>n. se_stop env (AtHostConnect n)) 0 m = Inr (rc, m1)"
    and r: "(if rc \<noteq> 0 then stop_relaying (m1\<lparr>mg_status := USBM_SETUP_ABORT\<rparr>)
         else start_threads0 (se_stop env) (m1\<lparr>mg_host_connected := True\<rparr>)) = Inr m'"
    by (auto simp: connect_host_def and_then_eq_Inr)
  have m1: "m1 = m \<or> m1 = m\<lparr>mg_status := USBM_SETUP_ABORT\<rparr>"
    by (rule connect_loop_status [OF 1 assms(3)])
  show ?thesis
  proof (cases "rc = 0")
    case False
    with r have st: "stop_relaying (m1\<lparr>mg_status := USBM_SETUP_ABORT\<rparr>) = Inr m'" by simp
    have "setting_up dv n (m1\<lparr>mg_status := USBM_SETUP_ABORT\<rparr>)"
      using m1 setting_up_status [OF assms(2)] by auto
    then have "quiescent m'" by (rule stop_setting_up [OF _ _ st]) simp
    then show ?thesis ..
  next
    case True
    with r have st: "start_threads0 (se_stop env) (m1\<lparr>mg_host_connected := True\<rparr>) = Inr m'" by simp
    show ?thesis
      using m1 assms(2,4) by (intro start_threads0_outcome [OF st]) (auto simp: setting_up_def)
  qed
qed

lemma set_up_device_outcome:
  assumes "set_up_device fuel env m = Inr m'" "quiescent (m\<lparr>mg_status := USBM_IDLE\<rparr>)"
    and "mg_status m \<in> {USBM_SETUP, USBM_SETUP_ABORT}"
    and "the_ptrs (mg_filters m) = Inr fs" "the_ptrs (mg_injectors m) = Inr is'"
  shows "quiescent m' \<or>
    list_all (\<lambda>p. \<not> se_stop env p) (noticed_places (length fs) (length is')) \<and>
    (\<exists>dv. se_device env = Inr dv \<and> relays_ep0 dv (filter (ep0_filter dv) fs) m')"
proof -
  let ?m = "\<lambda>dv n. m\<lparr>mg_device_connected := True, mg_device := Some dv,
    mg_claimed := mg_claimed m @ [0..<n]\<rparr>"
  from assms(1,4,5) obtain dv n returned m1 where
    dv: "se_device env = Inr dv" and n: "interface_count dv = Inr n" and
    1: "run_steps (setup_steps (se_stop env) dv fs is') (?m dv n) = Inr (returned, m1)" and
    r: "(if returned then Inr m1 else connect_host fuel env m1) = Inr m'"
    by (auto simp: set_up_device_def and_then_eq_Inr [of "se_device env"]
        and_then_eq_Inr [of "interface_count _"] and_then_eq_Inr [of "run_steps _ _"])
  have su: "setting_up dv n (?m dv n)" and out: "mg_out (?m dv n) = replicate 16 empty_slot"
    using assms(2,3) n by (auto simp: setting_up_def quiescent_def)
  then have "progress dv n (?m dv n)" by (simp add: progress_def)
  from run_steps_outcome [OF 1 this setup_steps_bodies]
  have o: "if returned then quiescent m1
    else progress dv n m1 \<and> list_all (\<lambda>step. \<not> fst step) (setup_steps (se_stop env) dv fs is') \<and>
      run_bodies (setup_steps (se_stop env) dv fs is') (?m dv n) = Inr m1 \<and>
      mg_status m1 = USBM_SETUP"
    by (simp add: setup_steps_nonempty)
  show ?thesis
  proof (cases returned)
    case True
    with r o show ?thesis by simp
  next
    case False
    with o r have s1: "setting_up dv n m1" "mg_status m1 = USBM_SETUP"
      and stops: "list_all (\<lambda>step. \<not> fst step) (setup_steps (se_stop env) dv fs is')"
      and b: "run_bodies (setup_steps (se_stop env) dv fs is') (?m dv n) = Inr m1"
      and h: "connect_host fuel env m1 = Inr m'"
      by (auto simp: progress_def quiescent_def)
    from b run_setup [OF out] have "mg_out m1 ! 0 = ep0_slot dv (filter (ep0_filter dv) fs) False"
      using out by (auto simp: upd_out0_def)
    from connect_host_outcome [OF h s1 this] dv stops
      setup_steps_stops [of "se_stop env" dv fs is'] show ?thesis by blast
  qed
qed



text \<open>C23: a request to stop that comes between the last check of the status and the assignment of
  \<open>USBM_RELAYING\<close> has no effect at all: the assignment overwrites the \<open>USBM_SETUP_ABORT\<close> that
  \<open>stop_relaying\<close> left, and whoever asked for the stop waits for nothing.\<close>

theorem last_stop_request_lost:
  fixes m :: "('s, 'i) manager"
  shows "start_control_relaying fuel (env\<lparr>se_stop := (se_stop env)(BeforeRelaying := b)\<rparr>) m =
   start_control_relaying fuel env m"
proof -
  let ?env = "env\<lparr>se_stop := (se_stop env)(BeforeRelaying := b)\<rparr>"
  have "finish_start (se_stop ?env) m = finish_start (se_stop env) m" for m :: "('s, 'i) manager"
    unfolding finish_start_def
    by (intro and_then_cong refl) (auto simp: interrupt_def stop_from_setup)
  then have "start_threads0 (se_stop ?env) m = start_threads0 (se_stop env) m" for m :: "('s, 'i) manager"
    by (simp add: start_threads0_def cong: if_cong)
  then have "connect_host fuel ?env m = connect_host fuel env m" for m :: "('s, 'i) manager"
    by (simp add: connect_host_def cong: if_cong)
  moreover have "setup_steps (se_stop ?env) dv fs is' = setup_steps (se_stop env) dv fs is'"
    for dv and fs :: "'s pfilter list" and is' :: "'i list"
    by (simp add: setup_steps_def)
  ultimately have "set_up_device fuel ?env m = set_up_device fuel env m" for m :: "('s, 'i) manager"
    by (simp add: set_up_device_def cong: if_cong)
  then show ?thesis by (simp add: start_control_relaying_def cong: if_cong)
qed

definition timeout_once :: "nat \<Rightarrow> int" where
  "timeout_once n = (if n = 0 then 110 else 0)"

definition active_device :: device where
  "active_device = complete_device\<lparr>dv_deviceConfigurationIndex := 1\<rparr>"

definition calm_env :: "device \<Rightarrow> start_env" where
  "calm_env dv = \<lparr>se_device_connect = timeout_once, se_host_connect = timeout_once,
     se_device = Inr dv, se_stop = (\<lambda>_. False)\<rparr>"

definition one_filter_manager :: "(unit, nat) manager" where
  "one_filter_manager = new_manager
     \<lparr>mg_filters := \<lparr>pa_array = Some [Some (rot13_filter new_filter_base)], pa_count = 1\<rparr>\<rparr>"


end
