(* ===== verification/Manager_Data.thy ===== *)
theory Manager_Data
  imports Manager_Start
begin

text \<open>
  What \<open>Manager::start_data_relaying\<close> and \<open>setConfig\<close> do: every endpoint of the active
  configuration that is not isochronous gets a relay with the filters that match it, and a second
  configuration ends the process.
\<close>

section \<open>The slots\<close>

text \<open>The endpoint that ends up in a slot: the last one with its direction and number.\<close>

definition slot_endpoint ::
  "bool \<Rightarrow> nat \<Rightarrow> (endpoint_descriptor \<times> interface_descriptor) list \<Rightarrow>
   (endpoint_descriptor \<times> interface_descriptor) option" where
  "slot_endpoint dir j es = find (\<lambda>(d, ic). \<not> is_isochronous d \<and> is_in_endpoint d = dir \<and>
     endpoint_number d = j) (rev es)"

definition with_endpoint ::
  "(endpoint_descriptor \<times> interface_descriptor) option \<Rightarrow> 's slot \<Rightarrow> 's slot" where
  "with_endpoint e s = (case e of None \<Rightarrow> s | Some (d, ic) \<Rightarrow> s\<lparr>sl_endpoint := Some (d, Some ic)\<rparr>)"

lemma find_append: "find P (xs @ ys) = (case find P xs of None \<Rightarrow> find P ys | Some x \<Rightarrow> Some x)"
  by (induction xs) simp_all

lemma with_endpoint_same [simp]:
  "sl_reader (with_endpoint e s) = sl_reader s" "sl_writer (with_endpoint e s) = sl_writer s"
  "sl_reader_thread (with_endpoint e s) = sl_reader_thread s"
  "sl_writer_thread (with_endpoint e s) = sl_writer_thread s"
  by (simp_all add: with_endpoint_def split: option.splits prod.splits)

lemma endpoint_number_less: "endpoint_number d < 16"
proof -
  have "unat (ep_bEndpointAddress d AND 0x0f) \<le> unat (0x0f :: u8)"
    by (simp only: word_le_nat_alt [symmetric] word_and_le1)
  then show ?thesis by (simp add: endpoint_number_def)
qed

definition sixteen_slots :: "('s, 'i) manager \<Rightarrow> bool" where
  "sixteen_slots m \<longleftrightarrow> length (mg_in m) = 16 \<and> length (mg_out m) = 16"

lemma place_keeps:
  "sixteen_slots (fold place_endpoint_slot es m) = sixteen_slots m"
  "mg_filters (fold place_endpoint_slot es m) = mg_filters m"
  "mg_claimed (fold place_endpoint_slot es m) = mg_claimed m"
  by (induction es arbitrary: m)
    (auto simp: place_endpoint_slot_def set_slot_def sixteen_slots_def split: prod.splits)

lemma place_slot:
  assumes "sixteen_slots m" "j < 16"
  shows "mg_in (place_endpoint_slot (d, ic) m) ! j =
      (if \<not> is_isochronous d \<and> is_in_endpoint d \<and> endpoint_number d = j
       then (mg_in m ! j)\<lparr>sl_endpoint := Some (d, Some ic)\<rparr> else mg_in m ! j)"
    and "mg_out (place_endpoint_slot (d, ic) m) ! j =
      (if \<not> is_isochronous d \<and> \<not> is_in_endpoint d \<and> endpoint_number d = j
       then (mg_out m ! j)\<lparr>sl_endpoint := Some (d, Some ic)\<rparr> else mg_out m ! j)"
  using assms endpoint_number_less [of d]
  by (auto simp: place_endpoint_slot_def set_slot_def sixteen_slots_def nth_list_update)

lemma slot_endpoint_snoc:
  "slot_endpoint dir j (es @ [(d, ic)]) =
     (if \<not> is_isochronous d \<and> is_in_endpoint d = dir \<and> endpoint_number d = j then Some (d, ic)
      else slot_endpoint dir j es)"
  by (simp add: slot_endpoint_def)

lemma placed_slots:
  assumes "sixteen_slots m" "j < 16"
  shows "mg_in (fold place_endpoint_slot es m) ! j = with_endpoint (slot_endpoint True j es) (mg_in m ! j) \<and>
    mg_out (fold place_endpoint_slot es m) ! j = with_endpoint (slot_endpoint False j es) (mg_out m ! j)"
proof (induction es rule: rev_induct)
  case Nil
  show ?case by (simp add: slot_endpoint_def with_endpoint_def)
next
  case (snoc e es)
  obtain d ic where e: "e = (d, ic)" by (cases e)
  have "sixteen_slots (fold place_endpoint_slot es m)" using assms(1) by (simp add: place_keeps)
  note step = place_slot [OF this assms(2), of d ic]
  from snoc show ?case
    by (auto simp: e step slot_endpoint_snoc with_endpoint_def split: option.splits)
qed

lemma data_slots_eq:
  assumes "\<And>s. s \<in> set (drop 1 slots) \<Longrightarrow> f s = Inr (g s)"
  shows "data_slots f slots = Inr (take 1 slots @ map g (drop 1 slots))"
proof -
  have "(\<And>s. s \<in> set ss \<Longrightarrow> f s = Inr (g s)) \<Longrightarrow> map_res f ss = Inr (map g ss)" for ss
    by (induction ss) simp_all
  with assms show ?thesis by (simp add: data_slots_def)
qed

lemma data_slots_Inr:
  assumes "data_slots f slots = Inr slots'"
  shows "length slots' = length slots"
    and "1 \<le> j \<Longrightarrow> j < length slots \<Longrightarrow> f (slots ! j) = Inr (slots' ! j)"
proof -
  from assms obtain ss where ss: "list_all2 (\<lambda>s s'. f s = Inr s') (drop 1 slots) ss"
    and s': "slots' = take 1 slots @ ss"
    by (auto simp: data_slots_def and_then_eq_Inr map_res_eq_Inr)
  from ss have l: "length ss = length slots - 1" by (simp add: list_all2_lengthD [symmetric])
  show "length slots' = length slots"
    using l by (cases slots) (simp_all add: s')
  assume j: "1 \<le> j" "j < length slots"
  then have "f (drop 1 slots ! (j - 1)) = Inr (ss ! (j - 1))"
    using list_all2_nthD [OF ss, of "j - 1"] by simp
  with j show "f (slots ! j) = Inr (slots' ! j)"
    by (cases slots) (auto simp: s' nth_append)
qed


section \<open>The filters of a relay\<close>

definition data_filter ::
  "device \<Rightarrow> config \<Rightarrow> endpoint_descriptor \<times> interface_descriptor \<Rightarrow> 's pfilter \<Rightarrow> bool" where
  "data_filter dv c = (\<lambda>(d, ic) f.
     test_device (fb_device (fl_base f)) (dv_descriptor dv) \<and>
     test_configuration (fb_configuration (fl_base f)) (cf_descriptor c) \<and>
     test_endpoint (fb_endpoint (fl_base f)) d \<and> test_interface (fb_interface (fl_base f)) ic)"

lemma attach_none: "sl_endpoint s = None \<Longrightarrow> fold_res (attach_filter dv c) fs s = Inr s"
  by (induction fs) (simp_all add: attach_filter_def Let_def)

lemma attach_some:
  "sl_endpoint s = Some (d, Some ic) \<Longrightarrow> sl_writer s = Some ws \<Longrightarrow>
   fold_res (attach_filter dv c) fs s =
     Inr (s\<lparr>sl_writer := Some (ws @ filter (data_filter dv c (d, ic)) fs)\<rparr>)"
proof (induction fs arbitrary: s ws)
  case (Cons f fs)
  let ?ws = "ws @ (if data_filter dv c (d, ic) f then [f] else [])"
  have "s\<lparr>sl_writer := Some ws\<rparr> = s" using Cons.prems(2) by simp
  with Cons.prems have "attach_filter dv c f s = Inr (s\<lparr>sl_writer := Some ?ws\<rparr>)"
    by (auto simp: attach_filter_def data_filter_def Let_def)
  with Cons.IH [of "s\<lparr>sl_writer := Some ?ws\<rparr>" ?ws] Cons.prems(1) show ?case by simp
qed simp

lemma attach_keeps:
  "fold_res (attach_filter dv c) fs s = Inr s' \<Longrightarrow>
   sl_endpoint s' = sl_endpoint s \<and> sl_reader s' = sl_reader s \<and>
   sl_reader_thread s' = sl_reader_thread s"
  by (induction fs arbitrary: s)
    (fastforce simp: attach_filter_def Let_def and_then_eq_Inr split: if_splits option.splits)+

text \<open>What a slot without a relay becomes.\<close>

definition data_slot ::
  "device \<Rightarrow> config \<Rightarrow> 's pfilter list \<Rightarrow>
   (endpoint_descriptor \<times> interface_descriptor) option \<Rightarrow> 's slot" where
  "data_slot dv c fs e =
     (case e of None \<Rightarrow> empty_slot
      | Some (d, ic) \<Rightarrow>
          \<lparr>sl_endpoint = Some (d, Some ic), sl_reader = True,
           sl_writer = Some (filter (data_filter dv c (d, ic)) fs),
           sl_reader_thread = True, sl_writer_thread = True\<rparr>)"

text \<open>The three loops over one direction.\<close>

definition relay_slots ::
  "device \<Rightarrow> config \<Rightarrow> 's pfilter list \<Rightarrow> 's slot list \<Rightarrow> 's slot list res" where
  "relay_slots dv c fs slots =
     and_then (data_slots (\<lambda>s. Inr (create_relays s)) slots) (\<lambda>s1.
       and_then (data_slots (fold_res (attach_filter dv c) fs) s1) (data_slots start_threads))"

lemma data_slots_fuse:
  assumes "\<And>s. s \<in> set (drop 1 slots) \<Longrightarrow> f s = Inr (F s)"
  shows "and_then (data_slots f slots) (data_slots g) = data_slots (g \<circ> F) slots"
proof -
  have "map_res g (map F ss) = map_res (g \<circ> F) ss" for ss
    by (induction ss) simp_all
  then show ?thesis
    using data_slots_eq [of slots f F] assms by (cases slots) (simp_all add: data_slots_def)
qed

text \<open>A slot without a relay, and the endpoint that has been placed in it.\<close>

definition placed :: "'s slot \<Rightarrow> bool" where
  "placed s \<longleftrightarrow> (\<exists>e. s = with_endpoint e empty_slot)"

definition placed_endpoint :: "'s slot \<Rightarrow> (endpoint_descriptor \<times> interface_descriptor) option" where
  "placed_endpoint s = (case sl_endpoint s of Some (d, Some ic) \<Rightarrow> Some (d, ic) | _ \<Rightarrow> None)"

lemma placed_endpoint_with [simp]: "placed_endpoint (with_endpoint e empty_slot) = e"
  by (cases e) (auto simp: placed_endpoint_def with_endpoint_def empty_slot_def)

lemma empty_slot_simps [simp]:
  "sl_endpoint empty_slot = None" "start_threads empty_slot = Inr empty_slot"
  by (simp_all add: start_threads_def) (simp_all add: empty_slot_def)

lemma relay_slot:
  assumes "placed s"
  shows "\<exists>s1. fold_res (attach_filter dv c) fs (create_relays s) = Inr s1 \<and>
    start_threads s1 = Inr (data_slot dv c fs (placed_endpoint s))"
proof -
  from assms obtain e where e: "s = with_endpoint e empty_slot" by (auto simp: placed_def)
  show ?thesis
  proof (cases e)
    case None
    then have "create_relays s = empty_slot" "placed_endpoint s = None"
      by (simp_all add: e) (simp add: with_endpoint_def create_relays_def)
    then show ?thesis by (simp add: attach_none data_slot_def)
  next
    case (Some x)
    obtain d ic where x: "x = (d, ic)" by (cases x)
    let ?s = "\<lparr>sl_endpoint = Some (d, Some ic), sl_reader = True, sl_writer = Some [],
      sl_reader_thread = False, sl_writer_thread = False\<rparr> :: 'a slot"
    have "create_relays s = ?s"
      by (simp add: e Some x with_endpoint_def create_relays_def empty_slot_def)
    with attach_some [of ?s d ic "[]" dv c fs] show ?thesis
      by (simp add: e Some x start_threads_def data_slot_def)
  qed
qed

lemma relay_slots_placed:
  assumes "\<And>s. s \<in> set (drop 1 slots) \<Longrightarrow> placed s"
  shows "relay_slots dv c fs slots =
    Inr (take 1 slots @ map (\<lambda>s. data_slot dv c fs (placed_endpoint s)) (drop 1 slots))"
proof -
  let ?attach = "fold_res (attach_filter dv c) fs"
  define mid where "mid s = (SOME s1. ?attach (create_relays s) = Inr s1 \<and>
    start_threads s1 = Inr (data_slot dv c fs (placed_endpoint s)))" for s
  have mid: "?attach (create_relays s) = Inr (mid s)"
    "start_threads (mid s) = Inr (data_slot dv c fs (placed_endpoint s))"
    if "s \<in> set (drop 1 slots)" for s
    using someI_ex [OF relay_slot [OF assms [OF that]]] by (simp_all add: mid_def)
  have "relay_slots dv c fs slots =
      and_then (and_then (data_slots (\<lambda>s. Inr (create_relays s)) slots) (data_slots ?attach))
        (data_slots start_threads)"
    by (simp add: relay_slots_def and_then_assoc)
  also have "\<dots> = and_then (data_slots (?attach \<circ> create_relays) slots) (data_slots start_threads)"
    using data_slots_fuse [of slots "\<lambda>s. Inr (create_relays s)" create_relays ?attach] by simp
  also have "\<dots> = data_slots (start_threads \<circ> mid) slots"
    by (rule data_slots_fuse) (simp add: mid(1))
  also have "\<dots> = Inr (take 1 slots @ map (\<lambda>s. data_slot dv c fs (placed_endpoint s)) (drop 1 slots))"
    by (rule data_slots_eq) (simp add: mid(2))
  finally show ?thesis .
qed


section \<open>One configuration\<close>

text \<open>No data endpoint is relayed yet.\<close>

definition no_data_relays :: "('s, 'i) manager \<Rightarrow> bool" where
  "no_data_relays m \<longleftrightarrow> sixteen_slots m \<and>
     drop 1 (mg_in m) = replicate 15 empty_slot \<and> drop 1 (mg_out m) = replicate 15 empty_slot"

lemma idle_slot:
  assumes "drop 1 slots = replicate 15 empty_slot" "length slots = 16" "1 \<le> j" "j < 16"
  shows "slots ! j = empty_slot"
proof -
  have "slots ! j = drop 1 slots ! (j - 1)" using assms(2-4) by simp
  also have "\<dots> = empty_slot" using assms by (simp only: assms(1)) simp
  finally show ?thesis .
qed

lemma start_data_relaying_split:
  assumes "mg_device m = Some dv" "get_active_configuration dv = Inr (Some c)"
    and "active_endpoints c = Inr es" "the_ptrs (mg_filters m) = Inr fs"
  shows "start_data_relaying m =
    (let m1 = fold place_endpoint_slot es m in
     and_then (data_slots (\<lambda>s. Inr (create_relays s)) (mg_in m1)) (\<lambda>ins.
       and_then (data_slots (\<lambda>s. Inr (create_relays s)) (mg_out m1)) (\<lambda>outs.
         and_then (data_slots (fold_res (attach_filter dv c) fs) ins) (\<lambda>ins.
           and_then (data_slots (fold_res (attach_filter dv c) fs) outs) (\<lambda>outs.
             and_then (data_slots start_threads ins) (\<lambda>ins.
               and_then (data_slots start_threads outs) (\<lambda>outs.
                 Inr (m1\<lparr>mg_in := ins, mg_out := outs, mg_claimed := mg_claimed m1 @
                   [0..<unat (cf_bNumInterfaces (cf_descriptor c))]\<rparr>))))))))"
  using assms by (simp add: start_data_relaying_def Let_def)

lemma relay_slots_steps:
  assumes "relay_slots dv c fs slots = Inr slots'"
  obtains s1 s2 where "data_slots (\<lambda>s. Inr (create_relays s)) slots = Inr s1"
    "data_slots (fold_res (attach_filter dv c) fs) s1 = Inr s2" "data_slots start_threads s2 = Inr slots'"
  using assms by (auto simp: relay_slots_def and_then_eq_Inr)

lemma start_data_relaying_slots:
  assumes "mg_device m = Some dv" "get_active_configuration dv = Inr (Some c)"
    and "active_endpoints c = Inr es" "the_ptrs (mg_filters m) = Inr fs"
    and "relay_slots dv c fs (mg_in (fold place_endpoint_slot es m)) = Inr ins"
    and "relay_slots dv c fs (mg_out (fold place_endpoint_slot es m)) = Inr outs"
  shows "\<exists>m'. start_data_relaying m = Inr m' \<and> mg_in m' = ins \<and> mg_out m' = outs"
proof -
  obtain i1 i2 where
    "data_slots (\<lambda>s. Inr (create_relays s)) (mg_in (fold place_endpoint_slot es m)) = Inr i1"
    "data_slots (fold_res (attach_filter dv c) fs) i1 = Inr i2" "data_slots start_threads i2 = Inr ins"
    using relay_slots_steps [OF assms(5)] by blast
  moreover obtain o1 o2 where
    "data_slots (\<lambda>s. Inr (create_relays s)) (mg_out (fold place_endpoint_slot es m)) = Inr o1"
    "data_slots (fold_res (attach_filter dv c) fs) o1 = Inr o2" "data_slots start_threads o2 = Inr outs"
    using relay_slots_steps [OF assms(6)] by blast
  ultimately show ?thesis by (simp add: start_data_relaying_split [OF assms(1-4)] Let_def)
qed

lemma relayed_direction:
  assumes "length slots = 16" "drop 1 slots = replicate 15 empty_slot" "length slots1 = 16"
    and "\<And>j. j < 16 \<Longrightarrow> slots1 ! j = with_endpoint (ep j) (slots ! j)"
  shows "\<exists>slots'. relay_slots dv c fs slots1 = Inr slots' \<and>
    (\<forall>j. 1 \<le> j \<longrightarrow> j < 16 \<longrightarrow> slots' ! j = data_slot dv c fs (ep j))"
proof -
  have at: "slots1 ! j = with_endpoint (ep j) empty_slot" if "1 \<le> j" "j < 16" for j
    using assms(4) [OF that(2)] idle_slot [OF assms(2,1) that] by simp
  have "placed s" if "s \<in> set (drop 1 slots1)" for s
  proof -
    from that obtain k where "k < 15" "s = drop 1 slots1 ! k"
      using assms(3) by (auto simp: in_set_conv_nth)
    then show ?thesis using at [of "k + 1"] assms(3) by (auto simp: placed_def)
  qed
  note r = relay_slots_placed [OF this]
  have "(take 1 slots1 @ map (\<lambda>s. data_slot dv c fs (placed_endpoint s)) (drop 1 slots1)) ! j =
      data_slot dv c fs (ep j)" if "1 \<le> j" "j < 16" for j
    using at [OF that] that assms(3) by (simp add: nth_append)
  with r show ?thesis by blast
qed



definition sample_manager :: "(unit, nat) manager" where
  "sample_manager = one_filter_manager\<lparr>mg_status := USBM_RELAYING, mg_device := Some active_device\<rparr>"

lemma sample_manager_facts:
  "no_data_relays sample_manager" "mg_device sample_manager = Some active_device"
  "get_active_configuration active_device = Inr (Some sample_config)"
  "holds (mg_filters sample_manager) [rot13_filter new_filter_base]"
proof -
  show "no_data_relays sample_manager"
    by (simp add: sample_manager_def one_filter_manager_def new_manager_def no_data_relays_def
        sixteen_slots_def)
  show "mg_device sample_manager = Some active_device" by (simp add: sample_manager_def)
  show "get_active_configuration active_device = Inr (Some sample_config)"
    by (simp add: active_device_def complete_device_def get_active_configuration_def
        get_configuration_def device_of_bytes_def)
  show "holds (mg_filters sample_manager) [rot13_filter new_filter_base]"
    by (simp add: sample_manager_def one_filter_manager_def holds_def)
qed

lemma sample_endpoints: "\<exists>es. active_endpoints sample_config = Inr es"
proof -
  have "case active_endpoints sample_config of Inr es \<Rightarrow> True | Inl e \<Rightarrow> False" by code_simp
  then show ?thesis by (auto split: sum.splits)
qed


section \<open>A second configuration\<close>

definition running :: "'s slot \<Rightarrow> bool" where
  "running s \<longleftrightarrow> sl_reader s \<and> sl_reader_thread s"

lemma running_stuck: "running s \<Longrightarrow> start_threads s = Inl Exits"
  by (simp add: running_def start_threads_def)

lemma create_relays_keeps:
  "running s \<Longrightarrow> running (create_relays s)"
  "sl_endpoint s \<noteq> None \<Longrightarrow> sl_reader (create_relays s)"
  "sl_endpoint (create_relays s) = sl_endpoint s"
  by (simp_all add: running_def create_relays_def)

lemma start_threads_running:
  "start_threads s = Inr s' \<Longrightarrow> sl_reader s \<Longrightarrow> running s' \<and> sl_endpoint s' = sl_endpoint s"
  "start_threads s = Inr s' \<Longrightarrow> sl_endpoint s' = sl_endpoint s"
  by (auto simp: start_threads_def running_def split: if_splits)

text \<open>A slot whose endpoint is set runs after the three loops, and one that ran before them makes
  them fail.\<close>

lemma relay_slots_running:
  assumes "relay_slots dv c fs slots = Inr slots'" "1 \<le> j" "j < length slots"
  shows "\<not> running (slots ! j)"
    and "sl_endpoint (slots' ! j) \<noteq> None \<Longrightarrow> running (slots' ! j)"
    and "length slots' = length slots"
proof -
  obtain s1 s2 where s: "data_slots (\<lambda>s. Inr (create_relays s)) slots = Inr s1"
    "data_slots (fold_res (attach_filter dv c) fs) s1 = Inr s2" "data_slots start_threads s2 = Inr slots'"
    by (rule relay_slots_steps [OF assms(1)])
  have l: "length s1 = length slots" "length s2 = length slots" "length slots' = length slots"
    using data_slots_Inr(1) [OF s(1)] data_slots_Inr(1) [OF s(2)] data_slots_Inr(1) [OF s(3)] by simp_all
  then show "length slots' = length slots" by simp
  have 1: "s1 ! j = create_relays (slots ! j)"
    using data_slots_Inr(2) [OF s(1) assms(2,3)] by simp
  have 2: "fold_res (attach_filter dv c) fs (s1 ! j) = Inr (s2 ! j)"
    using data_slots_Inr(2) [OF s(2) assms(2)] assms(3) l by simp
  have 3: "start_threads (s2 ! j) = Inr (slots' ! j)"
    using data_slots_Inr(2) [OF s(3) assms(2)] assms(3) l by simp
  note k = attach_keeps [OF 2]
  show "\<not> running (slots ! j)"
    using 1 3 k create_relays_keeps(1) [of "slots ! j"] running_stuck [of "s2 ! j"]
    by (auto simp: running_def)
  show "running (slots' ! j)" if "sl_endpoint (slots' ! j) \<noteq> None"
    using that 1 k create_relays_keeps(2,3) [of "slots ! j"] start_threads_running [OF 3] by simp
qed

lemma start_data_relaying_Inr:
  assumes "start_data_relaying m = Inr m'"
  obtains dv c es fs where "mg_device m = Some dv" "get_active_configuration dv = Inr (Some c)"
    "active_endpoints c = Inr es" "the_ptrs (mg_filters m) = Inr fs"
    "relay_slots dv c fs (mg_in (fold place_endpoint_slot es m)) = Inr (mg_in m')"
    "relay_slots dv c fs (mg_out (fold place_endpoint_slot es m)) = Inr (mg_out m')"
    "mg_device m' = mg_device (fold place_endpoint_slot es m)"
proof -
  obtain dv c es fs where d: "mg_device m = Some dv" "get_active_configuration dv = Inr (Some c)"
    "active_endpoints c = Inr es" "the_ptrs (mg_filters m) = Inr fs"
    using assms by (auto simp: start_data_relaying_def res_simps Let_def)
  let ?m = "fold place_endpoint_slot es m"
  from assms obtain i1 o1 i2 o2 where
    "data_slots (\<lambda>s. Inr (create_relays s)) (mg_in ?m) = Inr i1"
    "data_slots (\<lambda>s. Inr (create_relays s)) (mg_out ?m) = Inr o1"
    "data_slots (fold_res (attach_filter dv c) fs) i1 = Inr i2"
    "data_slots (fold_res (attach_filter dv c) fs) o1 = Inr o2"
    "data_slots start_threads i2 = Inr (mg_in m')" "data_slots start_threads o2 = Inr (mg_out m')"
    "mg_device m' = mg_device ?m"
    unfolding start_data_relaying_split [OF d] Let_def and_then_eq_Inr by auto
  then show ?thesis
    by (intro that [OF d]) (unfold relay_slots_def and_then_eq_Inr, blast+)
qed

lemma data_relays_run:
  assumes "start_data_relaying m = Inr m'" "sixteen_slots m" "1 \<le> j" "j < 16"
  shows "\<not> running (mg_in m ! j)" "\<not> running (mg_out m ! j)" "sixteen_slots m'"
    "sl_endpoint (mg_in m' ! j) \<noteq> None \<Longrightarrow> running (mg_in m' ! j)"
    "sl_endpoint (mg_out m' ! j) \<noteq> None \<Longrightarrow> running (mg_out m' ! j)"
proof -
  obtain dv c es fs where
    i: "relay_slots dv c fs (mg_in (fold place_endpoint_slot es m)) = Inr (mg_in m')" and
    o: "relay_slots dv c fs (mg_out (fold place_endpoint_slot es m)) = Inr (mg_out m')"
    by (rule start_data_relaying_Inr [OF assms(1)])
  have s16: "sixteen_slots (fold place_endpoint_slot es m)" using assms(2) by (simp add: place_keeps)
  then have l: "length (mg_in (fold place_endpoint_slot es m)) = 16"
    "length (mg_out (fold place_endpoint_slot es m)) = 16" by (simp_all add: sixteen_slots_def)
  note p = placed_slots [OF assms(2,4), of es]
  note ri = relay_slots_running [OF i assms(3), unfolded l, OF assms(4)]
  note ro = relay_slots_running [OF o assms(3), unfolded l, OF assms(4)]
  show "\<not> running (mg_in m ! j)" using ri(1) p by (simp add: running_def)
  show "\<not> running (mg_out m ! j)" using ro(1) p by (simp add: running_def)
  show "sl_endpoint (mg_in m' ! j) \<noteq> None \<Longrightarrow> running (mg_in m' ! j)" by (rule ri(2))
  show "sl_endpoint (mg_out m' ! j) \<noteq> None \<Longrightarrow> running (mg_out m' ! j)" by (rule ro(2))
  show "sixteen_slots m'" using ri(3) ro(3) by (simp add: sixteen_slots_def)
qed

lemma set_config_Inr:
  assumes "manager_set_config v m = Inr m'"
  obtains dv calls where "start_data_relaying (m\<lparr>mg_device := Some dv, mg_configs := calls\<rparr>) = Inr m'"
  using assms by (auto simp: manager_set_config_def and_then_eq_Inr Let_def)

text \<open>C22: a host that selects a configuration twice ends the process: when the first
  SET_CONFIGURATION has set up at least one data endpoint, a second one, whatever its value, does
  not return, because nothing stops the threads before new ones are assigned to them.\<close>

theorem second_configuration_fails:
  assumes "manager_set_config v m = Inr m1" "sixteen_slots m" "1 \<le> j" "j < 16"
    and "sl_endpoint (mg_in m1 ! j) \<noteq> None \<or> sl_endpoint (mg_out m1 ! j) \<noteq> None"
  shows "isl (manager_set_config v' m1)"
proof (cases "manager_set_config v' m1")
  case (Inr m2)
  obtain dv calls where 1: "start_data_relaying (m\<lparr>mg_device := Some dv, mg_configs := calls\<rparr>) = Inr m1"
    by (rule set_config_Inr [OF assms(1)])
  obtain dv' calls' where 2: "start_data_relaying (m1\<lparr>mg_device := Some dv', mg_configs := calls'\<rparr>) = Inr m2"
    by (rule set_config_Inr [OF Inr])
  have "sixteen_slots (m\<lparr>mg_device := Some dv, mg_configs := calls\<rparr>)"
    using assms(2) by (simp add: sixteen_slots_def)
  note r1 = data_relays_run [OF 1 this assms(3,4)]
  have "sixteen_slots (m1\<lparr>mg_device := Some dv', mg_configs := calls'\<rparr>)"
    using r1(3) by (simp add: sixteen_slots_def)
  from data_relays_run(1,2) [OF 2 this assms(3,4)] r1(4,5) assms(5) show ?thesis by auto
qed simp

theorem second_configuration_fails_witness:
  "\<exists>m1. manager_set_config 1 sample_manager = Inr m1 \<and>
    (\<exists>j. sl_endpoint (mg_in m1 ! j) \<noteq> None) \<and> isl (manager_set_config 1 m1)"
proof -
  have "case manager_set_config 1 sample_manager of
      Inr m1 \<Rightarrow> \<not> Option.is_none (sl_endpoint (mg_in m1 ! 1)) | Inl e \<Rightarrow> False"
    by code_simp
  then obtain m1 where 1: "manager_set_config 1 sample_manager = Inr m1"
    "sl_endpoint (mg_in m1 ! 1) \<noteq> None"
    by (auto simp: Option.is_none_def split: sum.splits)
  have "sixteen_slots sample_manager"
    using sample_manager_facts(1) by (simp add: no_data_relays_def)
  from second_configuration_fails [OF 1(1) this, of 1 1] 1 show ?thesis by auto
qed

end
