(* ===== verification/LibUSB_Model.thy ===== *)
theory LibUSB_Model
  imports Usb_Descriptors
begin

text \<open>
  The device proxy over libusb (\<open>src/Plugins/Devices/DeviceProxy_LibUSB.cpp\<close>): choosing and opening
  the device, the table that says which endpoints belong to a claimed interface, and the transfers
  with their retries. What libusb returns is a parameter of every operation; messages are left
  out.
\<close>

definition LIBUSB_SUCCESS :: int where "LIBUSB_SUCCESS = 0"
definition LIBUSB_ERROR_NOT_FOUND :: int where "LIBUSB_ERROR_NOT_FOUND = -5"
definition LIBUSB_ERROR_TIMEOUT :: int where "LIBUSB_ERROR_TIMEOUT = -7"
definition LIBUSB_ERROR_PIPE :: int where "LIBUSB_ERROR_PIPE = -9"
definition MATCH_ANY :: int where "MATCH_ANY = -1"
definition MAX_ATTEMPTS :: nat where "MAX_ATTEMPTS = 5"

lemmas libusb_consts = LIBUSB_SUCCESS_def LIBUSB_ERROR_NOT_FOUND_def LIBUSB_ERROR_TIMEOUT_def
  LIBUSB_ERROR_PIPE_def MATCH_ANY_def

section \<open>State\<close>

text \<open>The pointer \<open>context\<close>: NULL, a context, or one that \<open>libusb_exit\<close> has released.\<close>

datatype libusb_context = NoContext | LiveContext | ReleasedContext

record ep_interface =
  ei_interface :: u8
  ei_defined :: bool
  ei_claimed :: bool

text \<open>\<open>lu_handle\<close> is the device that \<open>dev_handle\<close> was opened for, \<open>lu_callback\<close> whether a hotplug
  callback is registered.\<close>

record libusb =
  lu_context :: libusb_context
  lu_callback :: bool
  lu_handle :: "device_descriptor option"
  lu_privateContext :: bool
  lu_privateDevice :: bool
  lu_vid :: int
  lu_pid :: int
  lu_hubs :: bool
  lu_eps :: "ep_interface list"

definition new_libusb :: "int \<Rightarrow> int \<Rightarrow> bool \<Rightarrow> libusb" where
  "new_libusb vendorId productId includeHubs =
     \<lparr>lu_context = NoContext, lu_callback = False, lu_handle = None, lu_privateContext = True,
      lu_privateDevice = True, lu_vid = vendorId, lu_pid = productId, lu_hubs = includeHubs,
      lu_eps = replicate 16 \<lparr>ei_interface = 0, ei_defined = False, ei_claimed = False\<rparr>\<rparr>"

section \<open>Connecting\<close>

text \<open>The answers of libusb: the devices with the results of reading their descriptors (or an
  error), and the results of opening, detaching the kernel driver, reading string 0 and
  registering the callback.\<close>

record libusb_env =
  le_devices :: "int + (int \<times> device_descriptor) list"
  le_open :: int
  le_detach :: int
  le_string :: int
  le_register :: int

definition wanted :: "int \<Rightarrow> int \<Rightarrow> bool \<Rightarrow> device_descriptor \<Rightarrow> bool" where
  "wanted vendorId productId includeHubs d \<longleftrightarrow>
     (includeHubs \<or> dd_bDeviceClass d \<noteq> 9) \<and>
     (vendorId = uint (dd_idVendor d) \<or> vendorId = MATCH_ANY) \<and>
     (productId = uint (dd_idProduct d) \<or> productId = MATCH_ANY)"

fun find_device ::
  "int \<Rightarrow> int \<Rightarrow> bool \<Rightarrow> (int \<times> device_descriptor) list \<Rightarrow> device_descriptor option" where
  "find_device vendorId productId includeHubs [] = None"
| "find_device vendorId productId includeHubs ((rc, d) # ds) =
     (if rc = LIBUSB_SUCCESS \<and> wanted vendorId productId includeHubs d then Some d
      else find_device vendorId productId includeHubs ds)"

text \<open>The part of \<open>connect\<close> after the device is open.\<close>

definition check_device :: "libusb_env \<Rightarrow> libusb \<Rightarrow> int \<times> libusb" where
  "check_device env lu =
     (if le_detach env \<noteq> LIBUSB_SUCCESS then (le_detach env, lu)
      else if le_string env < 0 then (le_string env, lu)
      else if \<not> lu_callback lu then
        (if le_register env \<noteq> LIBUSB_SUCCESS then (le_register env, lu\<lparr>lu_context := ReleasedContext\<rparr>)
         else (0, lu\<lparr>lu_callback := True\<rparr>))
      else (0, lu))"

definition libusb_connect :: "int \<Rightarrow> int \<Rightarrow> bool \<Rightarrow> libusb_env \<Rightarrow> libusb \<Rightarrow> int \<times> libusb" where
  "libusb_connect vendorId productId includeHubs env lu =
     (if lu_handle lu \<noteq> None then (0, lu)
      else
        (let lu1 = lu\<lparr>lu_privateContext := True, lu_privateDevice := True,
                     lu_context := LiveContext\<rparr> in
         case le_devices env of
           Inl e \<Rightarrow> (e, lu1)
         | Inr ds \<Rightarrow>
             (case find_device vendorId productId includeHubs ds of
                None \<Rightarrow> (-1, lu1)
              | Some d \<Rightarrow>
                  if le_open env \<noteq> LIBUSB_SUCCESS then (le_open env, lu1)
                  else check_device env (lu1\<lparr>lu_handle := Some d\<rparr>))))"

text \<open>\<open>connect(int timeout)\<close>.\<close>

definition connect_desired :: "libusb_env \<Rightarrow> libusb \<Rightarrow> int \<times> libusb" where
  "connect_desired env lu = libusb_connect (lu_vid lu) (lu_pid lu) (lu_hubs lu) env lu"

text \<open>\<open>connect(libusb_device*, libusb_context*)\<close> and \<open>connect(libusb_device_handle*, ...)\<close>.\<close>

definition connect_device :: "device_descriptor \<Rightarrow> libusb_context \<Rightarrow> int \<Rightarrow> libusb \<Rightarrow> int \<times> libusb" where
  "connect_device d ctx open_rc lu =
     (if lu_handle lu \<noteq> None then (0, lu)
      else (let lu1 = lu\<lparr>lu_privateContext := False, lu_context := ctx\<rparr> in
        if open_rc \<noteq> LIBUSB_SUCCESS then (open_rc, lu1\<lparr>lu_handle := None\<rparr>)
        else (0, lu1\<lparr>lu_handle := Some d\<rparr>)))"

definition connect_handle ::
  "device_descriptor option \<Rightarrow> libusb_context \<Rightarrow> libusb \<Rightarrow> int \<times> libusb" where
  "connect_handle devh ctx lu =
     (if lu_handle lu \<noteq> None then (0, lu)
      else (0, lu\<lparr>lu_privateContext := False, lu_privateDevice := False, lu_context := ctx,
                 lu_handle := devh\<rparr>))"

text \<open>A call of libusb with a context that has been released is a use after free.\<close>

definition use_context :: "bool \<Rightarrow> libusb \<Rightarrow> libusb res" where
  "use_context used lu =
     (if used \<and> lu_context lu = ReleasedContext then Inl UseAfterFree else Inr lu)"

definition libusb_disconnect :: "libusb \<Rightarrow> libusb res" where
  "libusb_disconnect lu =
     and_then (use_context (lu_context lu \<noteq> NoContext \<and> lu_callback lu) lu) (\<lambda>lu.
       and_then (use_context (lu_privateDevice lu \<and> lu_handle lu \<noteq> None) (lu\<lparr>lu_callback := False\<rparr>)) (\<lambda>lu.
         and_then (use_context (lu_privateContext lu \<and> lu_context lu \<noteq> NoContext)
             (lu\<lparr>lu_handle := None\<rparr>)) (\<lambda>lu.
           Inr (lu\<lparr>lu_context := NoContext\<rparr>))))"

definition libusb_reset :: "int \<Rightarrow> libusb \<Rightarrow> libusb res" where
  "libusb_reset rc lu = (if rc = LIBUSB_ERROR_NOT_FOUND then libusb_disconnect lu else Inr lu)"

definition libusb_is_connected :: "libusb \<Rightarrow> bool" where
  "libusb_is_connected lu \<longleftrightarrow> lu_handle lu \<noteq> None"

text \<open>\<open>control_request\<close> from the result of the transfer: return code and \<open>nbytes\<close>.\<close>

definition libusb_control_request :: "int \<Rightarrow> int \<times> int option" where
  "libusb_control_request rc =
     (if rc < 0 then (if rc = LIBUSB_ERROR_PIPE then (-1, None) else (rc, None))
      else (0, Some rc))"

section \<open>Interfaces\<close>

definition ep_index :: "u8 \<Rightarrow> nat" where
  "ep_index endpoint = unat (endpoint AND 0x0f)"

definition endpoint_interface_claimed :: "u8 \<Rightarrow> libusb \<Rightarrow> bool" where
  "endpoint_interface_claimed endpoint lu =
     (let e = lu_eps lu ! ep_index endpoint in
      if \<not> ei_defined e then False else if \<not> ei_claimed e then False else True)"

definition set_endpoint_interface :: "u8 \<Rightarrow> u8 \<Rightarrow> libusb \<Rightarrow> libusb" where
  "set_endpoint_interface endpoint iface lu =
     lu\<lparr>lu_eps := (lu_eps lu)[ep_index endpoint :=
         (lu_eps lu ! ep_index endpoint)\<lparr>ei_defined := True, ei_interface := iface\<rparr>]\<rparr>"

text \<open>The loops of \<open>claim_interface\<close> and \<open>release_interface\<close>.\<close>

definition mark_claimed :: "bool \<Rightarrow> u8 \<Rightarrow> libusb \<Rightarrow> libusb" where
  "mark_claimed claimed iface lu =
     lu\<lparr>lu_eps := map (\<lambda>e. if ei_defined e \<and> ei_interface e = iface then e\<lparr>ei_claimed := claimed\<rparr> else e)
       (lu_eps lu)\<rparr>"

definition claim_interface :: "int \<Rightarrow> u8 \<Rightarrow> libusb \<Rightarrow> libusb" where
  "claim_interface rc iface lu =
     (if \<not> libusb_is_connected lu then lu
      else if rc \<noteq> LIBUSB_SUCCESS then lu else mark_claimed True iface lu)"

definition release_interface :: "int \<Rightarrow> u8 \<Rightarrow> libusb \<Rightarrow> libusb" where
  "release_interface rc iface lu =
     (if \<not> libusb_is_connected lu then lu
      else if rc \<noteq> LIBUSB_SUCCESS \<and> rc \<noteq> LIBUSB_ERROR_NOT_FOUND then lu
      else mark_claimed False iface lu)"

section \<open>Transfers\<close>

text \<open>The result of one transfer: the return code and, when libusb stores it, the number of bytes
  transferred.\<close>

type_synonym transfer_result = "int \<times> int option"

definition stalled :: "int \<Rightarrow> bool" where
  "stalled rc \<longleftrightarrow> rc = LIBUSB_ERROR_PIPE \<or> rc = LIBUSB_ERROR_TIMEOUT"

text \<open>The bulk loop of \<open>send_data\<close>: every attempt sends the block from its start. The result is the
  last return code and what the device got in each attempt; \<open>old\<close> is the variable
  \<open>transferred\<close>, without a value at first.\<close>

fun bulk_send ::
  "nat \<Rightarrow> (nat \<Rightarrow> transfer_result) \<Rightarrow> nat \<Rightarrow> int option \<Rightarrow> bytes \<Rightarrow> (int \<times> bytes list) res" where
  "bulk_send 0 results n old dat = Inl OutOfFuel"
| "bulk_send (Suc attempts) results n old dat =
     (case results n of (rc, tr) \<Rightarrow>
       (case (case tr of None \<Rightarrow> old | Some t \<Rightarrow> Some t) of
          None \<Rightarrow> Inl Uninit
        | Some t \<Rightarrow>
            (let chunk = (case tr of None \<Rightarrow> [] | Some t \<Rightarrow> take (nat t) dat) in
             if (stalled rc \<or> t \<noteq> int (length dat)) \<and> attempts > 0 then
               and_then (bulk_send attempts results (n + 1) (Some t) dat) (\<lambda>(rc', chunks).
                 Inr (rc', chunk # chunks))
             else Inr (rc, [chunk]))))"

text \<open>\<open>send_data\<close>: what the device gets.\<close>

definition libusb_send_data ::
  "u8 \<Rightarrow> u8 \<Rightarrow> bytes \<Rightarrow> (nat \<Rightarrow> transfer_result) \<Rightarrow> libusb \<Rightarrow> bytes list res" where
  "libusb_send_data endpoint attributes dat results lu =
     (if \<not> endpoint_interface_claimed endpoint lu then Inr []
      else if attributes AND 3 = 2 then
        and_then (bulk_send MAX_ATTEMPTS results 0 None dat) (\<lambda>(rc, chunks). Inr chunks)
      else if attributes AND 3 = 3 then
        (case results 0 of (rc, tr) \<Rightarrow>
          (case tr of None \<Rightarrow> Inl Uninit | Some t \<Rightarrow> Inr [take (nat t) dat]))
      else Inr [])"

text \<open>The bulk loop of \<open>receive_data\<close>, over the bytes that the attempts store in the buffer.\<close>

fun bulk_receive :: "nat \<Rightarrow> (nat \<Rightarrow> int \<times> bytes) \<Rightarrow> nat \<Rightarrow> (int \<times> bytes) res" where
  "bulk_receive 0 results n = Inl OutOfFuel"
| "bulk_receive (Suc attempts) results n =
     (case results n of (rc, bs) \<Rightarrow>
        if stalled rc \<and> attempts > 0 then bulk_receive attempts results (n + 1)
        else Inr (rc, bs))"

text \<open>\<open>receive_data\<close> (libusb stores at most the \<open>maxPacketSize\<close> bytes that it is asked for) with the
  caller's variables \<open>dataptr\<close> and \<open>length\<close>.\<close>

definition libusb_receive_data ::
  "u8 \<Rightarrow> u8 \<Rightarrow> u16 \<Rightarrow> (nat \<Rightarrow> int \<times> bytes) \<Rightarrow> bytes option \<times> int \<Rightarrow> libusb \<Rightarrow>
   (bytes option \<times> int) res" where
  "libusb_receive_data endpoint attributes maxPacketSize results old lu =
     (if \<not> endpoint_interface_claimed endpoint lu then Inr old
      else if attributes AND 3 = 2 \<or> attributes AND 3 = 3 then
        and_then
          (if attributes AND 3 = 2 then bulk_receive MAX_ATTEMPTS results 0 else Inr (results 0))
          (\<lambda>(rc, bs).
             if rc \<noteq> LIBUSB_SUCCESS then Inr (None, 0)
             else Inr (Some (take (unat maxPacketSize) bs),
                       int (length (take (unat maxPacketSize) bs))))
      else Inr old)"

section \<open>Lemmas\<close>

lemma find_device_Some_iff:
  "find_device v p h ds = Some d \<longleftrightarrow>
   (\<exists>i<length ds. ds ! i = (LIBUSB_SUCCESS, d) \<and> wanted v p h d \<and>
      (\<forall>j<i. fst (ds ! j) \<noteq> LIBUSB_SUCCESS \<or> \<not> wanted v p h (snd (ds ! j))))"
proof (induction ds)
  case Nil
  then show ?case by simp
next
  case (Cons x ds)
  obtain rc e where x: "x = (rc, e)" by (cases x)
  show ?case
  proof (cases "rc = LIBUSB_SUCCESS \<and> wanted v p h e")
    case True
    then show ?thesis
      by (auto simp: x nth_Cons' intro!: exI [of _ 0] dest: spec [where x = 0])
  next
    case False
    then show ?thesis
      by (auto simp: x Cons.IH Ex_less_Suc2 All_less_Suc2)
  qed
qed

definition ep_table :: "(u8 \<times> u8) list \<Rightarrow> nat \<rightharpoonup> u8" where
  "ep_table eps = map_of (rev (map (\<lambda>(e, i). (ep_index e, i)) eps))"

lemma ep_index_less [simp]: "ep_index e < 16"
proof -
  have "e AND 0x0f \<le> 0x0f" by (rule word_and_le1)
  then show ?thesis by (simp add: ep_index_def word_le_nat_alt)
qed

text \<open>The table against its abstract view: which interface each of the 16 endpoint numbers belongs to,
  and which interfaces have been claimed.\<close>

definition table_rel :: "(nat \<rightharpoonup> u8) \<Rightarrow> u8 set \<Rightarrow> libusb \<Rightarrow> bool" where
  "table_rel own claimed lu \<longleftrightarrow> length (lu_eps lu) = 16 \<and>
     (\<forall>k<16. ei_defined (lu_eps lu ! k) = (own k \<noteq> None) \<and>
        (\<forall>i. own k = Some i \<longrightarrow> ei_interface (lu_eps lu ! k) = i \<and>
               ei_claimed (lu_eps lu ! k) = (i \<in> claimed)))"

lemma table_rel_claimed:
  assumes "table_rel own claimed lu"
  shows "endpoint_interface_claimed e lu \<longleftrightarrow> (\<exists>i\<in>claimed. own (ep_index e) = Some i)"
  using assms ep_index_less [of e]
  by (cases "own (ep_index e)") (auto simp: table_rel_def endpoint_interface_claimed_def Let_def)

lemma table_rel_set:
  assumes "table_rel own {} lu"
    and "\<forall>k<16. \<not> ei_claimed (lu_eps lu ! k)"
  shows "table_rel (own(ep_index e \<mapsto> i)) {} (set_endpoint_interface e i lu)"
    and "\<forall>k<16. \<not> ei_claimed (lu_eps (set_endpoint_interface e i lu) ! k)"
  using assms by (auto simp: table_rel_def set_endpoint_interface_def nth_list_update)

lemma table_rel_sets:
  assumes "table_rel own {} lu"
    and "\<forall>k<16. \<not> ei_claimed (lu_eps lu ! k)"
  shows "table_rel (own ++ ep_table eps) {} (fold (\<lambda>(e, i). set_endpoint_interface e i) eps lu)"
  using assms
proof (induction eps arbitrary: own lu)
  case Nil
  then show ?case by (simp add: ep_table_def)
next
  case (Cons x eps)
  obtain e i where x: "x = (e, i)" by (cases x)
  have "own ++ ep_table (x # eps) = own(ep_index e \<mapsto> i) ++ ep_table eps"
    by (simp add: ep_table_def x)
  then show ?case
    using Cons.IH [OF table_rel_set [OF Cons.prems, of e i]] by (simp add: x fun_upd_def)
qed

lemma table_rel_claim:
  assumes "table_rel own claimed lu" "libusb_is_connected lu"
  shows "table_rel own (if rc = LIBUSB_SUCCESS then insert i claimed else claimed)
           (claim_interface rc i lu)"
  using assms by (auto simp: table_rel_def claim_interface_def mark_claimed_def)

lemma claim_keeps_connected [simp]:
  "libusb_is_connected (claim_interface rc i lu) = libusb_is_connected lu"
  by (simp add: claim_interface_def mark_claimed_def libusb_is_connected_def)

lemma set_keeps_connected [simp]:
  "libusb_is_connected (fold (\<lambda>(e, i). set_endpoint_interface e i) eps lu) = libusb_is_connected lu"
  by (induction eps arbitrary: lu)
     (auto simp: set_endpoint_interface_def libusb_is_connected_def)

lemma table_rel_claims:
  assumes "table_rel own claimed lu" "libusb_is_connected lu"
  shows "table_rel own (claimed \<union> {i. (LIBUSB_SUCCESS, i) \<in> set claims})
           (fold (\<lambda>(rc, i). claim_interface rc i) claims lu)"
  using assms
proof (induction claims arbitrary: claimed lu)
  case Nil
  then show ?case by simp
next
  case (Cons x claims)
  obtain rc i where x: "x = (rc, i)" by (cases x)
  have "claimed \<union> {i. (LIBUSB_SUCCESS, i) \<in> set (x # claims)} =
      (if rc = LIBUSB_SUCCESS then insert i claimed else claimed) \<union>
      {i. (LIBUSB_SUCCESS, i) \<in> set claims}"
    by (auto simp: x)
  then show ?case
    using Cons.IH [OF table_rel_claim [OF Cons.prems, of rc i]] Cons.prems(2) by (simp add: x)
qed

lemma fold_no_claim:
  "\<forall>k<length (lu_eps lu). \<not> ei_defined (lu_eps lu ! k) \<Longrightarrow>
   lu_eps (fold (\<lambda>(rc, i). claim_interface rc i) claims lu) = lu_eps lu"
proof (induction claims arbitrary: lu)
  case Nil
  then show ?case by simp
next
  case (Cons x claims)
  obtain rc i where x: "x = (rc, i)" by (cases x)
  have "lu_eps (claim_interface rc i lu) = lu_eps lu"
    using Cons.prems by (auto simp: claim_interface_def mark_claimed_def intro: nth_equalityI)
  then show ?case using Cons.IH [of "claim_interface rc i lu"] Cons.prems by (simp add: x)
qed

section \<open>Properties\<close>

text \<open>Connecting to a vendor and product succeeds exactly when the devices can be listed, some
  device whose descriptor can be read is wanted, and the first such device opens, detaches from the
  kernel, answers string 0 and can be watched; the proxy is then connected to that device.\<close>

theorem connect_takes_first_wanted:
  assumes "lu_handle lu = None"
  shows "fst (libusb_connect v p h env lu) = 0 \<and>
         lu_handle (snd (libusb_connect v p h env lu)) = Some d \<longleftrightarrow>
     (\<exists>ds i. le_devices env = Inr ds \<and> i < length ds \<and>
        ds ! i = (LIBUSB_SUCCESS, d) \<and> wanted v p h d \<and>
        (\<forall>j<i. fst (ds ! j) \<noteq> LIBUSB_SUCCESS \<or> \<not> wanted v p h (snd (ds ! j)))) \<and>
     le_open env = 0 \<and> le_detach env = 0 \<and> le_string env \<ge> 0 \<and>
     (lu_callback lu \<or> le_register env = 0)"
proof (cases "le_devices env")
  case (Inl e)
  then show ?thesis using assms by (simp add: libusb_connect_def Let_def)
next
  case (Inr ds)
  have "fst (libusb_connect v p h env lu) = 0 \<and>
        lu_handle (snd (libusb_connect v p h env lu)) = Some d \<longleftrightarrow>
      find_device v p h ds = Some d \<and>
      le_open env = 0 \<and> le_detach env = 0 \<and> le_string env \<ge> 0 \<and>
      (lu_callback lu \<or> le_register env = 0)"
    using assms Inr
    by (auto simp: libusb_connect_def check_device_def Let_def LIBUSB_SUCCESS_def
        split: option.splits if_splits)
  then show ?thesis by (auto simp: Inr find_device_Some_iff)
qed

definition mouse_dd :: device_descriptor where
  "mouse_dd = \<lparr>dd_bLength = 18, dd_bDescriptorType = 1, dd_bcdUSB = 0x200, dd_bDeviceClass = 0,
     dd_bDeviceSubClass = 0, dd_bDeviceProtocol = 0, dd_bMaxPacketSize0 = 8, dd_idVendor = 0x46d,
     dd_idProduct = 0xc05a, dd_bcdDevice = 0x100, dd_iManufacturer = 1, dd_iProduct = 2,
     dd_iSerialNumber = 0, dd_bNumConfigurations = 1\<rparr>"

theorem connect_takes_first_wanted_witness:
  "lu_handle (snd (libusb_connect 0x46d (-1) False
       \<lparr>le_devices = Inr [(0, mouse_dd\<lparr>dd_bDeviceClass := 9\<rparr>), (-4, mouse_dd), (0, mouse_dd)],
        le_open = 0, le_detach = 0, le_string = 4, le_register = 0\<rparr>
       (new_libusb 0x46d (-1) False))) = Some mouse_dd"
proof -
  have "\<forall>j<2. fst ([(0, mouse_dd\<lparr>dd_bDeviceClass := 9\<rparr>), (-4, mouse_dd), (0, mouse_dd)] ! j) \<noteq> LIBUSB_SUCCESS \<or>
      \<not> wanted 0x46d (-1) False
        (snd ([(0, mouse_dd\<lparr>dd_bDeviceClass := 9\<rparr>), (-4, mouse_dd), (0, mouse_dd)] ! j))"
    by (simp add: All_less_Suc2 numeral_2_eq_2 wanted_def LIBUSB_SUCCESS_def)
  moreover have "wanted 0x46d (-1) False mouse_dd"
    by (simp add: wanted_def mouse_dd_def MATCH_ANY_def)
  ultimately show ?thesis
    by (intro conjunct2 [OF iffD2 [OF connect_takes_first_wanted]])
       (auto simp: new_libusb_def LIBUSB_SUCCESS_def intro!: exI [of _ 2])
qed

text \<open>A connection that fails after the device was opened leaves \<open>dev_handle\<close> set: the proxy says
  that it is connected, and every later \<open>connect\<close>, whatever it looks for, answers 0 and changes
  nothing. When it was the hotplug callback that could not be registered, the context has been
  released as well, and \<open>disconnect\<close> uses it again.\<close>

theorem failed_connect_sticks:
  assumes "lu_handle lu = None" "le_devices env = Inr ds" "find_device v p h ds = Some d"
    and "le_open env = 0"
    and "fst (libusb_connect v p h env lu) \<noteq> 0"
  shows "libusb_is_connected (snd (libusb_connect v p h env lu)) \<and>
         libusb_connect v' p' h' env' (snd (libusb_connect v p h env lu)) =
           (0, snd (libusb_connect v p h env lu)) \<and>
         (le_detach env = 0 \<and> le_string env \<ge> 0 \<longrightarrow>
            libusb_disconnect (snd (libusb_connect v p h env lu)) = Inl UseAfterFree)"
proof -
  define r where "r = libusb_connect v p h env lu"
  have r: "r = check_device env (lu\<lparr>lu_privateContext := True, lu_privateDevice := True,
                     lu_context := LiveContext, lu_handle := Some d\<rparr>)"
    using assms by (simp add: r_def libusb_connect_def Let_def LIBUSB_SUCCESS_def)
  then have h: "lu_handle (snd r) = Some d"
    by (auto simp: check_device_def)
  moreover have "libusb_disconnect (snd r) = Inl UseAfterFree"
    if "le_detach env = 0" "le_string env \<ge> 0"
    using that assms(5) r unfolding r_def [symmetric]
    by (auto simp: check_device_def LIBUSB_SUCCESS_def libusb_disconnect_def use_context_def
        split: if_splits)
  ultimately show ?thesis
    unfolding r_def [symmetric] by (simp add: libusb_is_connected_def libusb_connect_def)
qed

theorem failed_connect_sticks_witness:
  "libusb_disconnect (snd (libusb_connect (-1) (-1) False
       \<lparr>le_devices = Inr [(0, mouse_dd)], le_open = 0, le_detach = 0, le_string = 4, le_register = -12\<rparr>
       (new_libusb (-1) (-1) False))) = Inl UseAfterFree"
  using failed_connect_sticks [of "new_libusb (-1) (-1) False"
      "\<lparr>le_devices = Inr [(0, mouse_dd)], le_open = 0, le_detach = 0, le_string = 4, le_register = -12\<rparr>"
      "[(0, mouse_dd)]" "-1" "-1" False mouse_dd]
  by (simp add: new_libusb_def wanted_def mouse_dd_def libusb_consts libusb_connect_def
      check_device_def Let_def)



lemma bulk_send_attempts:
  assumes "\<forall>i. snd (results i) \<noteq> None" "a > 0"
    and "bulk_send a results n old dat = r"
  shows "\<exists>k. 0 < k \<and> k \<le> a \<and>
     r = Inr (fst (results (n + k - 1)),
              map (\<lambda>i. take (nat (the (snd (results (n + i))))) dat) [0..<k]) \<and>
     (\<forall>i<k - 1. stalled (fst (results (n + i))) \<or> the (snd (results (n + i))) \<noteq> int (length dat)) \<and>
     (k < a \<longrightarrow> \<not> stalled (fst (results (n + k - 1))) \<and>
        the (snd (results (n + k - 1))) = int (length dat))"
  using assms(2,3)
proof (induction a arbitrary: n old r)
  case 0
  then show ?case by simp
next
  case (Suc a)
  obtain rc t where res: "results n = (rc, Some t)"
    using assms(1) by (metis option.exhaust prod.collapse)
  show ?case
  proof (cases "(stalled rc \<or> t \<noteq> int (length dat)) \<and> a > 0")
    case False
    then show ?thesis using Suc.prems
      by (intro exI [of _ 1]) (auto simp: res)
  next
    case True
    then obtain k where k: "0 < k" "k \<le> a"
      "bulk_send a results (n + 1) (Some t) dat =
        Inr (fst (results (n + 1 + k - 1)),
              map (\<lambda>i. take (nat (the (snd (results (n + 1 + i))))) dat) [0..<k])"
      "\<forall>i<k - 1. stalled (fst (results (n + 1 + i))) \<or> the (snd (results (n + 1 + i))) \<noteq> int (length dat)"
      "k < a \<longrightarrow> \<not> stalled (fst (results (n + 1 + k - 1))) \<and>
        the (snd (results (n + 1 + k - 1))) = int (length dat)"
      using Suc.IH [of "n + 1" "Some t"] by blast
    have "[0..<Suc k] = 0 # map Suc [0..<k]" by (simp add: map_Suc_upt upt_conv_Cons)
    moreover have "\<forall>i<k. stalled (fst (results (n + i))) \<or> the (snd (results (n + i))) \<noteq> int (length dat)"
    proof (intro allI impI)
      fix i assume "i < k"
      then show "stalled (fst (results (n + i))) \<or> the (snd (results (n + i))) \<noteq> int (length dat)"
        using True k(4) by (cases i) (auto simp: res)
    qed
    ultimately show ?thesis using Suc.prems True k
      by (intro exI [of _ "Suc k"]) (auto simp: res comp_def)
  qed
qed

text \<open>C36: a block sent to a claimed bulk endpoint is sent in at most five attempts, and every attempt
  sends it from its first byte again: the loop ends with the first attempt that sends all of it
  without a stall or a timeout. An attempt that had sent a part of the block is not continued, so the
  device gets that part twice.\<close>

theorem bulk_send_resends:
  assumes "endpoint_interface_claimed e lu" "attributes AND 3 = 2"
    and "\<forall>i. snd (results i) \<noteq> None"
  shows "\<exists>k. 0 < k \<and> k \<le> 5 \<and>
     libusb_send_data e attributes dat results lu =
       Inr (map (\<lambda>i. take (nat (the (snd (results i)))) dat) [0..<k]) \<and>
     (\<forall>i<k - 1. stalled (fst (results i)) \<or> the (snd (results i)) \<noteq> int (length dat)) \<and>
     (k < 5 \<longrightarrow> \<not> stalled (fst (results (k - 1))) \<and>
        the (snd (results (k - 1))) = int (length dat))"
proof -
  from bulk_send_attempts [OF assms(3) _ refl, of 5 0 None dat]
  obtain k where "0 < k" "k \<le> 5"
    "bulk_send 5 results 0 None dat = Inr (fst (results (k - 1)),
              map (\<lambda>i. take (nat (the (snd (results i)))) dat) [0..<k])"
    "\<forall>i<k - 1. stalled (fst (results i)) \<or> the (snd (results i)) \<noteq> int (length dat)"
    "k < 5 \<longrightarrow> \<not> stalled (fst (results (k - 1))) \<and> the (snd (results (k - 1))) = int (length dat)"
    by auto
  then show ?thesis
    using assms(1,2) by (intro exI [of _ k]) (simp add: libusb_send_data_def MAX_ATTEMPTS_def)
qed

theorem bulk_send_resends_witness:
  "libusb_send_data 2 2 [1, 2, 3] (\<lambda>i. if i = 0 then (LIBUSB_ERROR_TIMEOUT, Some 2) else (0, Some 3))
     ((new_libusb (-1) (-1) False)\<lparr>lu_handle := Some mouse_dd,
        lu_eps := replicate 16 \<lparr>ei_interface = 0, ei_defined = True, ei_claimed = True\<rparr>\<rparr>) =
   Inr [[1, 2], [1, 2, 3]]"
proof -
  define res where "res = (\<lambda>i::nat. if i = 0 then (LIBUSB_ERROR_TIMEOUT, Some (2::int)) else (0, Some 3))"
  define lu where "lu = (new_libusb (-1) (-1) False)\<lparr>lu_handle := Some mouse_dd,
        lu_eps := replicate 16 \<lparr>ei_interface = 0, ei_defined = True, ei_claimed = True\<rparr>\<rparr>"
  have "endpoint_interface_claimed 2 lu"
    by (simp add: lu_def endpoint_interface_claimed_def Let_def)
  moreover have "\<forall>i. snd (res i) \<noteq> None" by (simp add: res_def)
  ultimately have "\<exists>k. 0 < k \<and> k \<le> 5 \<and>
      libusb_send_data 2 2 [1, 2, 3] res lu =
        Inr (map (\<lambda>i. take (nat (the (snd (res i)))) [1, 2, 3]) [0..<k]) \<and>
      (\<forall>i<k - 1. stalled (fst (res i)) \<or> the (snd (res i)) \<noteq> int (length [1, 2, 3 :: u8])) \<and>
      (k < 5 \<longrightarrow> \<not> stalled (fst (res (k - 1))) \<and>
         the (snd (res (k - 1))) = int (length [1, 2, 3 :: u8]))"
    by (intro bulk_send_resends) simp_all
  then obtain k where k: "0 < k" "k \<le> 5"
    "libusb_send_data 2 2 [1, 2, 3] res lu =
       Inr (map (\<lambda>i. take (nat (the (snd (res i)))) [1, 2, 3]) [0..<k])"
    "\<forall>i<k - 1. stalled (fst (res i)) \<or> the (snd (res i)) \<noteq> 3"
    "k < 5 \<longrightarrow> \<not> stalled (fst (res (k - 1))) \<and> the (snd (res (k - 1))) = 3"
    by auto
  have "k = 2"
  proof (rule ccontr)
    assume "k \<noteq> 2"
    then have "k = 1 \<or> 1 < k - 1" using k(1) by linarith
    then show False
      using k(4,5) by (auto simp: res_def stalled_def libusb_consts)
  qed
  then show ?thesis
    using k(3) by (simp add: res_def lu_def upt_rec numeral_2_eq_2)
qed

end
