(* ===== verification/Config_Parser.thy ===== *)
theory Config_Parser
  imports Prelude "HOL-Library.Sublist"
begin

text \<open>
  The settings (\<open>src/lib/ConfigParser.cpp\<close>): three maps from strings, to strings, to vectors of
  strings and to pointers, and the parser of configuration files. Both of the maps with single
  values are keyed stores, so a later setting of a key hides the earlier ones.
\<close>

section \<open>Stripping blanks\<close>

text \<open>\<open>StrStrip\<close>: the first loop finds the first character that is not a space or tab, the second
  looks from the end for one that is no newline either, and stops before it has looked at
  index 0. When it finds none, \<open>end\<close> keeps its initial value, the length. (\<open>in_str[0]\<close> of an
  empty string is the terminating zero.)\<close>

definition strip_start :: "string \<Rightarrow> nat" where
  "strip_start s =
     (case find (\<lambda>x. s ! x \<notin> {CHR '' '', CHR 0x09}) [0..<length s] of None \<Rightarrow> 0 | Some x \<Rightarrow> x)"

definition strip_end :: "string \<Rightarrow> nat" where
  "strip_end s =
     (case find (\<lambda>x. s ! x \<notin> {CHR '' '', CHR 0x09, CHR 0x0A}) (rev [1..<length s]) of
        None \<Rightarrow> length s | Some x \<Rightarrow> x)"

definition str_strip :: "string \<Rightarrow> string" where
  "str_strip s =
     (if s \<noteq> [] \<and> s ! 0 = CHR 0x0A then []
      else take (strip_end s - strip_start s + 1) (drop (strip_start s) s))"

section \<open>The maps\<close>

record 'p config_parser =
  cp_strings :: "string \<Rightarrow> string option"
  cp_vectors :: "string \<Rightarrow> string list option"
  cp_pointers :: "string \<Rightarrow> 'p option"

definition new_config_parser :: "'p config_parser" where
  "new_config_parser = \<lparr>cp_strings = Map.empty, cp_vectors = Map.empty, cp_pointers = Map.empty\<rparr>"

definition cp_set :: "string \<Rightarrow> string \<Rightarrow> 'p config_parser \<Rightarrow> 'p config_parser" where
  "cp_set key val c = c\<lparr>cp_strings := (cp_strings c)(key \<mapsto> val)\<rparr>"

definition cp_get :: "string \<Rightarrow> 'p config_parser \<Rightarrow> string" where
  "cp_get key c = (case cp_strings c key of None \<Rightarrow> [] | Some v \<Rightarrow> v)"

definition add_to_vector :: "string \<Rightarrow> string \<Rightarrow> 'p config_parser \<Rightarrow> 'p config_parser" where
  "add_to_vector key val c =
     (case cp_vectors c key of
        None \<Rightarrow> c\<lparr>cp_vectors := (cp_vectors c)(key \<mapsto> [val])\<rparr>
      | Some vec \<Rightarrow> c\<lparr>cp_vectors := (cp_vectors c)(key \<mapsto> vec @ [val])\<rparr>)"

definition get_vector :: "string \<Rightarrow> 'p config_parser \<Rightarrow> string list" where
  "get_vector key c = (case cp_vectors c key of None \<Rightarrow> [] | Some vec \<Rightarrow> vec)"

definition add_pointer :: "string \<Rightarrow> 'p \<Rightarrow> 'p config_parser \<Rightarrow> 'p config_parser" where
  "add_pointer key p c = c\<lparr>cp_pointers := (cp_pointers c)(key \<mapsto> p)\<rparr>"

text \<open>NULL when the key is not there.\<close>

definition get_pointer :: "string \<Rightarrow> 'p config_parser \<Rightarrow> 'p option" where
  "get_pointer key c = cp_pointers c key"

section \<open>Configuration files\<close>

text \<open>A line of the file: a blank line, a comment and a line without \<open>=\<close> set nothing; otherwise
  the line is split at its first \<open>=\<close>.\<close>

definition parse_line :: "string \<Rightarrow> (string \<times> string) option" where
  "parse_line confline =
     (let parsestr = str_strip confline in
      if parsestr = [] then None
      else if parsestr ! 0 = CHR ''#'' then None
      else if CHR ''='' \<notin> set parsestr then None
      else Some (str_strip (takeWhile (\<lambda>c. c \<noteq> CHR ''='') parsestr),
                 str_strip (drop 1 (dropWhile (\<lambda>c. c \<noteq> CHR ''='') parsestr))))"

text \<open>\<open>parse_file\<close>: the lines of the file, or a file that cannot be opened.\<close>

fun parse_lines :: "string list \<Rightarrow> 'p config_parser \<Rightarrow> 'p config_parser" where
  "parse_lines [] c = c"
| "parse_lines (l # ls) c =
     (case parse_line l of None \<Rightarrow> parse_lines ls c
      | Some (key, val) \<Rightarrow> parse_lines ls (cp_set key val c))"

definition parse_file :: "string list option \<Rightarrow> 'p config_parser \<Rightarrow> 'p config_parser" where
  "parse_file file c = (case file of None \<Rightarrow> c | Some ls \<Rightarrow> parse_lines ls c)"

section \<open>The keyed stores\<close>

interpretation setting: keyed_store "\<lambda>c. cp_strings c" cp_set
  by unfold_locales (simp add: cp_set_def)

interpretation pointer: keyed_store "\<lambda>c. cp_pointers c" add_pointer
  by unfold_locales (simp add: add_pointer_def)

lemma parse_lines_fold:
  "parse_lines ls c = fold (\<lambda>(key, val). cp_set key val) (List.map_filter parse_line ls) c"
  by (induction ls arbitrary: c) (simp_all add: List.map_filter_def split: option.split)

text \<open>After a configuration file has been read, \<open>get\<close> returns for every key the value of the
  last line that assigns it, and what it returned before for a key that no line assigns; vectors
  and pointers are as before.\<close>

theorem last_assignment_wins:
  "cp_get key (parse_file (Some ls) c) =
     (case map_of (rev (List.map_filter parse_line ls)) key of
        Some v \<Rightarrow> v | None \<Rightarrow> cp_get key c) \<and>
   get_vector key' (parse_file (Some ls) c) = get_vector key' c \<and>
   get_pointer key' (parse_file (Some ls) c) = get_pointer key' c"
proof -
  have "cp_vectors (parse_lines ls c) = cp_vectors c \<and> cp_pointers (parse_lines ls c) = cp_pointers c"
    by (induction ls arbitrary: c) (simp_all add: cp_set_def split: option.split)
  then show ?thesis
    using setting.last_put [of "List.map_filter parse_line ls" c key]
    by (simp add: parse_file_def cp_get_def parse_lines_fold get_vector_def get_pointer_def
        split: option.split)
qed

section \<open>What is stripped\<close>

definition blank :: "char \<Rightarrow> bool" where
  "blank ch \<longleftrightarrow> ch \<in> {CHR '' '', CHR 0x09}"

definition blank_or_newline :: "char \<Rightarrow> bool" where
  "blank_or_newline ch \<longleftrightarrow> blank ch \<or> ch = CHR 0x0A"

lemma strip_start_eq:
  assumes "\<forall>ch \<in> set l. blank ch" "b \<noteq> []" "\<not> blank (hd b)"
  shows "strip_start (l @ b) = length l"
proof -
  have "(l @ b) ! length l = hd b" using assms(2) by (cases b) simp_all
  with assms have "find (\<lambda>x. (l @ b) ! x \<notin> {CHR '' '', CHR 0x09}) [0..<length (l @ b)] = Some (length l)"
    by (intro find_Some_iff [THEN iffD2] exI [of _ "length l"]) (auto simp: blank_def nth_append)
  then show ?thesis by (simp add: strip_start_def)
qed

lemma strip_end_eq:
  assumes "\<forall>ch \<in> set r. blank_or_newline ch" "2 \<le> length a" "\<not> blank_or_newline (last a)"
  shows "strip_end (a @ r) = length a - 1"
proof -
  let ?n = "length (a @ r)" and ?P = "\<lambda>x. (a @ r) ! x \<notin> {CHR '' '', CHR 0x09, CHR 0x0A}"
  have at: "rev [1..<?n] ! i = ?n - 1 - i" if "i < ?n - 1" for i
    using that by (simp add: rev_nth)
  have ne: "a \<noteq> []" using assms(2) by auto
  have nb: "?P x \<longleftrightarrow> \<not> blank_or_newline ((a @ r) ! x)" for x
    by (simp add: blank_or_newline_def blank_def)
  have lr: "rev [1..<?n] ! length r = length a - 1" using assms(2) at [of "length r"] by simp
  have "find ?P (rev [1..<?n]) = Some (length a - 1)"
  proof (intro find_Some_iff [THEN iffD2] exI [of _ "length r"] conjI allI impI)
    show "length r < length (rev [1..<?n])" using assms(2) by simp
    show "?P (rev [1..<?n] ! length r)"
      using ne assms(3) unfolding nb lr by (simp add: nth_append last_conv_nth)
    show "length a - 1 = rev [1..<?n] ! length r" by (simp only: lr)
    fix j assume j: "j < length r"
    then have "rev [1..<?n] ! j = ?n - 1 - j" using assms(2) by (intro at) simp
    moreover have "(a @ r) ! (?n - 1 - j) \<in> set r"
      using j by (auto simp: nth_append intro!: nth_mem)
    ultimately show "\<not> ?P (rev [1..<?n] ! j)" using assms(1) unfolding nb by simp
  qed
  then show ?thesis by (simp add: strip_end_def)
qed

text \<open>\<open>StrStrip\<close> removes exactly the blanks around a text, provided the text does not end at
  index 0; a text of one character at index 0 keeps the blanks after it, so a file's line
  \<open>k = v\<close> sets the key \<open>"k "\<close>.\<close>

theorem strip_exact:
  assumes "\<forall>ch \<in> set l. blank ch" "\<forall>ch \<in> set r. blank_or_newline ch"
    and "b \<noteq> []" "\<not> blank_or_newline (hd b)" "\<not> blank_or_newline (last b)"
  shows "str_strip (l @ b @ r) = (if length (l @ b) = 1 then b @ r else b)"
proof -
  have start: "strip_start (l @ b @ r) = length l"
    using strip_start_eq [of l "b @ r"] assms by (simp add: blank_or_newline_def)
  have "(l @ b @ r) ! 0 \<noteq> CHR 0x0A"
    using assms by (cases l) (auto simp: blank_or_newline_def blank_def hd_conv_nth nth_append)
  then have s: "str_strip (l @ b @ r) = take (strip_end (l @ b @ r) - length l + 1) (b @ r)"
    by (simp add: str_strip_def start)
  show ?thesis
  proof (cases "length (l @ b) = 1")
    case True
    with assms(3) obtain x where "l = []" "b = [x]" by (cases b; cases l) auto
    moreover have "find (\<lambda>i. (x # r) ! i \<notin> {CHR '' '', CHR 0x09, CHR 0x0A}) (rev [1..<length (x # r)]) = None"
      using assms(2) by (auto simp: find_None_iff blank_or_newline_def blank_def simp del: upt_Suc)
    ultimately show ?thesis using s by (simp add: strip_end_def del: upt_Suc)
  next
    case False
    with assms(3) have "2 \<le> length (l @ b)"
      by (cases "length (l @ b)" rule: nat.exhaust) (auto simp: Suc_le_eq)
    with strip_end_eq [of r "l @ b"] assms have "strip_end (l @ b @ r) = length l + length b - 1"
      by simp
    with s False assms(3) show ?thesis by (cases b) auto
  qed
qed

theorem strip_exact_witness:
  "str_strip ('' '' @ ''ab c'' @ '' '') = (if length ('' '' @ ''ab c'') = 1 then ''ab c'' @ '' '' else ''ab c'')"
  by (rule strip_exact) (simp_all add: blank_or_newline_def blank_def)

end
