(* ===== verification/Plugin_Manager.thy ===== *)
theory Plugin_Manager
  imports Pointer_Arrays Config_Parser
begin

text \<open>
  Loading the plugins that the settings name (\<open>src/lib/PluginManager.cpp\<close>, and \<open>load_plugins\<close> of
  \<open>src/lib/Manager.cpp\<close>). What the dynamic linker finds is a parameter: for every plugin name the
  library and its symbols. An object that a plugin creates is named by the plugin.
\<close>

section \<open>State\<close>

definition PLUGIN_FILTER :: int where "PLUGIN_FILTER = 8"
definition PLUGIN_INJECTOR :: int where "PLUGIN_INJECTOR = 16"

text \<open>The symbols of a library: the three getters, \<open>plugin_type\<close>, and whether the object that
  \<open>get_plugin\<close> creates is an injector (the result of the \<open>dynamic_cast\<close>).\<close>

record plugin_lib =
  lib_get_deviceproxy :: bool
  lib_get_hostproxy :: bool
  lib_plugin_type :: "int option"
  lib_get_plugin :: bool
  lib_is_injector :: bool

text \<open>A pointer of \<open>handleList\<close>: the handle of a library, or the address of a function in it.\<close>

datatype dl_pointer = Handle string | FunctionIn string

text \<open>\<open>pm_open\<close> are the libraries that are open. The constructor gives no value to the two proxies.\<close>

record plugin_manager =
  pm_handleList :: "dl_pointer list"
  pm_device_proxy :: "string option"
  pm_host_proxy :: "string option"
  pm_filters :: "string list"
  pm_injectors :: "string option list"
  pm_open :: "string list"

definition new_plugin_manager :: plugin_manager where
  "new_plugin_manager =
     \<lparr>pm_handleList = [], pm_device_proxy = None, pm_host_proxy = None, pm_filters = [],
      pm_injectors = [], pm_open = []\<rparr>"

section \<open>Operations\<close>

type_synonym libs = "string \<Rightarrow> plugin_lib option"

definition open_lib :: "string \<Rightarrow> plugin_manager \<Rightarrow> plugin_manager" where
  "open_lib name pm = pm\<lparr>pm_open := pm_open pm @ [name]\<rparr>"

definition keep_function :: "string \<Rightarrow> plugin_manager \<Rightarrow> plugin_manager" where
  "keep_function name pm = pm\<lparr>pm_handleList := pm_handleList pm @ [FunctionIn name]\<rparr>"

text \<open>One round of the loop over the plugins, with its library open: a plugin without a type or without
  \<open>get_plugin\<close>, or of another type, is closed again and skipped.\<close>

definition load_plugin :: "string \<Rightarrow> plugin_lib \<Rightarrow> plugin_manager \<Rightarrow> plugin_manager" where
  "load_plugin name lib pm =
     (case lib_plugin_type lib of
        None \<Rightarrow> pm
      | Some ty \<Rightarrow>
          if ty = PLUGIN_FILTER then
            (if \<not> lib_get_plugin lib then pm
             else (keep_function name (open_lib name pm))\<lparr>pm_filters := pm_filters pm @ [name]\<rparr>)
          else if ty = PLUGIN_INJECTOR then
            (if \<not> lib_get_plugin lib then pm
             else (keep_function name (open_lib name pm))
                    \<lparr>pm_injectors := pm_injectors pm @ [Some name]\<rparr>)
          else if ty = (PLUGIN_FILTER OR PLUGIN_INJECTOR) then
            (if \<not> lib_get_plugin lib then pm
             else (keep_function name (open_lib name pm))
                    \<lparr>pm_filters := pm_filters pm @ [name],
                     pm_injectors := pm_injectors pm
                       @ [if lib_is_injector lib then Some name else None]\<rparr>)
          else pm)"

definition PLUGIN_MANAGER_SUCCESS :: int where "PLUGIN_MANAGER_SUCCESS = 0"
definition PLUGIN_MANAGER_CANNOT_FIND_FILE :: int where "PLUGIN_MANAGER_CANNOT_FIND_FILE = 2"

fun load_each :: "libs \<Rightarrow> string list \<Rightarrow> plugin_manager \<Rightarrow> int \<times> plugin_manager" where
  "load_each libs [] pm = (PLUGIN_MANAGER_SUCCESS, pm)"
| "load_each libs (name # names) pm =
     (case libs name of
        None \<Rightarrow> (PLUGIN_MANAGER_CANNOT_FIND_FILE, pm)
      | Some lib \<Rightarrow> load_each libs names (load_plugin name lib pm))"

definition load_plugins :: "libs \<Rightarrow> 'p config_parser \<Rightarrow> plugin_manager \<Rightarrow> int \<times> plugin_manager" where
  "load_plugins libs cfg pm =
     (let dname = cp_get ''DeviceProxy'' cfg; hname = cp_get ''HostProxy'' cfg in
      case libs dname of
        None \<Rightarrow> (PLUGIN_MANAGER_CANNOT_FIND_FILE, pm)
      | Some dlib \<Rightarrow>
          if \<not> lib_get_deviceproxy dlib then (PLUGIN_MANAGER_CANNOT_FIND_FILE, pm)
          else (let pm1 = (keep_function dname (open_lib dname pm))\<lparr>pm_device_proxy := Some dname\<rparr> in
            case libs hname of
              None \<Rightarrow> (PLUGIN_MANAGER_CANNOT_FIND_FILE, pm1)
            | Some hlib \<Rightarrow>
                if \<not> lib_get_hostproxy hlib then (PLUGIN_MANAGER_CANNOT_FIND_FILE, pm1)
                else load_each libs (get_vector ''Plugins'' cfg)
                  ((keep_function hname (open_lib hname pm1))\<lparr>pm_host_proxy := Some hname\<rparr>)))"

definition add_filter_plugin :: "string \<Rightarrow> plugin_manager \<Rightarrow> plugin_manager" where
  "add_filter_plugin p pm = pm\<lparr>pm_filters := pm_filters pm @ [p]\<rparr>"

definition add_injector_plugin :: "string \<Rightarrow> plugin_manager \<Rightarrow> plugin_manager" where
  "add_injector_plugin p pm = pm\<lparr>pm_injectors := pm_injectors pm @ [Some p]\<rparr>"

text \<open>\<open>destroy_plugins\<close> gives every pointer of the list to \<open>dlclose\<close>, which closes a library for its
  handle.\<close>

fun dlclose_all :: "dl_pointer list \<Rightarrow> string list \<Rightarrow> string list" where
  "dlclose_all [] opened = opened"
| "dlclose_all (Handle name # ps) opened = dlclose_all ps (remove1 name opened)"
| "dlclose_all (FunctionIn name # ps) opened = dlclose_all ps opened"

definition destroy_plugins :: "plugin_manager \<Rightarrow> plugin_manager" where
  "destroy_plugins pm = pm\<lparr>pm_open := dlclose_all (pm_handleList pm) (pm_open pm)\<rparr>"

text \<open>\<open>Manager::load_plugins\<close> does not look at the result; it copies both proxies and adds the filters
  and injectors to the manager's arrays.\<close>

fun add_filters :: "'a list \<Rightarrow> 'a ptr_array \<Rightarrow> 'a ptr_array res" where
  "add_filters [] p = Inr p"
| "add_filters (x # xs) p = and_then (add_filter x p) (add_filters xs)"

definition manager_load_plugins ::
  "libs \<Rightarrow> 'p config_parser \<Rightarrow> plugin_manager \<Rightarrow> string ptr_array \<Rightarrow> string option ptr_array \<Rightarrow>
   (string \<times> string \<times> string ptr_array \<times> string option ptr_array) res" where
  "manager_load_plugins libs cfg pm filters injectors =
     (let pm' = snd (load_plugins libs cfg pm) in
      case pm_device_proxy pm' of
        None \<Rightarrow> Inl Uninit
      | Some dp \<Rightarrow>
          (case pm_host_proxy pm' of
             None \<Rightarrow> Inl Uninit
           | Some hp \<Rightarrow>
               and_then (add_filters (pm_filters pm') filters) (\<lambda>filters.
                 and_then (add_filters (pm_injectors pm') injectors) (\<lambda>injectors.
                   Inr (dp, hp, filters, injectors)))))"

section \<open>Lemmas\<close>

definition usable :: "libs \<Rightarrow> int set \<Rightarrow> string \<Rightarrow> bool" where
  "usable libs tys name \<longleftrightarrow> (\<exists>lib ty. libs name = Some lib \<and> lib_get_plugin lib \<and>
     lib_plugin_type lib = Some ty \<and> ty \<in> tys)"

definition as_injector :: "libs \<Rightarrow> string \<Rightarrow> string option" where
  "as_injector libs name =
     (case libs name of None \<Rightarrow> None
      | Some lib \<Rightarrow> if lib_plugin_type lib = Some PLUGIN_INJECTOR \<or> lib_is_injector lib
                    then Some name else None)"

lemma plugin_type_or: "PLUGIN_FILTER OR PLUGIN_INJECTOR = 24"
  by (simp add: PLUGIN_FILTER_def PLUGIN_INJECTOR_def)

lemma load_plugin_effect:
  assumes "libs name = Some lib"
  shows "pm_filters (load_plugin name lib pm) =
      pm_filters pm @ (if usable libs {8, 24} name then [name] else [])"
    and "pm_injectors (load_plugin name lib pm) =
      pm_injectors pm @ (if usable libs {16, 24} name then [as_injector libs name] else [])"
    and "pm_device_proxy (load_plugin name lib pm) = pm_device_proxy pm"
    and "pm_host_proxy (load_plugin name lib pm) = pm_host_proxy pm"
  using assms
  by (auto simp: load_plugin_def usable_def as_injector_def plugin_type_or keep_function_def open_lib_def
      PLUGIN_FILTER_def PLUGIN_INJECTOR_def split: option.split)

lemma load_each_effect:
  assumes "\<forall>name\<in>set names. libs name \<noteq> None"
  shows "fst (load_each libs names pm) = PLUGIN_MANAGER_SUCCESS \<and>
    pm_filters (snd (load_each libs names pm)) = pm_filters pm @ filter (usable libs {8, 24}) names \<and>
    pm_injectors (snd (load_each libs names pm)) =
      pm_injectors pm @ map (as_injector libs) (filter (usable libs {16, 24}) names) \<and>
    pm_device_proxy (snd (load_each libs names pm)) = pm_device_proxy pm \<and>
    pm_host_proxy (snd (load_each libs names pm)) = pm_host_proxy pm"
  using assms
proof (induction names arbitrary: pm)
  case (Cons name names)
  then obtain lib where lib: "libs name = Some lib" by auto
  show ?case
    using Cons.IH [of "load_plugin name lib pm"] Cons.prems by (simp add: lib load_plugin_effect [where libs = libs, OF lib])
qed simp

lemma load_each_fails:
  "\<exists>name\<in>set names. libs name = None \<Longrightarrow>
   fst (load_each libs names pm) = PLUGIN_MANAGER_CANNOT_FIND_FILE"
  by (induction names arbitrary: pm) (auto split: option.split)

lemma add_filters_holds:
  "holds p ys \<Longrightarrow> length ys + length xs < 256 \<Longrightarrow> \<exists>q. add_filters xs p = Inr q \<and> holds q (ys @ xs)"
proof (induction xs arbitrary: p ys)
  case (Cons x xs)
  then show ?case
    using add_filter_holds [of p ys x] Cons.IH [of _ "ys @ [x]"] by fastforce
qed auto

lemma load_plugins_found:
  assumes "libs (cp_get ''DeviceProxy'' cfg) = Some dlib" "lib_get_deviceproxy dlib"
    and "libs (cp_get ''HostProxy'' cfg) = Some hlib" "lib_get_hostproxy hlib"
  obtains pm' where "load_plugins libs cfg pm = load_each libs (get_vector ''Plugins'' cfg) pm'"
    "pm_filters pm' = pm_filters pm" "pm_injectors pm' = pm_injectors pm"
    "pm_device_proxy pm' = Some (cp_get ''DeviceProxy'' cfg)"
    "pm_host_proxy pm' = Some (cp_get ''HostProxy'' cfg)"
  using that assms
  by (simp add: load_plugins_def Let_def keep_function_def open_lib_def)

text \<open>Nothing that loading adds to \<open>handleList\<close> is a handle.\<close>

definition functions_only :: "dl_pointer list \<Rightarrow> bool" where
  "functions_only ps \<longleftrightarrow> (\<forall>p\<in>set ps. \<exists>name. p = FunctionIn name)"

lemma load_plugin_functions [inv_intros]:
  "functions_only (pm_handleList pm) \<Longrightarrow> functions_only (pm_handleList (load_plugin name lib pm))"
  by (auto simp: load_plugin_def functions_only_def keep_function_def open_lib_def split: option.split)

lemma load_each_functions [inv_intros]:
  "functions_only (pm_handleList pm) \<Longrightarrow> functions_only (pm_handleList (snd (load_each libs names pm)))"
  by (induction names arbitrary: pm) (auto split: option.split intro: inv_intros)

lemma load_plugins_functions [inv_intros]:
  "functions_only (pm_handleList pm) \<Longrightarrow> functions_only (pm_handleList (snd (load_plugins libs cfg pm)))"
  by (auto simp: load_plugins_def Let_def split: option.split intro!: inv_intros)
     (auto simp: functions_only_def keep_function_def open_lib_def)

lemma dlclose_functions: "functions_only ps \<Longrightarrow> dlclose_all ps opened = opened"
  by (induction ps opened rule: dlclose_all.induct) (auto simp: functions_only_def)

lemma plugins_loaded:
  assumes "libs (cp_get ''DeviceProxy'' cfg) = Some dlib" "lib_get_deviceproxy dlib"
    and "libs (cp_get ''HostProxy'' cfg) = Some hlib" "lib_get_hostproxy hlib"
    and "\<forall>name\<in>set (get_vector ''Plugins'' cfg). libs name \<noteq> None"
    and "holds filters fs" "length fs + length (get_vector ''Plugins'' cfg) < 256"
    and "holds injectors ins" "length ins + length (get_vector ''Plugins'' cfg) < 256"
  shows "\<exists>filters' injectors'.
    manager_load_plugins libs cfg new_plugin_manager filters injectors =
      Inr (cp_get ''DeviceProxy'' cfg, cp_get ''HostProxy'' cfg, filters', injectors') \<and>
    holds filters' (fs @ filter (usable libs {8, 24}) (get_vector ''Plugins'' cfg)) \<and>
    holds injectors' (ins @ map (as_injector libs)
      (filter (usable libs {16, 24}) (get_vector ''Plugins'' cfg)))"
proof -
  let ?names = "get_vector ''Plugins'' cfg"
  obtain pm where pm: "load_plugins libs cfg new_plugin_manager = load_each libs ?names pm"
    "pm_filters pm = []" "pm_injectors pm = []"
    "pm_device_proxy pm = Some (cp_get ''DeviceProxy'' cfg)"
    "pm_host_proxy pm = Some (cp_get ''HostProxy'' cfg)"
    using load_plugins_found [OF assms(1-4), of new_plugin_manager] by (auto simp: new_plugin_manager_def)
  have short: "length (filter P ?names) \<le> length ?names" for P by simp
  have "length fs + length (filter (usable libs {8, 24}) ?names) < 256"
    "length ins + length (map (as_injector libs) (filter (usable libs {16, 24}) ?names)) < 256"
    using short [of "usable libs {8, 24}"] short [of "usable libs {16, 24}"] assms(7,9)
    by (simp_all only: length_map)
  note add = add_filters_holds [OF assms(6) this(1)] add_filters_holds [OF assms(8) this(2)]
  obtain filters' where f: "add_filters (filter (usable libs {8, 24}) ?names) filters = Inr filters'"
    "holds filters' (fs @ filter (usable libs {8, 24}) ?names)"
    using add(1) by blast
  obtain injectors' where i: "add_filters (map (as_injector libs) (filter (usable libs {16, 24}) ?names)) injectors
      = Inr injectors'"
    "holds injectors' (ins @ map (as_injector libs) (filter (usable libs {16, 24}) ?names))"
    using add(2) by blast
  show ?thesis
    using load_each_effect [OF assms(5), of pm] pm f i by (simp add: manager_load_plugins_def)
qed

section \<open>Properties\<close>

text \<open>When both proxies and every plugin named in the settings can be found, the manager gets the two
  proxies, and its arrays of filters and injectors are extended by the plugins of these types, each in
  the order of the settings; plugins without a type or a getter are left out.\<close>

theorem plugins_loaded_exact:
  assumes "libs (cp_get ''DeviceProxy'' cfg) = Some dlib" "lib_get_deviceproxy dlib"
    and "libs (cp_get ''HostProxy'' cfg) = Some hlib" "lib_get_hostproxy hlib"
    and "\<forall>name\<in>set (get_vector ''Plugins'' cfg). libs name \<noteq> None"
    and "holds filters fs" "length fs + length (get_vector ''Plugins'' cfg) < 256"
    and "holds injectors ins" "length ins + length (get_vector ''Plugins'' cfg) < 256"
  shows "\<exists>filters' injectors'.
    manager_load_plugins libs cfg new_plugin_manager filters injectors =
      Inr (cp_get ''DeviceProxy'' cfg, cp_get ''HostProxy'' cfg, filters', injectors') \<and>
    holds filters' (fs @ filter (usable libs {8, 24}) (get_vector ''Plugins'' cfg)) \<and>
    holds injectors' (ins @ map (as_injector libs)
      (filter (usable libs {16, 24}) (get_vector ''Plugins'' cfg)))"
  by (rule plugins_loaded [OF assms])

definition sample_libs :: libs where
  "sample_libs name =
     (if name = ''dev'' then Some \<lparr>lib_get_deviceproxy = True, lib_get_hostproxy = False,
        lib_plugin_type = None, lib_get_plugin = False, lib_is_injector = False\<rparr>
      else if name = ''host'' then Some \<lparr>lib_get_deviceproxy = False, lib_get_hostproxy = True,
        lib_plugin_type = None, lib_get_plugin = False, lib_is_injector = False\<rparr>
      else if name = ''both'' then Some \<lparr>lib_get_deviceproxy = False, lib_get_hostproxy = False,
        lib_plugin_type = Some 24, lib_get_plugin = True, lib_is_injector = True\<rparr>
      else None)"

definition sample_settings :: "unit config_parser" where
  "sample_settings = add_to_vector ''Plugins'' ''both''
     (add_to_vector ''Plugins'' ''host''
       (cp_set ''HostProxy'' ''host'' (cp_set ''DeviceProxy'' ''dev'' new_config_parser)))"

lemma sample_settings_values [simp]:
  "cp_get ''DeviceProxy'' sample_settings = ''dev''" "cp_get ''HostProxy'' sample_settings = ''host''"
  "get_vector ''Plugins'' sample_settings = [''host'', ''both'']"
  by (simp_all add: sample_settings_def cp_get_def get_vector_def add_to_vector_def cp_set_def
      new_config_parser_def)

theorem plugins_loaded_exact_witness:
  "\<exists>filters' injectors'.
    manager_load_plugins sample_libs sample_settings new_plugin_manager no_ptrs no_ptrs =
      Inr (''dev'', ''host'', filters', injectors') \<and>
    holds filters' [''both''] \<and> holds injectors' [Some ''both'']"
  using plugins_loaded_exact [where libs = sample_libs and cfg = sample_settings
      and dlib = "the (sample_libs ''dev'')" and hlib = "the (sample_libs ''host'')"
      and filters = no_ptrs and fs = "[]" and injectors = no_ptrs and ins = "[]"]
  by (simp add: sample_libs_def usable_def as_injector_def)

text \<open>When a proxy cannot be found, \<open>load_plugins\<close> says so, but the manager does not look: it copies
  a pointer that nothing has written.\<close>

theorem missing_proxy_uninit:
  assumes "libs (cp_get ''DeviceProxy'' cfg) = None \<or> libs (cp_get ''HostProxy'' cfg) = None"
  shows "fst (load_plugins libs cfg new_plugin_manager) = PLUGIN_MANAGER_CANNOT_FIND_FILE \<and>
     manager_load_plugins libs cfg new_plugin_manager filters injectors = Inl Uninit"
  using assms
  by (auto simp: load_plugins_def manager_load_plugins_def Let_def new_plugin_manager_def keep_function_def
      open_lib_def split: option.split)

theorem missing_proxy_uninit_witness:
  "manager_load_plugins (\<lambda>_. None) sample_settings new_plugin_manager no_ptrs no_ptrs = Inl Uninit"
  using missing_proxy_uninit [of "\<lambda>_. None" sample_settings no_ptrs no_ptrs] by simp

text \<open>\<open>destroy_plugins\<close> closes no library that was loaded: \<open>handleList\<close> holds addresses of functions,
  not handles.\<close>

theorem libraries_stay_open:
  "pm_open (destroy_plugins (snd (load_plugins libs cfg new_plugin_manager))) =
     pm_open (snd (load_plugins libs cfg new_plugin_manager))"
  using load_plugins_functions [of new_plugin_manager libs cfg]
  by (simp add: destroy_plugins_def dlclose_functions new_plugin_manager_def functions_only_def)

end
