(* ===== verification/GadgetFS_Descriptor.thy ===== *)
theory GadgetFS_Descriptor
  imports Device_Model
begin

text \<open>
  The descriptor block that the host proxy writes to GadgetFS
  (\<open>src/Plugins/Hosts/HostProxy_GadgetFS.cpp\<close>, \<open>generate_descriptor\<close>): a tag, every configuration
  for full speed, every configuration for high speed, and the device descriptor. When the device
  is a full-speed one its endpoints get new polling intervals for high speed, which the code stores
  into the serialised configuration with a pointer that it advances over the descriptors.
\<close>

section \<open>Definitions\<close>

definition USB_BUFSIZE :: nat where "USB_BUFSIZE = 7 * 1024"

text \<open>\<open>memcpy(ptr,...)\<close> into the block of \<open>USB_BUFSIZE\<close> bytes.\<close>

definition emit :: "bytes \<Rightarrow> bytes \<Rightarrow> bytes res" where
  "emit out b = (if length out + length b > USB_BUFSIZE then Inl OutOfBounds else Inr (out @ b))"

text \<open>The configuration that each of the two loops writes: the first loop (\<open>high = False\<close>) takes the
  qualifier's when the device itself is a high-speed one, the second when it is not.\<close>

definition config_for :: "bool \<Rightarrow> device \<Rightarrow> u8 \<Rightarrow> config option res" where
  "config_for high dv i =
     (case dv_qualifier dv of
        Some q \<Rightarrow> if dv_highspeed dv \<noteq> high then qualifier_get_configuration q i
                  else get_configuration dv i
      | None \<Rightarrow> get_configuration dv i)"

text \<open>The assignments to \<open>bDescriptorType\<close>, \<open>bmAttributes\<close> (the wake-up bit is cleared) and
  \<open>wTotalLength\<close>.\<close>

definition as_config :: "nat \<Rightarrow> bytes \<Rightarrow> bytes res" where
  "as_config len buf =
     and_then (store buf 1 USB_DT_CONFIG) (\<lambda>buf.
       and_then (index buf 7) (\<lambda>attrs.
         and_then (store buf 7 (attrs AND NOT 0x20)) (\<lambda>buf.
           and_then (store buf 2 (lo8 (of_nat len))) (\<lambda>buf.
             store buf 3 (hi8 (of_nat len))))))"

text \<open>The new interval, \<open>log10(8*bInterval)/log10(2) + 1\<close> truncated: \<open>polling\<close> gives its low byte,
  which is computed in floating point. For 0 the logarithm is minus infinity, which no \<open>int\<close> can
  hold.\<close>

definition new_interval :: "(u8 \<Rightarrow> u8) \<Rightarrow> u8 \<Rightarrow> u8 res" where
  "new_interval polling bInterval =
     (if bInterval = 0 then Inl BadConversion else Inr (polling bInterval))"

text \<open>The loop over the endpoints of an interface; the pointer is an index of the buffer.\<close>

fun set_intervals :: "(u8 \<Rightarrow> u8) \<Rightarrow> nat \<Rightarrow> nat \<Rightarrow> bytes \<Rightarrow> (nat \<times> bytes) res" where
  "set_intervals polling 0 ptr buf = Inr (ptr, buf)"
| "set_intervals polling (Suc n) ptr buf =
     and_then (index buf (ptr + 6)) (\<lambda>old.
       and_then (new_interval polling old) (\<lambda>new.
         and_then (store buf (ptr + 6) new) (\<lambda>buf.
           and_then (index buf ptr) (\<lambda>len. set_intervals polling n (ptr + unat len) buf))))"

text \<open>The loop over the interface numbers, with the active setting of each.\<close>

fun walk_interfaces :: "(u8 \<Rightarrow> u8) \<Rightarrow> config \<Rightarrow> nat list \<Rightarrow> nat \<Rightarrow> bytes \<Rightarrow> bytes res" where
  "walk_interfaces polling c [] ptr buf = Inr buf"
| "walk_interfaces polling c (k # ks) ptr buf =
     and_then (get_interface c (of_nat k)) (\<lambda>p. and_then (deref p) (\<lambda>ic.
       and_then (if has_HID ic then get_HID_descriptor_length ic else Inr 0) (\<lambda>hid.
         and_then (sum_of block_full_length (if_generics ic)) (\<lambda>gen.
           and_then (set_intervals polling (unat (if_bNumEndpoints (if_descriptor ic)))
                       (ptr + unat (if_bLength (if_descriptor ic)) + hid + gen) buf)
             (\<lambda>(ptr', buf'). walk_interfaces polling c ks ptr' buf')))))"

definition rewrite_intervals :: "(u8 \<Rightarrow> u8) \<Rightarrow> config \<Rightarrow> bytes \<Rightarrow> bytes res" where
  "rewrite_intervals polling c buf =
     and_then (index buf 0) (\<lambda>len. and_then (index buf 4) (\<lambda>n.
       walk_interfaces polling c [0..<unat n] (unat len) buf))"

definition config_block :: "bool \<Rightarrow> (u8 \<Rightarrow> u8) \<Rightarrow> device \<Rightarrow> config \<Rightarrow> bytes res" where
  "config_block high polling dv c =
     and_then (config_full_length c) (\<lambda>len.
       and_then (config_full c) (\<lambda>buf.
         and_then (as_config len buf) (\<lambda>buf.
           if high \<and> \<not> dv_highspeed dv then rewrite_intervals polling c buf else Inr buf)))"

fun emit_configs :: "bool \<Rightarrow> (u8 \<Rightarrow> u8) \<Rightarrow> device \<Rightarrow> nat list \<Rightarrow> bytes \<Rightarrow> bytes res" where
  "emit_configs high polling dv [] out = Inr out"
| "emit_configs high polling dv (i # is) out =
     and_then (config_for high dv (of_nat i)) (\<lambda>c. case c of
         None \<Rightarrow> emit_configs high polling dv is out
       | Some c \<Rightarrow> and_then (config_block high polling dv c) (\<lambda>b.
           and_then (emit out b) (emit_configs high polling dv is)))"

definition generate_descriptor :: "(u8 \<Rightarrow> u8) \<Rightarrow> device \<Rightarrow> bytes res" where
  "generate_descriptor polling dv =
     (let is = [1..<Suc (unat (dd_bNumConfigurations (dv_descriptor dv)))] in
      and_then (emit_configs False polling dv is [0, 0, 0, 0]) (\<lambda>out.
        and_then (emit_configs True polling dv is out) (\<lambda>out.
          emit out (device_struct (dv_descriptor dv)))))"

section \<open>Lemmas\<close>

lemma emit_emit: "and_then (emit out b) (\<lambda>out. emit out b') = emit out (b @ b')"
  by (simp add: emit_def)

text \<open>The blocks that a loop writes, in order.\<close>

definition config_blocks :: "bool \<Rightarrow> (u8 \<Rightarrow> u8) \<Rightarrow> device \<Rightarrow> bytes res" where
  "config_blocks high polling dv =
     concat_of (\<lambda>i. and_then (config_for high dv (of_nat i)) (\<lambda>c. case c of
         None \<Rightarrow> Inr [] | Some c \<Rightarrow> config_block high polling dv c))
       [1..<Suc (unat (dd_bNumConfigurations (dv_descriptor dv)))]"

lemma emit_configs_blocks:
  assumes "concat_of (\<lambda>i. and_then (config_for high dv (of_nat i)) (\<lambda>c. case c of
         None \<Rightarrow> Inr [] | Some c \<Rightarrow> config_block high polling dv c)) is = Inr bs"
    and "length out \<le> USB_BUFSIZE"
  shows "emit_configs high polling dv is out = emit out bs"
  using assms
proof (induction "is" arbitrary: bs out)
  case Nil
  then show ?case by (simp add: emit_def)
next
  case (Cons i "is")
  from Cons.prems(1) obtain c b bs' where c: "config_for high dv (of_nat i) = Inr c"
    and b: "(case c of None \<Rightarrow> Inr [] | Some c \<Rightarrow> config_block high polling dv c) = Inr b"
    and bs': "concat_of (\<lambda>i. and_then (config_for high dv (of_nat i)) (\<lambda>c. case c of
         None \<Rightarrow> Inr [] | Some c \<Rightarrow> config_block high polling dv c)) is = Inr bs'"
    and bs: "bs = b @ bs'"
    by (auto simp: and_then_eq_Inr)
  show ?case
  proof (cases c)
    case None
    then show ?thesis using Cons.IH [OF bs' Cons.prems(2)] b bs by (simp add: c)
  next
    case (Some c')
    then have "config_block high polling dv c' = Inr b" using b by simp
    then show ?thesis
      using Cons.IH [OF bs', of "out @ b"] by (auto simp: c Some bs emit_def)
  qed
qed

lemma set_intervals_endpoints:
  assumes "\<forall>d\<in>set ds. endpoint_plain d \<and> ep_bInterval d \<noteq> 0"
  shows "set_intervals polling (length ds) (length pre)
           (pre @ concat (map endpoint_bytes ds) @ post) =
         Inr (length pre + 7 * length ds,
              pre @ concat (map (\<lambda>d. endpoint_bytes (d\<lparr>ep_bInterval := polling (ep_bInterval d)\<rparr>)) ds) @ post)"
  using assms
proof (induction ds arbitrary: pre)
  case Nil
  then show ?case by simp
next
  case (Cons d ds)
  let ?d' = "d\<lparr>ep_bInterval := polling (ep_bInterval d)\<rparr>"
  let ?rest = "concat (map endpoint_bytes ds) @ post"
  have d: "ep_bLength d = 7" "ep_bInterval d \<noteq> 0" using Cons.prems by (auto simp: endpoint_plain_def)
  have "(pre @ endpoint_bytes d @ ?rest)[length pre + 6 := polling (ep_bInterval d)] =
      pre @ endpoint_bytes ?d' @ ?rest"
    by (simp add: list_update_append endpoint_bytes_def eval_nat_numeral)
  moreover have "endpoint_bytes d ! 6 = ep_bInterval d"
    by (simp add: endpoint_bytes_def)
  ultimately have "set_intervals polling (length (d # ds)) (length pre) (pre @ endpoint_bytes d @ ?rest) =
      set_intervals polling (length ds) (length (pre @ endpoint_bytes ?d'))
        ((pre @ endpoint_bytes ?d') @ ?rest)"
    using d by (simp add: nth_append new_interval_def)
  then show ?case using Cons.IH [of "pre @ endpoint_bytes ?d'"] Cons.prems by simp
qed

text \<open>The interface with its endpoints' intervals replaced, and the configuration as the high-speed
  loop is meant to write it.\<close>

definition fast_endpoint :: "(u8 \<Rightarrow> u8) \<Rightarrow> endpoint_descriptor \<Rightarrow> endpoint_descriptor" where
  "fast_endpoint polling d = d\<lparr>ep_bInterval := polling (ep_bInterval d)\<rparr>"

definition fast_iface :: "(u8 \<Rightarrow> u8) \<Rightarrow> iface \<Rightarrow> iface" where
  "fast_iface polling ic =
     ic\<lparr>if_endpoints := map (map_option (fast_endpoint polling)) (if_endpoints ic)\<rparr>"

definition fast_group :: "(u8 \<Rightarrow> u8) \<Rightarrow> igroup \<Rightarrow> igroup" where
  "fast_group polling g = g\<lparr>ig_interfaces := map (map_option (fast_iface polling)) (ig_interfaces g)\<rparr>"

definition fast_config :: "(u8 \<Rightarrow> u8) \<Rightarrow> config \<Rightarrow> config" where
  "fast_config polling c =
     c\<lparr>cf_descriptor := (cf_descriptor c)\<lparr>cf_bDescriptorType := USB_DT_CONFIG,
          cf_bmAttributes := cf_bmAttributes (cf_descriptor c) AND NOT 0x20\<rparr>,
        cf_groups := map (map_option (fast_group polling)) (cf_groups c)\<rparr>"

definition intervals_ok :: "iface \<Rightarrow> bool" where
  "intervals_ok ic \<longleftrightarrow> (\<forall>d. Some d \<in> set (if_endpoints ic) \<longrightarrow> ep_bInterval d \<noteq> 0)"

lemma somes_map_map_option [simp]: "somes (map (map_option f) xs) = map f (somes xs)"
  by (induction xs) (auto simp: somes_def List.map_filter_def split: option.split)

lemma length_somes_endpoints:
  "iface_plain ic \<Longrightarrow> length (somes (if_endpoints ic)) = unat (if_bNumEndpoints (if_descriptor ic))"
  using somes_all [of "if_endpoints ic" endpoint_plain] iface_plainD(5,8) [of ic]
  by (metis length_map)

lemma sum_of_blocks:
  "\<forall>g\<in>set gs. generic_ok g \<Longrightarrow> sum_of block_full_length gs = Inr (length (concat gs))"
proof (induction gs)
  case (Cons g gs)
  then show ?case
    using block_full_length_eq [OF block_full_ok, of g] by (simp add: generic_ok_def)
qed simp

lemma walk_iface:
  assumes "get_interface c (of_nat k) = Inr (Some ic)" "iface_plain ic" "intervals_ok ic"
  shows "walk_interfaces polling c (k # ks) (length pre) (pre @ iface_bytes ic @ post) =
    walk_interfaces polling c ks (length (pre @ iface_bytes (fast_iface polling ic)))
      ((pre @ iface_bytes (fast_iface polling ic)) @ post)"
proof -
  define ds where "ds = somes (if_endpoints ic)"
  define hid where "hid = (case if_hid ic of None \<Rightarrow> [] | Some h \<Rightarrow> h)"
  define gen where "gen = concat (if_generics ic)"
  define pre' where "pre' = pre @ interface_struct (if_descriptor ic) @ hid @ gen"
  have ds: "\<forall>d\<in>set ds. endpoint_plain d \<and> ep_bInterval d \<noteq> 0"
    using assms(3) iface_plainD(8) [OF assms(2)]
    by (auto simp: ds_def set_somes intervals_ok_def)
  have bytes: "pre @ iface_bytes ic @ post = pre' @ concat (map endpoint_bytes ds) @ post"
    by (simp add: iface_bytes_def pre'_def ds_def hid_def gen_def)
  have fast: "pre @ iface_bytes (fast_iface polling ic) @ post =
      pre' @ concat (map (\<lambda>d. endpoint_bytes (fast_endpoint polling d)) ds) @ post"
    by (simp add: iface_bytes_def fast_iface_def pre'_def ds_def hid_def gen_def comp_def)
  have len: "length (concat (map (\<lambda>d. endpoint_bytes (fast_endpoint polling d)) ds)) = 7 * length ds"
    by (simp add: length_concat comp_def sum_list_triv)
  have hid': "(if has_HID ic then get_HID_descriptor_length ic else Inr 0) = Inr (length hid)"
    using iface_plainD(6) [OF assms(2)] block_full_length_eq [OF block_full_ok]
    by (auto simp: has_HID_def get_HID_descriptor_length_def hid_def hid_ok_def split: option.split)
  have nine: "unat (if_bLength (if_descriptor ic)) = 9" by (simp add: iface_plainD(2) [OF assms(2)])
  have gen': "sum_of block_full_length (if_generics ic) = Inr (length gen)"
    using iface_plainD(7) [OF assms(2)] by (simp add: gen_def sum_of_blocks)
  have "set_intervals polling (unat (if_bNumEndpoints (if_descriptor ic)))
      (length pre + unat (if_bLength (if_descriptor ic)) + length hid + length gen)
      (pre @ iface_bytes ic @ post) =
    Inr (length pre' + 7 * length ds,
      pre' @ concat (map (\<lambda>d. endpoint_bytes (fast_endpoint polling d)) ds) @ post)"
    using set_intervals_endpoints [OF ds, of polling pre' post]
    unfolding bytes fast_endpoint_def length_somes_endpoints [OF assms(2), symmetric] ds_def [symmetric]
    by (simp add: pre'_def nine add_ac)
  then have "walk_interfaces polling c (k # ks) (length pre) (pre @ iface_bytes ic @ post) =
      walk_interfaces polling c ks (length pre' + 7 * length ds)
        (pre @ iface_bytes (fast_iface polling ic) @ post)"
    by (simp add: assms(1) hid' gen' fast)
  moreover have "length (pre @ iface_bytes (fast_iface polling ic)) = length pre' + 7 * length ds"
    using fast len by (metis append_assoc length_append add_right_cancel)
  ultimately show ?thesis by simp
qed

lemma walk_all:
  assumes "\<forall>j<length ics. get_interface c (of_nat (k + j)) = Inr (Some (ics ! j))"
    and "\<forall>ic\<in>set ics. iface_plain ic \<and> intervals_ok ic"
  shows "walk_interfaces polling c [k..<k + length ics] (length pre) (pre @ concat (map iface_bytes ics)) =
    Inr (pre @ concat (map (\<lambda>ic. iface_bytes (fast_iface polling ic)) ics))"
  using assms
proof (induction ics arbitrary: k pre)
  case Nil
  then show ?case by simp
next
  case (Cons ic ics)
  have g: "get_interface c (of_nat k) = Inr (Some ic)" using Cons.prems(1) by force
  have "[k..<k + length (ic # ics)] = k # [Suc k..<Suc k + length ics]"
    using upt_conv_Cons [of k "k + length (ic # ics)"] by simp
  moreover have "\<forall>j<length ics. get_interface c (of_nat (Suc k + j)) = Inr (Some (ics ! j))"
    using Cons.prems(1) by fastforce
  ultimately show ?case
    using walk_iface [OF g, of polling _ pre "concat (map iface_bytes ics)"]
      Cons.IH [of "Suc k" "pre @ iface_bytes (fast_iface polling ic)"] Cons.prems(2)
    by simp
qed

text \<open>A configuration in which every interface has one setting, the active one, and no endpoint has the
  interval 0.\<close>

definition single_settings :: "config \<Rightarrow> bool" where
  "single_settings c \<longleftrightarrow> (\<forall>g. Some g \<in> set (cf_groups c) \<longrightarrow>
     ig_alternateCount g = 1 \<and> (\<forall>ic\<in>set (group_ifaces g). intervals_ok ic))"

lemma single_group:
  assumes "igroup_plain g" "active_ok g" "ig_alternateCount g = 1"
  obtains ic where "ig_interfaces g = [Some ic]" "group_ifaces g = [ic]" "iface_plain ic"
    "igroup_active g = Inr (Some ic)"
proof -
  have g: "g\<lparr>ig_activeAlternateIndex := -1\<rparr> = group_of (ig_number g) (group_ifaces g)"
    and s: "settings (ig_number g) (group_ifaces g)" "group_ifaces g \<noteq> []"
    using assms(1) by (auto simp: igroup_plain_def)
  have ifs: "ig_interfaces g = map Some (group_ifaces g)"
    using arg_cong [OF g, of ig_interfaces] by (simp add: group_of_def)
  have "of_nat (length (group_ifaces g)) = (1 :: u8)"
    using arg_cong [OF g, of ig_alternateCount] assms(3) by (simp add: group_of_def)
  then have "length (group_ifaces g) = 1"
    using s(1) unat_of_nat_u8 [of "length (group_ifaces g)"] by (simp add: settings_def)
  then obtain ic where ic: "group_ifaces g = [ic]" by (auto simp: length_Suc_conv)
  moreover have "iface_plain ic" using s(1) ic by (auto simp: settings_def)
  moreover have "igroup_active g = Inr (Some ic)"
    using assms(2,3) ifs ic by (simp add: igroup_active_def igroup_get_def active_ok_def)
  ultimately show thesis using that ifs by simp
qed

lemma single_config:
  assumes "config_plain c" "single_settings c"
  obtains ics where "config_bytes c = config_struct (cf_descriptor c) @ concat (map iface_bytes ics)"
    "length ics = unat (cf_bNumInterfaces (cf_descriptor c))"
    "\<forall>j<length ics. get_interface c (of_nat j) = Inr (Some (ics ! j))"
    "\<forall>ic\<in>set ics. iface_plain ic \<and> intervals_ok ic"
    "cf_groups c = map Some (somes (cf_groups c))"
    "map (\<lambda>g. [g]) ics = map group_ifaces (somes (cf_groups c))"
proof -
  obtain gs where gs: "cf_groups c = map Some gs" "\<forall>g\<in>set gs. igroup_plain g" "\<forall>g\<in>set gs. active_ok g"
    using assms(1) by (rule config_plain_groups)
  define ics where "ics = map (\<lambda>g. hd (group_ifaces g)) gs"
  have one: "\<exists>ic. group_ifaces g = [ic] \<and> iface_plain ic \<and> intervals_ok ic \<and>
      igroup_active g = Inr (Some ic)" if "g \<in> set gs" for g
  proof -
    have "ig_alternateCount g = 1" "\<forall>ic\<in>set (group_ifaces g). intervals_ok ic"
      using assms(2) that gs(1) by (auto simp: single_settings_def)
    with that gs(2,3) show ?thesis by (metis single_group list.set_intros(1))
  qed
  have singles: "map (\<lambda>g. [g]) ics = map group_ifaces gs"
    by (auto simp: ics_def dest!: one)
  have len: "length ics = unat (cf_bNumInterfaces (cf_descriptor c))"
    using assms(1) gs(1) by (simp add: config_plain_def ics_def)
  have "concat (map group_ifaces gs) = ics"
    using singles [symmetric] by simp
  then have "config_bytes c = config_struct (cf_descriptor c) @ concat (map iface_bytes ics)"
    by (simp add: config_bytes_def gs(1))
  moreover have "get_interface c (of_nat j) = Inr (Some (ics ! j))" if j: "j < length ics" for j
  proof -
    have small: "unat (of_nat j :: u8) = j"
      using j len unat_u8_less [of "cf_bNumInterfaces (cf_descriptor c)"]
      by (intro unat_of_nat_u8) (simp del: unat_u8_less)
    have "gs ! j \<in> set gs" using j by (simp add: ics_def)
    then have "igroup_active (gs ! j) = Inr (Some (ics ! j))"
      using one [of "gs ! j"] j by (auto simp: ics_def)
    then show ?thesis
      using j small len by (simp add: get_interface_def gs(1) unat_le_u8 ics_def)
  qed
  moreover have "\<forall>ic\<in>set ics. iface_plain ic \<and> intervals_ok ic"
    by (auto simp: ics_def dest!: one)
  ultimately show thesis using that len singles gs(1) by simp
qed

lemma as_config_struct:
  assumes "cf_bLength d = 9"
  shows "as_config len (config_struct d @ bs) =
    Inr (config_struct (d\<lparr>cf_bDescriptorType := USB_DT_CONFIG,
       cf_bmAttributes := cf_bmAttributes d AND NOT 0x20, cf_wTotalLength := of_nat len\<rparr>) @ bs)"
  by (simp add: as_config_def config_struct_def)

lemma config_struct_index:
  "index (config_struct d @ bs) 0 = Inr (cf_bLength d)"
  "index (config_struct d @ bs) 4 = Inr (cf_bNumInterfaces d)"
  by (simp_all add: config_struct_def index_def)

lemma iface_plain_fast: "iface_plain ic \<Longrightarrow> iface_plain (fast_iface polling ic)"
  by (auto simp: iface_plain_def fast_iface_def iface_wf_def fast_endpoint_def endpoint_plain_def)

lemma length_iface_bytes_fast: "length (iface_bytes (fast_iface polling ic)) = length (iface_bytes ic)"
  by (simp add: iface_bytes_def fast_iface_def length_concat comp_def)

lemma config_bytes_fast:
  "config_bytes (fast_config polling c) =
     config_struct (cf_descriptor (fast_config polling c))
     @ concat (map (\<lambda>ic. iface_bytes (fast_iface polling ic))
         (concat (map group_ifaces (somes (cf_groups c)))))"
  by (simp add: config_bytes_def fast_config_def group_ifaces_def fast_group_def comp_def
      map_concat)


text \<open>The block that is handed to GadgetFS is the tag, the configurations for full speed, the
  configurations for high speed and the device descriptor, one after the other, when they fit into
  the 7168 bytes allocated for it; when they do not, the copies run over the end of the
  allocation.\<close>

theorem descriptor_block_fits:
  assumes "config_blocks False polling dv = Inr full" "config_blocks True polling dv = Inr high"
  shows "generate_descriptor polling dv =
     (if 22 + length full + length high > 7168 then Inl OutOfBounds
      else Inr ([0, 0, 0, 0] @ full @ high @ device_struct (dv_descriptor dv)))"
proof -
  define ks where "ks = [1..<Suc (unat (dd_bNumConfigurations (dv_descriptor dv)))]"
  have 1: "emit_configs False polling dv ks [0, 0, 0, 0] = emit [0, 0, 0, 0] full"
    using assms(1) unfolding ks_def
    by (intro emit_configs_blocks) (simp_all add: config_blocks_def USB_BUFSIZE_def)
  have 2: "emit_configs True polling dv ks ([0, 0, 0, 0] @ full) = emit ([0, 0, 0, 0] @ full) high"
    if "4 + length full \<le> USB_BUFSIZE"
    using assms(2) that unfolding ks_def
    by (intro emit_configs_blocks) (simp_all add: config_blocks_def)
  have gd: "generate_descriptor polling dv = and_then (emit_configs False polling dv ks [0, 0, 0, 0]) (\<lambda>out.
        and_then (emit_configs True polling dv ks out) (\<lambda>out.
          emit out (device_struct (dv_descriptor dv))))"
    by (simp only: generate_descriptor_def Let_def ks_def)
  show ?thesis
  proof (cases "4 + length full \<le> USB_BUFSIZE")
    case True
    then have "generate_descriptor polling dv =
        and_then (emit ([0, 0, 0, 0] @ full) high) (\<lambda>out. emit out (device_struct (dv_descriptor dv)))"
      using 1 2 by (simp add: gd emit_def [of "[0, 0, 0, 0]" full])
    then show ?thesis unfolding emit_emit by (simp add: emit_def USB_BUFSIZE_def)
  next
    case False
    then show ?thesis
      using 1 by (simp add: gd emit_def USB_BUFSIZE_def)
  qed
qed

text \<open>A full-speed device with the configuration \<open>sample_config\<close>; its interval 10 becomes
  \<open>floor(log2 80) + 1 = 7\<close>.\<close>

definition sample_device :: device where
  "sample_device = (device_of_descriptor
     \<lparr>dd_bLength = 18, dd_bDescriptorType = 1, dd_bcdUSB = 0x110, dd_bDeviceClass = 0,
      dd_bDeviceSubClass = 0, dd_bDeviceProtocol = 0, dd_bMaxPacketSize0 = 8, dd_idVendor = 0x46d,
      dd_idProduct = 0xc31c, dd_bcdDevice = 0x6402, dd_iManufacturer = 0, dd_iProduct = 0,
      dd_iSerialNumber = 0, dd_bNumConfigurations = 1\<rparr>)
     \<lparr>dv_configurations := [Some sample_config]\<rparr>"

lemma sample_single: "single_settings sample_config"
  by (auto simp: single_settings_def sample_config_def group_ifaces_def intervals_ok_def
      sample_iface_def new_endpoint_def)


lemma sample_blocks:
  "config_blocks False (\<lambda>_. 7) sample_device =
     Inr [9, 2, 37, 0, 1, 1, 0, 128, 50, 9, 4, 0, 0, 1, 3, 1, 1, 0, 9, 33, 17, 1, 0, 1, 34, 63, 0,
          3, 36, 7, 7, 5, 0x81, 3, 8, 0, 10]"
  "config_blocks True (\<lambda>_. 7) sample_device =
     Inr [9, 2, 37, 0, 1, 1, 0, 128, 50, 9, 4, 0, 0, 1, 3, 1, 1, 0, 9, 33, 17, 1, 0, 1, 34, 63, 0,
          3, 36, 7, 7, 5, 0x81, 3, 8, 0, 7]"
  by code_simp+

theorem descriptor_block_fits_witness:
  "\<exists>bs. generate_descriptor (\<lambda>_. 7) sample_device = Inr bs \<and> length bs = 96"
  using descriptor_block_fits [OF sample_blocks] by (simp add: sample_device_def)

text \<open>Interface 0 has a setting without endpoints and one with an isochronous endpoint (the usual form
  of an audio interface), interface 1 an interrupt endpoint.\<close>

definition audio_config :: config where
  "audio_config =
     \<lparr>cf_descriptor = \<lparr>cf_bLength = 9, cf_bDescriptorType = 2, cf_wTotalLength = 50,
        cf_bNumInterfaces = 2, cf_bConfigurationValue = 1, cf_iConfiguration = 0,
        cf_bmAttributes = 0x80, cf_bMaxPower = 50\<rparr>,
      cf_groups =
        [Some \<lparr>ig_number = 0, ig_alternateCount = 2, ig_activeAlternateIndex = 0,
           ig_interfaces = [Some (new_iface 0 0 0 1 2 0 0),
             Some ((new_iface 0 1 1 1 2 0 0)\<lparr>if_endpoints := [Some (new_endpoint 1 1 192 1)]\<rparr>)]\<rparr>,
         Some \<lparr>ig_number = 1, ig_alternateCount = 1, ig_activeAlternateIndex = 0,
           ig_interfaces = [Some ((new_iface 1 0 1 3 0 0 0)
             \<lparr>if_endpoints := [Some (new_endpoint 0x82 3 8 10)]\<rparr>)]\<rparr>]\<rparr>"

text \<open>With alternate settings the walk goes astray: it advances over the active setting only, while
  the bytes hold all of them. For an audio device it replaces the interval of the isochronous endpoint
  and leaves the one of interface 1, the only endpoint of an active setting, as it was.\<close>

theorem alternates_mislead_walk:
  "\<exists>bs. config_block True polling sample_device audio_config = Inr bs \<and>
     config_full audio_config = Inr (take 33 bs @ [1] @ drop 34 bs) \<and>
     bs ! 33 = polling 1 \<and> bs ! 49 = 10"
proof -
  have len: "config_full_length audio_config = Inr 50" by code_simp
  have full: "config_full audio_config =
      Inr ([9, 2, 50, 0, 2, 1, 0, 128, 50, 9, 4, 0, 0, 0, 1, 2, 0, 0,
            9, 4, 0, 1, 1, 1, 2, 0, 0, 7, 5, 1, 1, 192, 0, 1,
            9, 4, 1, 0, 1, 3, 0, 0, 0, 7, 5, 130, 3, 8, 0, 10])"
    by code_simp
  have head: "as_config 50 [9, 2, 50, 0, 2, 1, 0, 128, 50, 9, 4, 0, 0, 0, 1, 2, 0, 0,
            9, 4, 0, 1, 1, 1, 2, 0, 0, 7, 5, 1, 1, 192, 0, 1,
            9, 4, 1, 0, 1, 3, 0, 0, 0, 7, 5, 130, 3, 8, 0, 10] =
      Inr [9, 2, 50, 0, 2, 1, 0, 128, 50, 9, 4, 0, 0, 0, 1, 2, 0, 0,
            9, 4, 0, 1, 1, 1, 2, 0, 0, 7, 5, 1, 1, 192, 0, 1,
            9, 4, 1, 0, 1, 3, 0, 0, 0, 7, 5, 130, 3, 8, 0, 10]"
    by code_simp
  have "rewrite_intervals polling audio_config
      [9, 2, 50, 0, 2, 1, 0, 128, 50, 9, 4, 0, 0, 0, 1, 2, 0, 0,
            9, 4, 0, 1, 1, 1, 2, 0, 0, 7, 5, 1, 1, 192, 0, 1,
            9, 4, 1, 0, 1, 3, 0, 0, 0, 7, 5, 130, 3, 8, 0, 10] =
      Inr [9, 2, 50, 0, 2, 1, 0, 128, 50, 9, 4, 0, 0, 0, 1, 2, 0, 0,
            9, 4, 0, 1, 1, 1, 2, 0, 0, 7, 5, 1, 1, 192, 0, polling 1,
            9, 4, 1, 0, 1, 3, 0, 0, 0, 7, 5, 130, 3, 8, 0, 10]"
    by code_simp
  then show ?thesis
    by (simp add: config_block_def len full head sample_device_def device_of_descriptor_def)
qed

end
