(* ===== verification/GadgetFS_Model.thy ===== *)
theory GadgetFS_Model
  imports GadgetFS_Descriptor
begin

text \<open>
  The host proxy over GadgetFS (\<open>src/Plugins/Hosts/HostProxy_GadgetFS.cpp\<close>,
  \<open>GadgetFS_helpers.c\<close>): connecting, the control requests on endpoint 0, and the asynchronous
  transfers of the other endpoints, one control block per endpoint. What the system calls answer
  is a parameter; messages are left out.
\<close>

section \<open>State\<close>

text \<open>The members of \<open>struct aiocb\<close> that the code uses; a buffer that is NULL or released is
  \<open>None\<close>.\<close>

record aiocb =
  aio_fildes :: int
  aio_buf :: "bytes option"
  aio_nbytes :: nat

text \<open>\<open>g_last\<close> is \<open>lastControl\<close>, of which the constructor writes one field only, so it is \<open>None\<close>
  until a request has been read.\<close>

record gadget =
  g_connected :: bool
  g_file :: int
  g_descriptor :: "bytes option"
  g_last :: "usb_ctrlrequest option"
  g_in :: "aiocb option list"
  g_in_active :: "bool list"
  g_out :: "aiocb option list"

definition new_gadget :: gadget where
  "new_gadget =
     \<lparr>g_connected = False, g_file = 0, g_descriptor = None, g_last = None,
      g_in = replicate 16 None, g_in_active = replicate 16 False, g_out = replicate 16 None\<rparr>"

section \<open>Connecting\<close>

text \<open>Opening the gadget file and writing the descriptors to it: the results of \<open>open_gadget\<close> and
  of \<open>write\<close>.\<close>

definition open_and_write :: "int \<Rightarrow> int \<Rightarrow> gadget \<Rightarrow> int \<times> gadget" where
  "open_and_write fd status g =
     (if fd < 0 then (1, g\<lparr>g_file := fd\<rparr>)
      else if status < 0 then (1, g\<lparr>g_file := 0\<rparr>)
      else (0, g\<lparr>g_file := fd, g_connected := True\<rparr>))"

definition gadget_connect ::
  "(u8 \<Rightarrow> u8) \<Rightarrow> device \<Rightarrow> int \<Rightarrow> int \<Rightarrow> gadget \<Rightarrow> (int \<times> gadget) res" where
  "gadget_connect polling dv fd status g =
     (if g_connected g then Inr (0, g)
      else and_then (generate_descriptor polling dv) (\<lambda>d.
        Inr (open_and_write fd status (g\<lparr>g_descriptor := Some d\<rparr>))))"

definition gadget_reconnect :: "int \<Rightarrow> int \<Rightarrow> gadget \<Rightarrow> int \<times> gadget" where
  "gadget_reconnect fd status g =
     (if g_connected g then (0, g)
      else if g_descriptor g = None then (1, g)
      else open_and_write fd status g)"

text \<open>\<open>disconnect\<close> closes and releases every control block; it does not touch \<open>p_epin_active\<close>.\<close>

definition gadget_disconnect :: "gadget \<Rightarrow> gadget" where
  "gadget_disconnect g =
     (if \<not> g_connected g then g
      else g\<lparr>g_file := 0, g_in := replicate 16 None, g_out := replicate 16 None,
             g_connected := False\<rparr>)"

definition gadget_reset :: "int \<Rightarrow> int \<Rightarrow> gadget \<Rightarrow> gadget" where
  "gadget_reset fd status g = snd (gadget_reconnect fd status (gadget_disconnect g))"

section \<open>Control requests\<close>

datatype gadget_event =
  GADGETFS_NOP | GADGETFS_CONNECT | GADGETFS_DISCONNECT | GADGETFS_SETUP usb_ctrlrequest
  | GADGETFS_SUSPEND | GADGETFS_UNKNOWN

text \<open>What the process does with the file of endpoint 0.\<close>

datatype ep0_io = ReadNothing | WriteNothing | WriteData bytes

text \<open>\<open>control_ack\<close> and \<open>stall_ep\<close> use the direction of the last request.\<close>

definition gadget_control_ack :: "gadget \<Rightarrow> ep0_io res" where
  "gadget_control_ack g =
     (case g_last g of None \<Rightarrow> Inl Uninit
      | Some r \<Rightarrow> Inr (if is_in r then WriteNothing else ReadNothing))"

definition gadget_stall_ep :: "u8 \<Rightarrow> gadget \<Rightarrow> ep0_io list res" where
  "gadget_stall_ep endpoint g =
     (if endpoint \<noteq> 0 then Inr []
      else (case g_last g of None \<Rightarrow> Inl Uninit
            | Some r \<Rightarrow> Inr [if is_in r then ReadNothing else WriteNothing]))"

text \<open>The result of \<open>control_request\<close>: no request, or a request with \<open>nbytes\<close> and the data, after
  the accesses of endpoint 0 that it made itself. \<open>data\<close> is what \<open>read\<close> returns for the data of a
  request to the device: the number of bytes, negative for an error, and the bytes.\<close>

datatype gadget_request = NoRequest | Request usb_ctrlrequest int "bytes option"

fun scan_events ::
  "(usb_ctrlrequest \<Rightarrow> int \<times> bytes) \<Rightarrow> gadget_event list \<Rightarrow> gadget \<Rightarrow>
   (gadget_request \<times> ep0_io list) \<times> gadget" where
  "scan_events data [] g = ((NoRequest, []), g)"
| "scan_events data (GADGETFS_SETUP r # es) g =
     (((if \<not> is_in r \<and> cr_wLength r \<noteq> 0
        then Request r (fst (data r)) (Some (snd (data r)))
        else Request r 0 None),
       (if cr_bRequest r = USB_REQ_SET_CONFIGURATION \<and> \<not> is_in r then [ReadNothing] else [])),
      g\<lparr>g_last := Some r\<rparr>)"
| "scan_events data (e # es) g = scan_events data es g"

text \<open>\<open>events\<close> is \<open>None\<close> when \<open>poll\<close> finds nothing or \<open>read\<close> fails.\<close>

definition gadget_control_request ::
  "gadget_event list option \<Rightarrow> (usb_ctrlrequest \<Rightarrow> int \<times> bytes) \<Rightarrow> gadget \<Rightarrow>
   (gadget_request \<times> ep0_io list) \<times> gadget" where
  "gadget_control_request events data g =
     (case events of None \<Rightarrow> ((NoRequest, []), g) | Some es \<Rightarrow> scan_events data es g)"

section \<open>Asynchronous transfers\<close>

definition EINPROGRESS :: int where "EINPROGRESS = 115"

definition gadget_number :: "u8 \<Rightarrow> nat" where
  "gadget_number endpoint = unat (endpoint AND 0x0f)"

definition gadget_send_data ::
  "u8 \<Rightarrow> bytes \<Rightarrow> int \<Rightarrow> gadget \<Rightarrow> ep0_io list \<times> gadget" where
  "gadget_send_data endpoint dat rc g =
     (if endpoint = 0 then ([WriteData dat], g)
      else if endpoint AND 0x80 = 0 then ([], g)
      else (let number = gadget_number endpoint in
        case g_in g ! number of
          None \<Rightarrow> ([], g)
        | Some aio \<Rightarrow>
            (let g1 = g\<lparr>g_in := (g_in g)[number :=
                   Some (aio\<lparr>aio_buf := Some dat, aio_nbytes := length dat\<rparr>)]\<rparr> in
             ([], if rc \<noteq> 0 then g1 else g1\<lparr>g_in_active := (g_in_active g1)[number := True]\<rparr>))))"

text \<open>The answers of \<open>aio_error\<close>, of \<open>aio_suspend\<close> (\<open>True\<close> when it does not return 0: the time is
  over or a signal came), of \<open>aio_error\<close> after it, and of \<open>aio_return\<close>.\<close>

record aio_env =
  ae_error :: int
  ae_suspend_fails :: bool
  ae_error_after :: int
  ae_return :: int

definition gadget_send_wait_complete ::
  "u8 \<Rightarrow> int \<Rightarrow> aio_env \<Rightarrow> gadget \<Rightarrow> bool \<times> gadget" where
  "gadget_send_wait_complete endpoint timeout env g =
     (if endpoint = 0 then (True, g)
      else if endpoint AND 0x80 = 0 then (False, g)
      else (let number = gadget_number endpoint in
        case g_in g ! number of
          None \<Rightarrow> (False, g)
        | Some aio \<Rightarrow>
            if \<not> g_in_active g ! number then (True, g)
            else (let rc = (if ae_error env = EINPROGRESS \<and> timeout \<noteq> 0
                            then (if ae_suspend_fails env then 0 else ae_error_after env)
                            else ae_error env);
                      g1 = g\<lparr>g_in := (g_in g)[number :=
                             Some (aio\<lparr>aio_buf := None, aio_nbytes := 0\<rparr>)]\<rparr>;
                      done = g1\<lparr>g_in_active := (g_in_active g1)[number := False]\<rparr> in
              if rc = EINPROGRESS then (False, g)
              else if rc \<noteq> 0 then (True, done)
              else if ae_return env = 0 then (True, g1)
              else if ae_return env = -1 then (False, g1)
              else (True, done))))"

text \<open>\<open>receive_data\<close>: the bytes that it hands over, if any. A read that has ended answers the bytes
  it stored, at most the \<open>aio_nbytes\<close> asked for, or an error (\<open>None\<close>); \<open>again\<close> is the result of
  submitting the next one.\<close>

definition gadget_receive_data ::
  "u8 \<Rightarrow> int \<Rightarrow> aio_env \<Rightarrow> bytes option \<Rightarrow> int \<Rightarrow> gadget \<Rightarrow> bytes option \<times> gadget" where
  "gadget_receive_data endpoint timeout env got again g =
     (if endpoint = 0 \<or> endpoint AND 0x80 \<noteq> 0 then (None, g)
      else (let number = gadget_number endpoint in
        case g_out g ! number of
          None \<Rightarrow> (None, g)
        | Some aio \<Rightarrow>
            if ae_error env = EINPROGRESS \<and> timeout \<noteq> 0 \<and> ae_suspend_fails env then (None, g)
            else (let rc = (if ae_error env = EINPROGRESS \<and> timeout \<noteq> 0 then ae_error_after env
                            else ae_error env) in
              if rc \<noteq> 0 then (None, g)
              else (case got of None \<Rightarrow> (None, g)
                    | Some bs \<Rightarrow>
                        (Some (take (aio_nbytes aio) bs),
                         if again \<noteq> 0 then g\<lparr>g_out := (g_out g)[number := None]\<rparr> else g)))))"

section \<open>Opening the endpoints\<close>

text \<open>The endpoint files of GadgetFS (\<open>open_endpoint\<close>): the name below the mount point, none for
  endpoint 0. \<open>sw_usb_udc\<close> says that the controller is \<open>sw_usb_udc\<close>.\<close>

definition endpoint_direction :: "bool \<Rightarrow> u8 \<Rightarrow> string" where
  "endpoint_direction sw_usb_udc epAddress =
     (if sw_usb_udc then ''-bulk''
      else if gadget_number epAddress > 12 then ''''
      else if epAddress AND 0x80 \<noteq> 0 then ''in'' else ''out'')"

definition endpoint_file :: "bool \<Rightarrow> u8 \<Rightarrow> (nat \<times> string) option" where
  "endpoint_file sw_usb_udc epAddress =
     (if gadget_number epAddress = 0 then None
      else Some (gadget_number epAddress, endpoint_direction sw_usb_udc epAddress))"

text \<open>The pairs of descriptors of \<open>setConfig\<close>, in the order of its loops: the endpoint of the
  full-speed configuration and the one that is written as its high-speed form. The setting of the
  high-speed configuration is looked up as interface \<open>aifc_idx\<close>, setting \<open>aifc_idx\<close>. (The pairs are
  collected before the first endpoint is opened; the code looks each up when it gets there.)\<close>

definition setting_pairs ::
  "iface \<Rightarrow> iface \<Rightarrow> (endpoint_descriptor \<times> endpoint_descriptor) list res" where
  "setting_pairs fs_aifc hs_aifc =
     concat_of (\<lambda>ep_idx.
       and_then (get_endpoint_by_idx fs_aifc (of_nat ep_idx)) (\<lambda>p. and_then (deref p) (\<lambda>fs_ep.
         and_then (get_endpoint_by_idx hs_aifc (of_nat ep_idx)) (\<lambda>q.
           Inr [(fs_ep, case q of None \<Rightarrow> fs_ep | Some hs_ep \<Rightarrow> hs_ep)]))))
       [0..<unat (get_endpoint_count fs_aifc)]"

definition interface_pairs ::
  "config \<Rightarrow> config option \<Rightarrow> nat \<Rightarrow> (endpoint_descriptor \<times> endpoint_descriptor) list res" where
  "interface_pairs fs_cfg hs_cfg ifc_idx =
     and_then (get_interface_alternate_count fs_cfg (of_nat ifc_idx)) (\<lambda>aifc_cnt.
       concat_of (\<lambda>aifc_idx.
         and_then (get_interface_alternate fs_cfg (of_nat ifc_idx) (of_nat aifc_idx)) (\<lambda>fs.
           and_then (case hs_cfg of None \<Rightarrow> Inr fs
                     | Some hs_cfg \<Rightarrow>
                         get_interface_alternate hs_cfg (of_nat aifc_idx) (of_nat aifc_idx)) (\<lambda>hs.
             and_then (deref fs) (\<lambda>fs_aifc.
               setting_pairs fs_aifc (case hs of None \<Rightarrow> fs_aifc | Some hs_aifc \<Rightarrow> hs_aifc)))))
         [0..<unat aifc_cnt])"

definition endpoint_pairs ::
  "config \<Rightarrow> config option \<Rightarrow> (endpoint_descriptor \<times> endpoint_descriptor) list res" where
  "endpoint_pairs fs_cfg hs_cfg =
     concat_of (interface_pairs fs_cfg hs_cfg)
       [0..<unat (cf_bNumInterfaces (cf_descriptor fs_cfg))]"

text \<open>What is written to an endpoint's file, and the control block that is set up for it. \<open>fd\<close> and
  \<open>rc\<close> are the results of \<open>open_endpoint\<close> and of \<open>aio_read\<close>.\<close>

definition endpoint_config :: "endpoint_descriptor \<Rightarrow> endpoint_descriptor \<Rightarrow> bytes res" where
  "endpoint_config fs_ep hs_ep =
     and_then (endpoint_full fs_ep) (\<lambda>fs. and_then (endpoint_full hs_ep) (\<lambda>hs.
       Inr ([1, 0, 0, 0] @ fs @ hs)))"

definition place_aio ::
  "bool \<Rightarrow> int \<Rightarrow> int \<Rightarrow> endpoint_descriptor \<times> endpoint_descriptor \<Rightarrow> gadget \<Rightarrow> gadget" where
  "place_aio hs fd rc = (\<lambda>(fs_ep, hs_ep) g.
     (let number = gadget_number (ep_bEndpointAddress fs_ep);
          len = unat (ep_wMaxPacketSize (if hs then hs_ep else fs_ep)) in
      if ep_bEndpointAddress fs_ep AND 0x80 \<noteq> 0 then
        g\<lparr>g_in := (g_in g)[number := Some \<lparr>aio_fildes = fd, aio_buf = None, aio_nbytes = 0\<rparr>]\<rparr>
      else if rc \<noteq> 0 then g
      else g\<lparr>g_out := (g_out g)[number :=
             Some \<lparr>aio_fildes = fd, aio_buf = Some (replicate len 0), aio_nbytes = len\<rparr>]\<rparr>))"

text \<open>\<open>setConfig\<close> gives up at the first endpoint that cannot be opened. The result carries what was
  written to the endpoint files.\<close>

fun open_pairs ::
  "bool \<Rightarrow> (endpoint_descriptor \<Rightarrow> int) \<Rightarrow> (endpoint_descriptor \<Rightarrow> int) \<Rightarrow>
   (endpoint_descriptor \<times> endpoint_descriptor) list \<Rightarrow> gadget \<Rightarrow> (bytes list \<times> gadget) res" where
  "open_pairs hs fds rcs [] g = Inr ([], g)"
| "open_pairs hs fds rcs ((fs_ep, hs_ep) # ps) g =
     and_then (endpoint_config fs_ep hs_ep) (\<lambda>buf.
       if gadget_number (ep_bEndpointAddress fs_ep) = 0 \<or> fds fs_ep < 0 then Inr ([], g)
       else and_then (open_pairs hs fds rcs ps
                (place_aio hs (fds fs_ep) (rcs fs_ep) (fs_ep, hs_ep) g)) (\<lambda>(bufs, g').
              Inr (buf # bufs, g')))"

definition gadget_set_config ::
  "(endpoint_descriptor \<Rightarrow> int) \<Rightarrow> (endpoint_descriptor \<Rightarrow> int) \<Rightarrow> config \<Rightarrow> config option \<Rightarrow> bool \<Rightarrow>
   gadget \<Rightarrow> (bytes list \<times> gadget) res" where
  "gadget_set_config fds rcs fs_cfg hs_cfg hs g =
     and_then (endpoint_pairs fs_cfg hs_cfg) (\<lambda>ps. open_pairs hs fds rcs ps g)"

section \<open>Lemmas\<close>

text \<open>The pairs of one setting: the high-speed setting's endpoint of the same index, where it has
  one.\<close>

definition pair_up :: "'a list \<Rightarrow> 'a list \<Rightarrow> ('a \<times> 'a) list" where
  "pair_up ds es = map (\<lambda>j. (ds ! j, if j < length es then es ! j else ds ! j)) [0..<length ds]"

lemma get_endpoint_plain:
  assumes "iface_plain ic" "j < 256"
  shows "get_endpoint_by_idx ic (of_nat j) = Inr (if j < length (somes (if_endpoints ic))
     then Some (somes (if_endpoints ic) ! j) else None)"
proof -
  have small: "unat (of_nat j :: u8) = j" using assms(2) by (rule unat_of_nat_u8)
  have es: "if_endpoints ic = map Some (somes (if_endpoints ic))"
    using somes_all [of "if_endpoints ic" endpoint_plain] iface_plainD(8) [OF assms(1)] by blast
  have len: "length (if_endpoints ic) = unat (if_bNumEndpoints (if_descriptor ic))"
    using assms(1) by (rule iface_plainD(5))
  have same: "length (somes (if_endpoints ic)) = length (if_endpoints ic)"
    using es by (metis length_map)
  have "if_endpoints ic ! j = Some (somes (if_endpoints ic) ! j)" if "j < length (if_endpoints ic)"
    using that es same by (metis nth_map)
  then show ?thesis
    by (auto simp: get_endpoint_by_idx_def unat_le_u8 small len [symmetric] same)
qed

lemma setting_pairs_plain:
  assumes "iface_plain fs" "iface_plain hs"
  shows "setting_pairs fs hs = Inr (pair_up (somes (if_endpoints fs)) (somes (if_endpoints hs)))"
proof -
  define ds where "ds = somes (if_endpoints fs)"
  define es where "es = somes (if_endpoints hs)"
  have n: "unat (get_endpoint_count fs) = length ds"
    by (simp add: get_endpoint_count_def ds_def length_somes_endpoints [OF assms(1)])
  have small: "j < 256" if "j < length ds" for j
    using that n unat_u8_less [of "get_endpoint_count fs"] by (simp del: unat_u8_less)
  have "concat_of (\<lambda>ep_idx.
       and_then (get_endpoint_by_idx fs (of_nat ep_idx)) (\<lambda>p. and_then (deref p) (\<lambda>fs_ep.
         and_then (get_endpoint_by_idx hs (of_nat ep_idx)) (\<lambda>q.
           Inr [(fs_ep, case q of None \<Rightarrow> fs_ep | Some hs_ep \<Rightarrow> hs_ep)])))) [0..<length ds] =
     Inr (concat (map (\<lambda>j. [(ds ! j, if j < length es then es ! j else ds ! j)]) [0..<length ds]))"
    by (rule concat_of_Inr)
      (simp add: small get_endpoint_plain [OF assms(1)] get_endpoint_plain [OF assms(2)] ds_def es_def)
  then show ?thesis
    by (simp add: setting_pairs_def n pair_up_def ds_def [symmetric] es_def [symmetric] concat_map_singleton)
qed

lemma single_alternates:
  assumes "config_plain c" "\<forall>g. Some g \<in> set (cf_groups c) \<longrightarrow> ig_alternateCount g = 1"
  obtains ics where "length ics = unat (cf_bNumInterfaces (cf_descriptor c))"
    "\<forall>j<length ics. get_interface_alternate_count c (of_nat j) = Inr 1 \<and>
       get_interface_alternate c (of_nat j) 0 = Inr (Some (ics ! j))"
    "\<forall>ic\<in>set ics. iface_plain ic"
    "concat (map group_ifaces (somes (cf_groups c))) = ics"
proof -
  obtain gs where gs: "cf_groups c = map Some gs" "\<forall>g\<in>set gs. igroup_plain g" "\<forall>g\<in>set gs. active_ok g"
    using assms(1) by (rule config_plain_groups)
  define ics where "ics = map (\<lambda>g. hd (group_ifaces g)) gs"
  have one: "\<exists>ic. group_ifaces g = [ic] \<and> iface_plain ic \<and> ig_alternateCount g = 1 \<and>
      igroup_get g 0 = Inr (Some ic)" if "g \<in> set gs" for g
  proof -
    have "ig_alternateCount g = 1" using assms(2) that gs(1) by auto
    moreover have "igroup_plain g" "active_ok g" using gs(2,3) that by auto
    moreover note count = calculation
    obtain ic where "ig_interfaces g = [Some ic]" "group_ifaces g = [ic]" "iface_plain ic"
      by (rule single_group [OF count(2,3,1)])
    ultimately show ?thesis by (simp add: igroup_get_def)
  qed
  have len: "length ics = unat (cf_bNumInterfaces (cf_descriptor c))"
    using assms(1) gs(1) by (simp add: config_plain_def ics_def)
  have "map (\<lambda>g. [g]) ics = map group_ifaces gs" by (auto simp: ics_def dest!: one)
  then have ics: "concat (map group_ifaces (somes (cf_groups c))) = ics"
    by (simp add: gs(1) flip: \<open>map (\<lambda>g. [g]) ics = map group_ifaces gs\<close>)
  have "get_interface_alternate_count c (of_nat j) = Inr 1 \<and>
       get_interface_alternate c (of_nat j) 0 = Inr (Some (ics ! j))" if j: "j < length ics" for j
  proof -
    have small: "unat (of_nat j :: u8) = j"
      using j len unat_u8_less [of "cf_bNumInterfaces (cf_descriptor c)"]
      by (intro unat_of_nat_u8) (simp del: unat_u8_less)
    have jg: "j < length gs" using j by (simp add: ics_def)
    then obtain ic where "group_ifaces (gs ! j) = [ic]" "ig_alternateCount (gs ! j) = 1"
      "igroup_get (gs ! j) 0 = Inr (Some ic)"
      using one [of "gs ! j"] by auto
    then show ?thesis
      using j jg small len
      by (simp add: get_interface_alternate_def get_interface_alternate_count_def gs(1) unat_le_u8 ics_def)
  qed
  moreover have "\<forall>ic\<in>set ics. iface_plain ic" by (auto simp: ics_def dest!: one)
  ultimately show thesis using that len ics by blast
qed

section \<open>Properties\<close>

text \<open>The high-speed form of an endpoint is taken from the wrong interface: for a configuration whose
  interfaces have one setting each, the endpoints of every interface are paired with those of the
  first interface of the high-speed configuration.\<close>

theorem high_speed_pairing:
  assumes "config_plain fs_cfg" "\<forall>g. Some g \<in> set (cf_groups fs_cfg) \<longrightarrow> ig_alternateCount g = 1"
    and "get_interface_alternate hs_cfg 0 0 = Inr (Some hs0)" "iface_plain hs0"
  shows "endpoint_pairs fs_cfg (Some hs_cfg) = Inr (concat (map
     (\<lambda>ic. pair_up (somes (if_endpoints ic)) (somes (if_endpoints hs0)))
     (concat (map group_ifaces (somes (cf_groups fs_cfg))))))"
proof -
  obtain ics where ics: "length ics = unat (cf_bNumInterfaces (cf_descriptor fs_cfg))"
    "\<forall>j<length ics. get_interface_alternate_count fs_cfg (of_nat j) = Inr 1 \<and>
       get_interface_alternate fs_cfg (of_nat j) 0 = Inr (Some (ics ! j))"
    "\<forall>ic\<in>set ics. iface_plain ic"
    and all: "concat (map group_ifaces (somes (cf_groups fs_cfg))) = ics"
    by (rule single_alternates [OF assms(1,2)])
  have "interface_pairs fs_cfg (Some hs_cfg) j =
      Inr (pair_up (somes (if_endpoints (ics ! j))) (somes (if_endpoints hs0)))"
    if "j < length ics" for j
    using that ics(2,3) assms(3,4) by (simp add: interface_pairs_def setting_pairs_plain)
  then have "concat_of (interface_pairs fs_cfg (Some hs_cfg)) [0..<length ics] =
     Inr (concat (map (\<lambda>j. pair_up (somes (if_endpoints (ics ! j))) (somes (if_endpoints hs0)))
       [0..<length ics]))"
    by (intro concat_of_Inr) simp
  moreover have "map (\<lambda>j. pair_up (somes (if_endpoints (ics ! j))) (somes (if_endpoints hs0))) [0..<length ics] =
      map (\<lambda>ic. pair_up (somes (if_endpoints ic)) (somes (if_endpoints hs0))) ics"
    by (rule nth_equalityI) simp_all
  ultimately show ?thesis unfolding all by (simp add: endpoint_pairs_def ics(1))
qed

text \<open>A high-speed form of \<open>audio_config\<close>'s second interface is not what is written for it: with two
  keyboards in one device, the second one's endpoint is announced with the address of the first.\<close>

definition two_keyboards :: config where
  "two_keyboards =
     \<lparr>cf_descriptor = \<lparr>cf_bLength = 9, cf_bDescriptorType = 2, cf_wTotalLength = 41,
        cf_bNumInterfaces = 2, cf_bConfigurationValue = 1, cf_iConfiguration = 0,
        cf_bmAttributes = 0x80, cf_bMaxPower = 50\<rparr>,
      cf_groups =
        [Some \<lparr>ig_number = 0, ig_alternateCount = 1, ig_activeAlternateIndex = 0,
           ig_interfaces = [Some ((new_iface 0 0 1 3 1 1 0)
             \<lparr>if_endpoints := [Some (new_endpoint 0x81 3 8 10)]\<rparr>)]\<rparr>,
         Some \<lparr>ig_number = 1, ig_alternateCount = 1, ig_activeAlternateIndex = 0,
           ig_interfaces = [Some ((new_iface 1 0 1 3 1 1 0)
             \<lparr>if_endpoints := [Some (new_endpoint 0x82 3 8 10)]\<rparr>)]\<rparr>]\<rparr>"

lemma two_keyboards_plain: "config_plain two_keyboards"
  by (simp add: two_keyboards_def config_plain_def config_bytes_def group_ifaces_def All_less_Suc2
      igroup_plain_def settings_def group_of_def active_ok_def iface_bytes_def
      new_iface_def iface_of_descriptor_def iface_plain_def iface_wf_def endpoint_plain_def
      new_endpoint_def usb_consts)

theorem high_speed_pairing_witness:
  "endpoint_pairs two_keyboards (Some two_keyboards) =
     Inr [(new_endpoint 0x81 3 8 10, new_endpoint 0x81 3 8 10),
          (new_endpoint 0x82 3 8 10, new_endpoint 0x81 3 8 10)]"
proof -
  define hs0 where "hs0 = (new_iface 0 0 1 3 1 1 0)\<lparr>if_endpoints := [Some (new_endpoint 0x81 3 8 10)]\<rparr>"
  have "iface_plain hs0"
    by (simp add: hs0_def new_iface_def iface_of_descriptor_def iface_plain_def iface_wf_def
        endpoint_plain_def new_endpoint_def usb_consts)
  moreover have "get_interface_alternate two_keyboards 0 0 = Inr (Some hs0)"
    by (simp add: get_interface_alternate_def two_keyboards_def igroup_get_def hs0_def)
  moreover have "\<forall>g. Some g \<in> set (cf_groups two_keyboards) \<longrightarrow> ig_alternateCount g = 1"
    by (auto simp: two_keyboards_def)
  ultimately show ?thesis
    by (subst high_speed_pairing [OF two_keyboards_plain])
      (auto simp: two_keyboards_def group_ifaces_def hs0_def pair_up_def)
qed

text \<open>A wait for a packet that is still being sent when the time is over releases the packet's
  buffer although the transfer goes on, and when \<open>aio_return\<close> answers 0 then the packet is reported as
  sent. Without a time limit the same wait answers that the packet is not sent and changes nothing.\<close>

theorem timed_out_send:
  assumes "endpoint AND 0x80 \<noteq> 0" "length (g_in g) = 16"
    and "g_in g ! gadget_number endpoint = Some aio" "aio_buf aio = Some dat"
    and "g_in_active g ! gadget_number endpoint"
    and "ae_error env = EINPROGRESS" "ae_suspend_fails env" "timeout \<noteq> 0"
  shows "g_in (snd (gadget_send_wait_complete endpoint timeout env g)) ! gadget_number endpoint =
           Some (aio\<lparr>aio_buf := None, aio_nbytes := 0\<rparr>) \<and>
         (fst (gadget_send_wait_complete endpoint timeout env g) \<longleftrightarrow> ae_return env \<noteq> -1) \<and>
         gadget_send_wait_complete endpoint 0 env g = (False, g)"
proof -
  have "gadget_number endpoint < 16"
  proof -
    have "endpoint AND 0x0f \<le> 0x0f" by (rule word_and_le1)
    then show ?thesis by (simp add: gadget_number_def word_le_nat_alt)
  qed
  moreover have "endpoint \<noteq> 0" using assms(1) by auto
  ultimately show ?thesis
    using assms by (simp add: gadget_send_wait_complete_def Let_def EINPROGRESS_def)
qed

theorem timed_out_send_witness:
  "fst (gadget_send_wait_complete 0x81 500
      \<lparr>ae_error = EINPROGRESS, ae_suspend_fails = True, ae_error_after = EINPROGRESS, ae_return = 0\<rparr>
      (new_gadget\<lparr>g_in := (replicate 16 None)[1 :=
          Some \<lparr>aio_fildes = 5, aio_buf = Some [1, 2], aio_nbytes = 2\<rparr>],
        g_in_active := (replicate 16 False)[1 := True]\<rparr>))"
  using timed_out_send [of "0x81" "new_gadget\<lparr>g_in := (replicate 16 None)[1 :=
          Some \<lparr>aio_fildes = 5, aio_buf = Some [1, 2], aio_nbytes = 2\<rparr>],
        g_in_active := (replicate 16 False)[1 := True]\<rparr>"
      "\<lparr>aio_fildes = 5, aio_buf = Some [1, 2], aio_nbytes = 2\<rparr>" "[1, 2]"
      "\<lparr>ae_error = EINPROGRESS, ae_suspend_fails = True, ae_error_after = EINPROGRESS, ae_return = 0\<rparr>"
      500]
  by (simp add: gadget_number_def)

lemma gadget_number_less [simp]: "gadget_number e < 16"
proof -
  have "e AND 0x0f \<le> 0x0f" by (rule word_and_le1)
  then show ?thesis by (simp add: gadget_number_def word_le_nat_alt)
qed

text \<open>The entries of the two tables after the endpoints \<open>ps\<close> have been opened.\<close>

definition opened_in :: "(endpoint_descriptor \<times> endpoint_descriptor) list \<Rightarrow> nat \<Rightarrow> bool" where
  "opened_in ps n \<longleftrightarrow> (\<exists>(f, h)\<in>set ps. ep_bEndpointAddress f AND 0x80 \<noteq> 0 \<and>
     gadget_number (ep_bEndpointAddress f) = n)"

definition opened_out ::
  "bool \<Rightarrow> (endpoint_descriptor \<times> endpoint_descriptor) list \<Rightarrow> nat \<Rightarrow> nat \<Rightarrow> bool" where
  "opened_out hs ps n len \<longleftrightarrow> (\<exists>(f, h)\<in>set ps. ep_bEndpointAddress f AND 0x80 = 0 \<and>
     gadget_number (ep_bEndpointAddress f) = n \<and>
     len = unat (ep_wMaxPacketSize (if hs then h else f)))"

lemma open_pairs_exact:
  assumes "\<forall>(f, h)\<in>set ps. endpoint_plain f \<and> endpoint_plain h \<and>
      gadget_number (ep_bEndpointAddress f) \<noteq> 0 \<and> fds f \<ge> 0 \<and> rcs f = 0"
    and "length (g_in g) = 16" "length (g_out g) = 16"
  shows "\<exists>g'. open_pairs hs fds rcs ps g =
      Inr (map (\<lambda>(f, h). [1, 0, 0, 0] @ endpoint_bytes f @ endpoint_bytes h) ps, g') \<and>
    (\<forall>n<16. (g_in g' ! n \<noteq> None) = (g_in g ! n \<noteq> None \<or> opened_in ps n)) \<and>
    (\<forall>n<16. g_out g' ! n = g_out g ! n \<or>
       (\<exists>aio. g_out g' ! n = Some aio \<and> opened_out hs ps n (aio_nbytes aio))) \<and>
    (\<forall>n<16. (\<exists>len. opened_out hs ps n len) \<longrightarrow> g_out g' ! n \<noteq> None)"
  using assms
proof (induction ps arbitrary: g)
  case Nil
  then show ?case by (simp add: opened_in_def opened_out_def)
next
  case (Cons p ps)
  obtain f h where p: "p = (f, h)" by (cases p)
  define g1 where "g1 = place_aio hs (fds f) (rcs f) (f, h) g"
  have f: "endpoint_plain f" "endpoint_plain h" "gadget_number (ep_bEndpointAddress f) \<noteq> 0"
    "0 \<le> fds f" "rcs f = 0" using Cons.prems(1) by (auto simp: p)
  have len: "length (g_in g1) = 16" "length (g_out g1) = 16"
    using Cons.prems(2,3) by (simp_all add: g1_def place_aio_def Let_def)
  have in1: "(g_in g1 ! n \<noteq> None) = (g_in g ! n \<noteq> None \<or> opened_in [p] n)" if "n < 16" for n
    using that Cons.prems(2) f
    by (auto simp: g1_def place_aio_def Let_def opened_in_def p nth_list_update)
  have out1: "g_out g1 ! n = g_out g ! n \<and> \<not> (\<exists>len. opened_out hs [p] n len) \<or>
      (\<exists>aio. g_out g1 ! n = Some aio \<and> opened_out hs [p] n (aio_nbytes aio))" if "n < 16" for n
    using that Cons.prems(3) f
    by (auto simp: g1_def place_aio_def Let_def opened_out_def p nth_list_update)
  have cons: "opened_in (p # ps) n = (opened_in [p] n \<or> opened_in ps n)"
    "opened_out hs (p # ps) n len = (opened_out hs [p] n len \<or> opened_out hs ps n len)" for n len
    by (auto simp: opened_in_def opened_out_def)
  obtain g' where g': "open_pairs hs fds rcs ps g1 =
      Inr (map (\<lambda>(f, h). [1, 0, 0, 0] @ endpoint_bytes f @ endpoint_bytes h) ps, g')"
    "\<forall>n<16. (g_in g' ! n \<noteq> None) = (g_in g1 ! n \<noteq> None \<or> opened_in ps n)"
    "\<forall>n<16. g_out g' ! n = g_out g1 ! n \<or>
       (\<exists>aio. g_out g' ! n = Some aio \<and> opened_out hs ps n (aio_nbytes aio))"
    "\<forall>n<16. (\<exists>len. opened_out hs ps n len) \<longrightarrow> g_out g' ! n \<noteq> None"
    using Cons.IH [OF _ len] Cons.prems(1) by auto
  have "open_pairs hs fds rcs (p # ps) g =
      Inr (map (\<lambda>(f, h). [1, 0, 0, 0] @ endpoint_bytes f @ endpoint_bytes h) (p # ps), g')"
    using f g'(1) by (simp add: p g1_def endpoint_config_def endpoint_full_plain)
  moreover have "\<forall>n<16. (g_in g' ! n \<noteq> None) = (g_in g ! n \<noteq> None \<or> opened_in (p # ps) n)"
    using g'(2) in1 by (simp add: cons(1))
  moreover have "\<forall>n<16. g_out g' ! n = g_out g ! n \<or>
       (\<exists>aio. g_out g' ! n = Some aio \<and> opened_out hs (p # ps) n (aio_nbytes aio))"
    using g'(3) out1 unfolding cons(2) by metis
  moreover have "\<forall>n<16. (\<exists>len. opened_out hs (p # ps) n len) \<longrightarrow> g_out g' ! n \<noteq> None"
    using g'(3,4) out1 unfolding cons(2) by (metis option.distinct(1))
  ultimately show ?case by blast
qed



end
