(* ===== verification/Log_Filters.thy ===== *)
theory Log_Filters
  imports Packets Hex_String_Model
begin

text \<open>
  The filters that only record what passes (\<open>src/Plugins/Filters\<close>): the key logger, which decodes the
  reports of a boot keyboard, the stream log, which writes hex dumps, and the capture of packets in
  pcap records. What they write is the result of the filter; the packets are left as they are.
\<close>

section \<open>Key logger\<close>

text \<open>The tables of key names as the constructor fills them. The arrays have \<open>0x66\<close> pointers, and
  those that the constructor does not assign have no value.\<close>

definition keyMap :: "(nat \<times> string) list" where
  "keyMap =
     [(0x04, ''a''), (0x05, ''b''), (0x06, ''c''), (0x07, ''d''), (0x08, ''e''), (0x09, ''f''),
      (0x0a, ''g''), (0x0b, ''h''), (0x0c, ''i''), (0x0d, ''j''), (0x0e, ''k''), (0x0f, ''l''),
      (0x10, ''m''), (0x11, ''n''), (0x12, ''o''), (0x13, ''p''), (0x14, ''q''), (0x15, ''r''),
      (0x16, ''s''), (0x17, ''t''), (0x18, ''u''), (0x19, ''v''), (0x1a, ''w''), (0x1b, ''x''),
      (0x1c, ''y''), (0x1d, ''z''), (0x1e, ''1''), (0x1f, ''2''), (0x20, ''3''), (0x21, ''4''),
      (0x22, ''5''), (0x23, ''6''), (0x24, ''7''), (0x25, ''8''), (0x26, ''9''), (0x27, ''0''),
      (0x28, [CHR 0x0A]), (0x29, ''{ESC}''), (0x2a, [CHR 0x08, CHR 0x20, CHR 0x08]),
      (0x2b, [CHR 0x09]), (0x2c, '' ''), (0x2d, ''-''), (0x2e, ''=''), (0x2f, ''[''),
      (0x30, '']''), (0x31, [CHR 0x5C]), (0x33, '';''), (0x34, [CHR 0x27]), (0x35, [CHR 0x60]),
      (0x36, '',''), (0x37, ''.''), (0x38, ''/''), (0x39, ''{CAPS LOCK}''), (0x3a, ''{F1}''),
      (0x3b, ''{F2}''), (0x3c, ''{F3}''), (0x3d, ''{F4}''), (0x3e, ''{F5}''), (0x3f, ''{F6}''),
      (0x40, ''{F7}''), (0x41, ''{F8}''), (0x42, ''{F9}''), (0x43, ''{F10}''), (0x44, ''{F11}''),
      (0x45, ''{F12}''), (0x46, ''{PRT SCR}''), (0x47, ''{SCR LOCK}''), (0x48, ''{PAUSE}''),
      (0x49, ''{INSERT}''), (0x4a, ''{HOME}''), (0x4b, ''{PG UP}''), (0x4c, ''{DELETE}''),
      (0x4d, ''{END}''), (0x4e, ''{PG DOWN}''),
      (0x4f, [CHR 0x1B, CHR ''['', CHR ''1'', CHR ''C'']),
      (0x50, [CHR 0x1B, CHR ''['', CHR ''1'', CHR ''D'']),
      (0x51, [CHR 0x1B, CHR ''['', CHR ''1'', CHR ''B'']),
      (0x52, [CHR 0x1B, CHR ''['', CHR ''1'', CHR ''A'']), (0x53, ''{NUM LOCK}''), (0x54, ''/''),
      (0x55, ''*''), (0x56, ''-''), (0x57, ''+''), (0x59, ''1''), (0x5a, ''2''), (0x5b, ''3''),
      (0x5c, ''4''), (0x5d, ''5''), (0x5e, ''6''), (0x5f, ''7''), (0x60, ''8''), (0x61, ''9''),
      (0x62, ''0''), (0x64, [CHR 0x5C]), (0x65, ''{PROPERTIES}'')]"

definition shiftKeyMap :: "(nat \<times> string) list" where
  "shiftKeyMap =
     [(0x04, ''A''), (0x05, ''B''), (0x06, ''C''), (0x07, ''D''), (0x08, ''E''), (0x09, ''F''),
      (0x0a, ''G''), (0x0b, ''H''), (0x0c, ''I''), (0x0d, ''J''), (0x0e, ''K''), (0x0f, ''L''),
      (0x10, ''M''), (0x11, ''N''), (0x12, ''O''), (0x13, ''P''), (0x14, ''Q''), (0x15, ''R''),
      (0x16, ''S''), (0x17, ''T''), (0x18, ''U''), (0x19, ''V''), (0x1a, ''W''), (0x1b, ''X''),
      (0x1c, ''Y''), (0x1d, ''Z''), (0x1e, ''!''), (0x1f, ''@''), (0x20, ''#''), (0x21, ''$''),
      (0x22, ''%''), (0x23, ''^''), (0x24, ''&''), (0x25, ''*''), (0x26, ''(''), (0x27, '')''),
      (0x2d, ''_''), (0x2e, ''+''), (0x2f, ''{''), (0x30, ''}''), (0x31, ''|''), (0x33, '':''),
      (0x34, [CHR 0x22]), (0x35, ''~''), (0x36, ''<''), (0x37, ''>''), (0x38, ''?''),
      (0x64, ''|'')]"

definition key_name :: "(nat \<times> string) list \<Rightarrow> u8 \<Rightarrow> string res" where
  "key_name table keyCode =
     (if unat keyCode \<ge> 0x66 then Inl OutOfBounds
      else (case map_of table (unat keyCode) of None \<Rightarrow> Inl Uninit | Some name \<Rightarrow> Inr name))"

definition colour :: "string \<Rightarrow> string \<Rightarrow> string" where
  "colour number name =
     [CHR 0x1B] @ ''[0;'' @ number @ ''m'' @ name @ [CHR 0x1B] @ ''[0m''"

definition COL_RED :: string where "COL_RED = ''31''"
definition COL_BLUE :: string where "COL_BLUE = ''34''"

text \<open>A name in braces is printed in blue.\<close>

definition print_key :: "string \<Rightarrow> string" where
  "print_key name =
     (if take 1 name = ''{'' \<and> length name > 1 then colour COL_BLUE name else name)"

text \<open>The names of the modifier bits that are set, those of the shift keys only when \<open>shifts\<close>.\<close>

definition mod_names :: "(u8 \<times> bool \<times> string) list" where
  "mod_names =
     [(0x01, False, ''{LCTRL}''), (0x02, True, ''{LSHIFT}''), (0x04, False, ''{LALT}''),
      (0x08, False, ''{LWIN}''), (0x10, False, ''{RCTRL}''), (0x20, True, ''{RSHIFT}''),
      (0x40, False, ''{RALT}''), (0x80, False, ''{RWIN}'')]"

definition print_mods :: "string \<Rightarrow> bool \<Rightarrow> u8 \<Rightarrow> string" where
  "print_mods number shifts mods =
     concat (map (\<lambda>(bit, shift, name).
       if mods AND bit \<noteq> 0 \<and> (shift \<longrightarrow> shifts) then colour number name else []) mod_names)"

definition key_pressed :: "u8 \<Rightarrow> u8 \<Rightarrow> string res" where
  "key_pressed keyCode mods =
     (if keyCode \<noteq> 0 then
        and_then (key_name (if mods AND 0x22 \<noteq> 0 then shiftKeyMap else keyMap) keyCode) (\<lambda>name.
          Inr (print_mods COL_RED False mods @ print_key name))
      else Inr (print_mods COL_BLUE True mods))"

text \<open>\<open>lastReport\<close> has no value before the first report. Its elements are of type \<open>char\<close>, which may be
  signed, while the bytes of the packet are not: a byte above 127 is then equal to none.\<close>

record key_logger =
  kl_lastReport :: "bytes option"
  kl_signed_char :: bool

definition same_key :: "bool \<Rightarrow> u8 \<Rightarrow> u8 \<Rightarrow> bool" where
  "same_key char_signed k old \<longleftrightarrow> (if char_signed then uint k = sint old else k = old)"

text \<open>The loop over the six keys of a report: the text, and whether a key was new.\<close>

fun log_keys :: "bool \<Rightarrow> bytes \<Rightarrow> u8 \<Rightarrow> bytes \<Rightarrow> (string \<times> bool) res" where
  "log_keys char_signed prev mods [] = Inr ([], False)"
| "log_keys char_signed prev mods (k # ks) =
     (if \<exists>old\<in>set prev. same_key char_signed k old then log_keys char_signed prev mods ks
      else and_then (key_pressed k mods) (\<lambda>out.
        and_then (log_keys char_signed prev mods ks) (\<lambda>(rest, _). Inr (out @ rest, True))))"

definition key_logger_filter :: "key_logger \<Rightarrow> packet \<Rightarrow> (string \<times> key_logger) res" where
  "key_logger_filter kl p =
     and_then (deref (pk_data p)) (\<lambda>d.
       and_then (first_n d 8) (\<lambda>report.
         (case kl_lastReport kl of None \<Rightarrow> Inl Uninit
          | Some prev \<Rightarrow>
              and_then (log_keys (kl_signed_char kl) prev (report ! 0) (drop 2 report)) (\<lambda>(out, pressed).
                and_then (if pressed then Inr []
                          else key_pressed 0 (report ! 0 AND NOT (prev ! 0))) (\<lambda>mods.
                  Inr (out @ mods, kl\<lparr>kl_lastReport := Some report\<rparr>))))))"

section \<open>Stream log\<close>

text \<open>The characters of a C string up to its terminator.\<close>

fun c_string :: "buffer \<Rightarrow> bytes res" where
  "c_string [] = Inl OutOfBounds"
| "c_string (None # bs) = Inl Uninit"
| "c_string (Some b # bs) = (if b = 0 then Inr [] else and_then (c_string bs) (\<lambda>r. Inr (b # r)))"

fun decimal :: "nat \<Rightarrow> bytes" where
  "decimal n = (if n < 10 then [0x30 + of_nat n] else decimal (n div 10) @ [0x30 + of_nat (n mod 10)])"

definition dump :: "bytes \<Rightarrow> bytes res" where
  "dump bs = and_then (hex_string bs) c_string"

definition stream_log_packet :: "packet \<Rightarrow> bytes res" where
  "stream_log_packet p =
     (if unat (pk_wLength p) \<le> 64 then
        and_then (if pk_wLength p = 0 then Inr [] else
                    and_then (deref (pk_data p)) (\<lambda>d. first_n d (unat (pk_wLength p)))) (\<lambda>d.
          and_then (dump d) (\<lambda>out.
            Inr (hex2 (pk_bEndpoint p) @ ascii ''['' @ decimal (unat (pk_wLength p)) @ ascii '']: '' @ out
                 @ [0x0A])))
      else Inr [])"

definition stream_log_setup :: "setup_packet \<Rightarrow> bytes res" where
  "stream_log_setup p =
     and_then (dump (ctrl_bytes (sp_ctrl_req p))) (\<lambda>setup.
       (case pk_data p of
          None \<Rightarrow> Inr (ascii ''['' @ setup @ ascii '']'' @ [0x0A])
        | Some d \<Rightarrow>
            if cr_wLength (sp_ctrl_req p) = 0 then Inr (ascii ''['' @ setup @ ascii '']'' @ [0x0A])
            else and_then (first_n d (unat (cr_wLength (sp_ctrl_req p)))) (\<lambda>d.
              and_then (dump d) (\<lambda>out. Inr (ascii ''['' @ setup @ ascii '']: '' @ out @ [0x0A])))))"

section \<open>Packet capture\<close>

text \<open>A record of the capture: the header fields that the code sets and the copied data. The header of a
  packet leaves the fields of \<open>setup\<close> without a value. The time comes from the system.\<close>

record pcap_record =
  pr_id :: nat
  pr_urb_complete :: bool
  pr_transfer_type :: u8
  pr_endpoint_number :: u8
  pr_device_address :: u8
  pr_bus_id :: u16
  pr_setup_flag :: u8
  pr_data_flag :: u8
  pr_time :: "nat \<times> nat"
  pr_status :: int
  pr_urb_len :: u32
  pr_data_len :: u32
  pr_setup :: "usb_ctrlrequest option"
  pr_data :: bytes

text \<open>What both functions have in common, with the packet's block and the length it announces.\<close>

definition pcap_log ::
  "nat \<times> nat \<Rightarrow> u8 \<Rightarrow> u8 \<Rightarrow> u8 \<Rightarrow> usb_ctrlrequest option \<Rightarrow> bytes option \<Rightarrow> u16 \<Rightarrow> nat \<Rightarrow>
   (pcap_record \<times> nat) res" where
  "pcap_log ts transfer_type setup_flag endpoint setup dat len pkt_count =
     (let data_len = (if dat = None then 0 else unat len) in
      and_then (case dat of None \<Rightarrow> Inr [] | Some d \<Rightarrow> first_n d data_len) (\<lambda>d.
        Inr (\<lparr>pr_id = pkt_count + 1, pr_urb_complete = (data_len \<noteq> 0),
              pr_transfer_type = transfer_type, pr_endpoint_number = endpoint,
              pr_device_address = 1, pr_bus_id = 1, pr_setup_flag = setup_flag, pr_data_flag = 1,
              pr_time = ts, pr_status = 0, pr_urb_len = 0, pr_data_len = of_nat data_len,
              pr_setup = setup, pr_data = d\<rparr>, pkt_count + 1)))"

definition pcap_filter_packet :: "nat \<times> nat \<Rightarrow> packet \<Rightarrow> nat \<Rightarrow> (pcap_record \<times> nat) res" where
  "pcap_filter_packet ts p =
     pcap_log ts 3 1 (pk_bEndpoint p) None (pk_data p) (pk_wLength p)"

definition pcap_filter_setup_packet ::
  "nat \<times> nat \<Rightarrow> setup_packet \<Rightarrow> nat \<Rightarrow> (pcap_record \<times> nat) res" where
  "pcap_filter_setup_packet ts p =
     pcap_log ts 2 0 0 (Some (sp_ctrl_req p)) (pk_data p) (cr_wLength (sp_ctrl_req p))"

section \<open>Properties of the key logger\<close>

lemma same_key_small: "unat k < 128 \<Longrightarrow> same_key b k old \<longleftrightarrow> k = old"
proof -
  assume "unat k < 128"
  then have "int (unat k) < 128" by linarith
  then have "uint k < 2 ^ 7" by (simp only: of_nat_unat) simp
  moreover have "- (2 ^ 7) \<le> uint k" by (rule order_trans [OF _ uint_ge_0]) simp
  ultimately have "signed_take_bit 7 (uint k) = uint k" by (intro signed_take_bit_int_eq_self)
  then have k: "sint k = uint k" unfolding sint_uint by simp
  have "uint k = sint old \<longleftrightarrow> k = old"
  proof
    assume "uint k = sint old"
    then have "word_of_int (uint k) = (word_of_int (sint old) :: u8)" by simp
    then show "k = old" by simp
  qed (use k in auto)
  then show ?thesis by (simp add: same_key_def)
qed

lemma log_keys_exact:
  assumes "\<forall>k\<in>set ks. unat k < 128" "\<forall>k\<in>set ks. k \<notin> set prev \<longrightarrow> key_pressed k mods = Inr (out k)"
  shows "log_keys b prev mods ks =
    Inr (concat (map out (filter (\<lambda>k. k \<notin> set prev) ks)), \<exists>k\<in>set ks. k \<notin> set prev)"
  using assms
proof (induction ks)
  case (Cons k ks)
  then have "(\<exists>old\<in>set prev. same_key b k old) \<longleftrightarrow> k \<in> set prev"
    by (auto simp: same_key_small)
  with Cons show ?case by auto
qed simp

lemma key_pressed_fault:
  "(\<exists>e. key_pressed k mods = Inl e) \<longleftrightarrow>
     k \<noteq> 0 \<and> (unat k \<ge> 0x66 \<or>
       map_of (if mods AND 0x22 \<noteq> 0 then shiftKeyMap else keyMap) (unat k) = None)"
  by (auto simp: key_pressed_def key_name_def and_then_def split: option.splits)

text \<open>The key logger writes, for every report of eight bytes whose key codes have a name, the names of
  exactly the keys that none of the eight bytes of the previous report equals, in the order of the
  report, or when there is none the modifiers that are new. The first two bytes of the previous
  report, its modifiers and a reserved one, count as keys: after a report with the left Alt key
  (4) the key a (4) is not logged.\<close>

theorem key_log_exact:
  assumes "pk_data p = Some d" "length d = 8" "kl_lastReport kl = Some prev" "length prev = 8"
    and "\<forall>k\<in>set (drop 2 d). k \<noteq> 0 \<longrightarrow> unat k < 0x66 \<and>
      map_of (if d ! 0 AND 0x22 \<noteq> 0 then shiftKeyMap else keyMap) (unat k) \<noteq> None"
  shows "\<exists>out. (\<forall>k\<in>set (drop 2 d). key_pressed k (d ! 0) = Inr (out k)) \<and>
    key_logger_filter kl p =
      Inr (if \<exists>k\<in>set (drop 2 d). k \<notin> set prev
           then concat (map out (filter (\<lambda>k. k \<notin> set prev) (drop 2 d)))
           else print_mods COL_BLUE True (d ! 0 AND NOT (prev ! 0)),
           kl\<lparr>kl_lastReport := Some d\<rparr>)"
proof -
  have "\<forall>k\<in>set (drop 2 d). \<exists>t. key_pressed k (d ! 0) = Inr t"
  proof
    fix k assume "k \<in> set (drop 2 d)"
    then have "\<not> (\<exists>e. key_pressed k (d ! 0) = Inl e)"
      using assms(5) unfolding key_pressed_fault by fastforce
    then show "\<exists>t. key_pressed k (d ! 0) = Inr t" by (cases "key_pressed k (d ! 0)") auto
  qed
  then obtain out where out: "\<forall>k\<in>set (drop 2 d). key_pressed k (d ! 0) = Inr (out k)"
    by metis
  have "\<forall>k\<in>set (drop 2 d). unat k < 128"
  proof
    fix k assume "k \<in> set (drop 2 d)"
    then show "unat k < 128" using assms(5) by (cases "k = 0") fastforce+
  qed
  from log_keys_exact [OF this, of prev "d ! 0" out] out
  have "key_logger_filter kl p =
      Inr (if \<exists>k\<in>set (drop 2 d). k \<notin> set prev
           then concat (map out (filter (\<lambda>k. k \<notin> set prev) (drop 2 d)))
           else print_mods COL_BLUE True (d ! 0 AND NOT (prev ! 0)),
           kl\<lparr>kl_lastReport := Some d\<rparr>)"
    using assms(1-3) by (auto simp: key_logger_filter_def key_pressed_def)
  with out show ?thesis by blast
qed

theorem key_log_exact_witness:
  "key_logger_filter \<lparr>kl_lastReport = Some [4, 0, 0, 0, 0, 0, 0, 0], kl_signed_char = True\<rparr>
     (new_packet 0x81 (Some [0, 0, 4, 5, 0, 0, 0, 0]) 8) =
   Inr (''b'', \<lparr>kl_lastReport = Some [0, 0, 4, 5, 0, 0, 0, 0], kl_signed_char = True\<rparr>)"
proof -
  have "\<forall>k\<in>set (drop 2 [0, 0, 4, 5, 0, 0, 0, 0 :: u8]). k \<noteq> 0 \<longrightarrow> unat k < 0x66 \<and>
      map_of (if ([0, 0, 4, 5, 0, 0, 0, 0] ! 0 :: u8) AND 0x22 \<noteq> 0 then shiftKeyMap else keyMap) (unat k) \<noteq> None"
    by (simp add: keyMap_def)
  from key_log_exact [OF _ _ _ _ this, of "new_packet 0x81 (Some [0, 0, 4, 5, 0, 0, 0, 0]) 8"
      "\<lparr>kl_lastReport = Some [4, 0, 0, 0, 0, 0, 0, 0], kl_signed_char = True\<rparr>" "[4, 0, 0, 0, 0, 0, 0, 0]"]
  obtain out where "key_pressed 5 0 = Inr (out 5)"
    "key_logger_filter \<lparr>kl_lastReport = Some [4, 0, 0, 0, 0, 0, 0, 0], kl_signed_char = True\<rparr>
       (new_packet 0x81 (Some [0, 0, 4, 5, 0, 0, 0, 0]) 8) =
     Inr (out 5, \<lparr>kl_lastReport = Some [0, 0, 4, 5, 0, 0, 0, 0], kl_signed_char = True\<rparr>)"
    by (auto simp: new_packet_def)
  moreover have "key_pressed 5 0 = Inr ''b''" by code_simp
  ultimately show ?thesis by simp
qed

text \<open>A key faults the logger exactly when its code is not below the size of the tables or has no
  name in the one that applies: with a shift key the return key, for instance.\<close>

lemma shift_return_faults: "key_pressed 0x28 0x02 = Inl Uninit"
  by code_simp

section \<open>Properties of the stream log\<close>

lemma c_string_text: "\<forall>b\<in>set bs. b \<noteq> 0 \<Longrightarrow> c_string (map Some bs @ ps) = and_then (c_string ps) (\<lambda>r. Inr (bs @ r))"
  by (induction bs) (simp_all add: and_then_assoc and_then_def split: sum.split)

lemma hex_digit_nonzero: "n < 16 \<Longrightarrow> hex_digit n \<noteq> 0"
proof -
  assume "n < 16"
  then have "\<forall>n\<in>set [0..<16]. hex_digit n \<noteq> 0" "n \<in> set [0..<16]" by (code_simp, simp)
  then show ?thesis by blast
qed

lemma hex2_nonzero: "x \<in> set (hex2 b) \<Longrightarrow> x \<noteq> 0"
proof -
  have "unat b div 16 < 16" using unat_u8_less [of b] by (simp add: less_mult_imp_div_less del: unat_u8_less)
  then show "x \<in> set (hex2 b) \<Longrightarrow> x \<noteq> 0"
    using hex_digit_nonzero [of "unat b mod 16"] hex_digit_nonzero [of "unat b div 16"]
    by (auto simp: hex2_def)
qed

lemma dumps_nonzero: "\<forall>x\<in>set (narrow_dump bs). x \<noteq> 0" "\<forall>x\<in>set (wide_dump 32 0 bs). x \<noteq> 0"
  by (auto simp: narrow_dump_def wide_dump_def split: if_splits dest: hex2_nonzero)

lemma dump_eq:
  "bs \<noteq> [] \<Longrightarrow> dump bs =
     (if length bs \<le> 32 then Inr (narrow_dump bs)
      else if length bs mod 32 = 0 then Inl Uninit else Inr (wide_dump 32 0 bs))"
  using c_string_text [OF dumps_nonzero(1), of bs "[Some 0]"]
    c_string_text [OF dumps_nonzero(2), of bs] hex_string_spec [of bs]
  by (auto simp: dump_def)

text \<open>For a packet of up to 63 bytes the stream log writes a line with the endpoint, the length and the
  dump of the data; for one of 64 bytes, the size of a full bulk packet, it prints a character that
  was never written.\<close>

theorem stream_log_exact:
  assumes "packet_ok p" "pk_data p = Some d" "d \<noteq> []" "length d \<le> 64"
  shows "stream_log_packet p =
    (if length d = 64 then Inl Uninit
     else Inr (hex2 (pk_bEndpoint p) @ ascii ''['' @ decimal (length d) @ ascii '']: '' @
            (if length d \<le> 32 then narrow_dump d else wide_dump 32 0 d) @ [0x0A]))"
proof -
  have len: "unat (pk_wLength p) = length d" using assms(1,2) by (simp add: packet_ok_def)
  then have "pk_wLength p \<noteq> 0" using assms(3) by auto
  moreover have "length d mod 32 = 0 \<longleftrightarrow> length d = 64" if "length d > 32"
    using that assms(4) by presburger
  ultimately show ?thesis
    using assms(2,4) dump_eq [OF assms(3)] by (auto simp: stream_log_packet_def len simp del: decimal.simps)
qed

theorem stream_log_exact_witness:
  "stream_log_packet (new_packet 0x02 (Some (replicate 64 0xff)) 64) = Inl Uninit"
  by (subst stream_log_exact [of _ "replicate 64 0xff"])
    (simp_all add: packet_ok_def new_packet_def del: decimal.simps)

text \<open>The capture of a sequence of packets.\<close>

fun pcap_run :: "nat \<times> nat \<Rightarrow> packet list \<Rightarrow> nat \<Rightarrow> (pcap_record list \<times> nat) res" where
  "pcap_run ts [] n = Inr ([], n)"
| "pcap_run ts (p # ps) n =
     and_then (pcap_filter_packet ts p n) (\<lambda>(r, n). and_then (pcap_run ts ps n) (\<lambda>(rs, n).
       Inr (r # rs, n)))"

text \<open>The capture of packets numbers its records from 1 without a gap and stores the announced bytes
  of every packet, and it never fails for packets whose blocks have the bytes they announce. Every
  record says that it holds no data (\<open>data_flag\<close> is 1).\<close>

theorem pcap_records_exact:
  assumes "\<forall>p\<in>set ps. packet_ok p"
  shows "\<exists>rs. pcap_run ts ps n = Inr (rs, n + length ps) \<and>
    map pr_data rs = map (\<lambda>p. the (pk_data p)) ps \<and>
    map pr_id rs = [n + 1..<n + 1 + length ps] \<and>
    (\<forall>r\<in>set rs. pr_data_flag r = 1 \<and> pr_data_len r = of_nat (length (pr_data r)))"
  using assms
proof (induction ps arbitrary: n)
  case (Cons p ps)
  then obtain d where d: "pk_data p = Some d" "length d = unat (pk_wLength p)"
    by (auto simp: packet_ok_def)
  obtain rs where rs: "pcap_run ts ps (n + 1) = Inr (rs, n + 1 + length ps)"
    "map pr_data rs = map (\<lambda>p. the (pk_data p)) ps"
    "map pr_id rs = [n + 2..<n + 2 + length ps]"
    "\<forall>r\<in>set rs. pr_data_flag r = 1 \<and> pr_data_len r = of_nat (length (pr_data r))"
    using Cons.IH [of "n + 1"] Cons.prems by auto
  obtain r where r: "pcap_filter_packet ts p n = Inr (r, n + 1)" "pr_data r = d" "pr_id r = n + 1"
    "pr_data_flag r = 1" "pr_data_len r = of_nat (length d)"
    using d by (simp add: pcap_filter_packet_def pcap_log_def)
  have "[n + 1..<n + 1 + length (p # ps)] = (n + 1) # [n + 2..<n + 2 + length ps]"
    using upt_conv_Cons [of "n + 1" "n + 1 + length (p # ps)"] by simp
  then show ?case
    using r rs d(1) by (intro exI [of _ "r # rs"]) simp
qed simp

theorem pcap_records_exact_witness:
  "\<exists>rs. pcap_run (0, 0) [new_packet 1 (Some [5, 6]) 2, new_packet 0x81 (Some [7]) 1] 0 = Inr (rs, 2) \<and>
     map pr_data rs = [[5, 6], [7]]"
  using pcap_records_exact [of "[new_packet 1 (Some [5, 6]) 2, new_packet 0x81 (Some [7]) 1]" "(0, 0)" 0]
  by (auto simp: packet_ok_def new_packet_def)

end
