(* ===== verification/Injector_Model.thy ===== *)
theory Injector_Model
  imports Plugin_Filters
begin

text \<open>
  The injectors' common part (\<open>src/lib/Injector.cpp\<close>): the queues of the endpoints and the thread
  \<open>listen\<close>, one round of whose loop is a step on its local state; and the part of
  \<open>Injector_UDPHID\<close> (\<open>src/Plugins/Injectors\<close>) that goes beyond \<open>Injector_UDP\<close>. What the
  descriptors and message queues are ready for in a round is a parameter.
\<close>

section \<open>State\<close>

text \<open>A queue descriptor; 0 means that the endpoint has none.\<close>

record injector =
  inj_inQueues :: "int list"
  inj_outQueues :: "int list"

definition new_injector :: injector where
  "new_injector = \<lparr>inj_inQueues = replicate 16 0, inj_outQueues = replicate 16 0\<rparr>"

definition inj_set_queue :: "u8 \<Rightarrow> int \<Rightarrow> injector \<Rightarrow> injector" where
  "inj_set_queue epAddress queue ij =
     (if epAddress AND 0x80 \<noteq> 0
      then ij\<lparr>inj_inQueues := (inj_inQueues ij)[unat (epAddress AND 0x0f) := queue]\<rparr>
      else ij\<lparr>inj_outQueues := (inj_outQueues ij)[unat (epAddress AND 0x0f) := queue]\<rparr>)"

text \<open>An entry of \<open>poll_list\<close> and \<open>poll_buffer\<close> past those of the descriptors that are read. The
  blocks grow by \<open>realloc\<close>, and \<open>revents\<close> of a new entry is not assigned.\<close>

record poll_slot =
  ps_queue :: int
  ps_packet :: "packet option"
  ps_pollout :: bool
  ps_revents :: "bool option"

text \<open>The local variables of \<open>listen\<close>; the two tables of indices are members, which it alone uses.
  The slots start at index \<open>li_readcount\<close> of the code's arrays.\<close>

record listener =
  li_setup_wait :: bool
  li_readcount :: nat
  li_slots :: "poll_slot list"
  li_inPollIndex :: "nat list"
  li_outPollIndex :: "nat list"

section \<open>The start of the thread\<close>

text \<open>The entries of \<open>poll_list\<close> (descriptor and whether \<open>POLLIN\<close> is asked for) after the loop that
  fills them, whose body increments \<open>i\<close> as its header does; the others are zero from \<open>calloc\<close>.\<close>

fun fill_poll :: "int list \<Rightarrow> nat \<Rightarrow> (int \<times> bool) list \<Rightarrow> (int \<times> bool) list" where
  "fill_poll [] i poll_list = poll_list"
| "fill_poll [fd] i poll_list = poll_list[i := (fd, True)]"
| "fill_poll (fd # _ # fds) i poll_list = fill_poll fds (i + 2) (poll_list[i := (fd, True)])"

definition poll_entries :: "int list \<Rightarrow> (int \<times> bool) list" where
  "poll_entries fdlist = fill_poll fdlist 0 (replicate (length fdlist) (0, False))"

definition new_listener :: "int list \<Rightarrow> listener" where
  "new_listener fdlist =
     \<lparr>li_setup_wait = False, li_readcount = length fdlist, li_slots = [],
      li_inPollIndex = replicate 16 0, li_outPollIndex = replicate 16 0\<rparr>"

section \<open>One round\<close>

text \<open>What a round does: a message to a queue (of a packet, of the bytes of a buffered packet, or of a
  setup packet), the calls of \<open>full_pipe\<close>, and the answers to a setup packet.\<close>

datatype inj_act =
  SendPacket int packet | SendBuffered int packet | SendSetup int setup_packet
  | FullPipe packet | FullPipeSetup setup_packet
  | SetupData "bytes option" u16 | SetupAck | SetupStall

text \<open>What is ready: the answer on the setup queue; whether \<open>poll\<close> of the descriptors that are read
  answers at all, and for each ready one what \<open>get_packets\<close> gives; which queues can take a
  message.\<close>

record round =
  rd_setup :: "setup_packet option"
  rd_poll :: bool
  rd_got :: "injected option list"
  rd_writable :: "int \<Rightarrow> bool"

text \<open>The loop over the slots. The call of \<open>poll\<close> does not cover them, so it leaves their \<open>revents\<close>
  alone.\<close>

fun flush_slots :: "poll_slot list \<Rightarrow> (inj_act list \<times> poll_slot list) res" where
  "flush_slots [] = Inr ([], [])"
| "flush_slots (s # ss) =
     (case ps_revents s of
        None \<Rightarrow> Inl Uninit
      | Some ready \<Rightarrow>
          and_then (flush_slots ss) (\<lambda>(acts, ss').
            if \<not> ready then Inr (acts, s # ss')
            else (case ps_packet s of
                    Some p \<Rightarrow> Inr (SendBuffered (ps_queue s) p # acts,
                                s\<lparr>ps_revents := Some False, ps_packet := None\<rparr> # ss')
                  | None \<Rightarrow> Inr (acts, s\<lparr>ps_revents := Some False, ps_pollout := False\<rparr> # ss'))))"

definition inj_queue :: "injector \<Rightarrow> u8 \<Rightarrow> int" where
  "inj_queue ij ep =
     (if ep AND 0x80 \<noteq> 0 then inj_inQueues ij ! unat (ep AND 0x0f)
      else inj_outQueues ij ! unat (ep AND 0x0f))"

text \<open>A packet whose queue cannot take it is kept in the slot of its endpoint.\<close>

definition buffer_packet :: "int \<Rightarrow> packet \<Rightarrow> listener \<Rightarrow> (inj_act list \<times> listener) res" where
  "buffer_packet queue p li =
     (let ep = pk_bEndpoint p; n = unat (ep AND 0x0f);
          pollIndex = (if ep AND 0x80 \<noteq> 0 then li_inPollIndex li ! n else li_outPollIndex li ! n) in
      if pollIndex = 0 then
        (let new = li_readcount li + length (li_slots li);
             li1 = li\<lparr>li_slots := li_slots li
               @ [\<lparr>ps_queue = queue, ps_packet = Some p, ps_pollout = True, ps_revents = None\<rparr>]\<rparr> in
         Inr ([], if ep AND 0x80 \<noteq> 0 then li1\<lparr>li_inPollIndex := (li_inPollIndex li)[n := new]\<rparr>
                  else li1\<lparr>li_outPollIndex := (li_outPollIndex li)[n := new]\<rparr>))
      else and_then (index (li_slots li) (pollIndex - li_readcount li)) (\<lambda>s.
        if ps_packet s \<noteq> None then Inr ([FullPipe p], li)
        else Inr ([], li\<lparr>li_slots := (li_slots li)[pollIndex - li_readcount li :=
               s\<lparr>ps_packet := Some p, ps_pollout := True\<rparr>]\<rparr>)))"

definition handle_injected ::
  "injector \<Rightarrow> (int \<Rightarrow> bool) \<Rightarrow> injected option \<Rightarrow> listener \<Rightarrow> (inj_act list \<times> listener) res" where
  "handle_injected ij writable e li =
     (case e of
        None \<Rightarrow> Inr ([], li)
      | Some (InjSetup s) \<Rightarrow>
          (let queue = inj_outQueues ij ! 0 in
           if queue \<noteq> 0 then
             (if writable queue then Inr ([SendSetup queue s], li\<lparr>li_setup_wait := True\<rparr>)
              else Inr ([], li))
           else Inr ([FullPipeSetup s], li\<lparr>li_setup_wait := True\<rparr>))
      | Some (InjPacket p) \<Rightarrow>
          (let queue = inj_queue ij (pk_bEndpoint p) in
           if queue \<noteq> 0 then
             (if writable queue then Inr ([SendPacket queue p], li) else buffer_packet queue p li)
           else Inr ([FullPipe p], li)))"

fun handle_all ::
  "injector \<Rightarrow> (int \<Rightarrow> bool) \<Rightarrow> injected option list \<Rightarrow> listener \<Rightarrow> (inj_act list \<times> listener) res" where
  "handle_all ij writable [] li = Inr ([], li)"
| "handle_all ij writable (e # es) li =
     and_then (handle_injected ij writable e li) (\<lambda>(acts, li).
       and_then (handle_all ij writable es li) (\<lambda>(acts', li). Inr (acts @ acts', li)))"

definition listen_step :: "injector \<Rightarrow> round \<Rightarrow> listener \<Rightarrow> (inj_act list \<times> listener) res" where
  "listen_step ij rd li =
     (if li_setup_wait li then
        (case rd_setup rd of
           None \<Rightarrow> Inr ([], li)
         | Some s \<Rightarrow>
             Inr ([if sp_transmit_in s then
                     (if cr_wLength (sp_ctrl_req s) \<noteq> 0
                      then SetupData (pk_data s) (cr_wLength (sp_ctrl_req s)) else SetupAck)
                   else SetupStall], li))
      else if \<not> rd_poll rd then Inr ([], li)
      else and_then (flush_slots (li_slots li)) (\<lambda>(acts, slots).
        and_then (handle_all ij (rd_writable rd) (rd_got rd) (li\<lparr>li_slots := slots\<rparr>)) (\<lambda>(acts', li).
          Inr (acts @ acts', li))))"

fun listen_run :: "injector \<Rightarrow> round list \<Rightarrow> listener \<Rightarrow> (inj_act list \<times> listener) res" where
  "listen_run ij [] li = Inr ([], li)"
| "listen_run ij (rd # rds) li =
     and_then (listen_step ij rd li) (\<lambda>(acts, li).
       and_then (listen_run ij rds li) (\<lambda>(acts', li). Inr (acts @ acts', li)))"

section \<open>The UDPHID injector\<close>

text \<open>Its \<open>get_packets\<close> is that of \<open>Injector_UDP\<close>, and a report of 20 bytes that starts with 0 and 20 is
  remembered for the filter: twelve bytes, from the third on.\<close>

definition new_reportBuffer :: bytes where
  "new_reportBuffer = (replicate 20 0)[1 := 0x14]"

definition remember_report :: "injected \<Rightarrow> bytes \<Rightarrow> bytes res" where
  "remember_report e reportBuffer =
     (case e of
        InjPacket p \<Rightarrow>
          if pk_wLength p = 20 then
            and_then (deref (pk_data p)) (\<lambda>d.
              and_then (index d 0) (\<lambda>d0. and_then (index d 1) (\<lambda>d1.
                if d0 = 0 \<and> d1 = 20 then
                  and_then (first_n (drop 2 d) 12) (\<lambda>b.
                    Inr (take 2 reportBuffer @ b @ drop 14 reportBuffer))
                else Inr reportBuffer)))
          else Inr reportBuffer
      | InjSetup _ \<Rightarrow> Inr reportBuffer)"

definition udphid_get_packets :: "bytes \<Rightarrow> bytes \<Rightarrow> (injected \<times> bytes) res" where
  "udphid_get_packets buf reportBuffer =
     and_then (udp_get_packets buf) (\<lambda>e.
       and_then (remember_report e reportBuffer) (\<lambda>r. Inr (e, r)))"

section \<open>The socket of the UDP injectors\<close>

text \<open>\<open>start_injector\<close>, \<open>stop_injector\<close> and \<open>get_pollable_fds\<close> of both injectors; \<open>fd\<close> and \<open>rc\<close> are the
  results of \<open>socket\<close> and \<open>bind\<close>, \<open>content\<close> what is in the block that \<open>malloc\<close> returns. \<open>listen\<close>
  counts the descriptors up to the first 0, so without a socket there is none.\<close>

record udp_socket =
  us_sck :: int
  us_buf :: "bytes option"

definition udp_start :: "int \<Rightarrow> int \<Rightarrow> bytes \<Rightarrow> udp_socket \<Rightarrow> udp_socket" where
  "udp_start fd rc content us =
     us\<lparr>us_sck := (if fd < 0 \<or> rc < 0 then 0 else fd), us_buf := Some (take UDP_BUFFER_SIZE content)\<rparr>"

definition udp_stop :: "udp_socket \<Rightarrow> udp_socket" where
  "udp_stop us = us\<lparr>us_sck := 0, us_buf := None\<rparr>"

definition udp_pollable_fds :: "udp_socket \<Rightarrow> int list" where
  "udp_pollable_fds us = takeWhile (\<lambda>fd. fd \<noteq> 0) [us_sck us, 0]"

section \<open>Properties\<close>

lemma fill_poll_nth:
  "i + length fds \<le> length pl \<Longrightarrow> j < length pl \<Longrightarrow>
   fill_poll fds i pl ! j =
     (if i \<le> j \<and> j < i + length fds \<and> even (j - i) then (fds ! (j - i), True) else pl ! j)"
proof (induction fds i pl rule: fill_poll.induct)
  case (3 fd fd' fds i pl)
  show ?case
  proof (cases "i + 2 \<le> j")
    case True
    then obtain k where "j = i + 2 + k" using le_Suc_ex by blast
    then show ?thesis using 3 by simp
  next
    case False
    then have "j < i \<or> j = i \<or> j = Suc i" by linarith
    then show ?thesis using 3 by auto
  qed
qed (auto simp: nth_list_update)

text \<open>The thread listens to every other of its descriptors only: the entries of \<open>poll_list\<close> with an
  odd index keep the zeros of \<open>calloc\<close>, the standard input without an event.\<close>

theorem every_other_fd:
  assumes "j < length fds"
  shows "poll_entries fds ! j = (if even j then (fds ! j, True) else (0, False))"
  using assms by (simp add: poll_entries_def fill_poll_nth)

theorem every_other_fd_witness: "poll_entries [4, 5, 6] ! 1 = (0, False)"
  using every_other_fd [of 1 "[4, 5, 6]"] by simp

definition answers_only :: "inj_act \<Rightarrow> bool" where
  "answers_only a \<longleftrightarrow> (case a of SetupData _ _ \<Rightarrow> True | SetupAck \<Rightarrow> True | SetupStall \<Rightarrow> True | _ \<Rightarrow> False)"

text \<open>Once a control request has been injected, the injector waits for answers for ever: nothing sets
  \<open>setup_wait\<close> back, so whatever its source delivers from then on, no packet and no request is passed
  on.\<close>

theorem injects_one_request:
  assumes "li_setup_wait li"
  shows "\<exists>acts. listen_run ij rds li = Inr (acts, li) \<and> (\<forall>a\<in>set acts. answers_only a) \<and>
     length acts = length (filter (\<lambda>rd. rd_setup rd \<noteq> None) rds)"
  using assms
proof (induction rds)
  case (Cons rd rds)
  then show ?case by (cases "rd_setup rd") (auto simp: listen_step_def answers_only_def)
qed simp

lemma slots_nil: "(new_listener fds)\<lparr>li_slots := []\<rparr> = new_listener fds"
  by (simp add: new_listener_def)

text \<open>The packets that a round gets from the source.\<close>

definition got_packets :: "round \<Rightarrow> packet list" where
  "got_packets rd = (if rd_poll rd
     then List.map_filter (\<lambda>e. case e of Some (InjPacket p) \<Rightarrow> Some p | _ \<Rightarrow> None) (rd_got rd) else [])"

definition no_setup :: "round \<Rightarrow> bool" where
  "no_setup rd \<longleftrightarrow> (\<forall>s. Some (InjSetup s) \<notin> set (rd_got rd))"

lemma inj_queue_none: "inj_queue new_injector ep = 0"
proof -
  have "ep AND 0x0f \<le> 0x0f" by (rule word_and_le1)
  then have "unat (ep AND 0x0f) < 16" by (simp add: word_le_nat_alt)
  then show ?thesis by (simp add: inj_queue_def new_injector_def)
qed

lemma handle_all_no_queue:
  "\<forall>s. Some (InjSetup s) \<notin> set es \<Longrightarrow>
   handle_all new_injector w es li =
     Inr (map FullPipe (List.map_filter (\<lambda>e. case e of Some (InjPacket p) \<Rightarrow> Some p | _ \<Rightarrow> None) es), li)"
proof (induction es)
  case (Cons e es)
  then show ?case
    by (auto simp: handle_injected_def inj_queue_none List.map_filter_def split: option.split injected.split)
qed (simp add: List.map_filter_def)

text \<open>An injector whose queues are those of the constructor, as the manager leaves them, passes no
  packet on: every packet that its source delivers before the first control request goes back to the
  injector through \<open>full_pipe\<close>, each once and in order.\<close>

theorem unset_queues_return_all:
  assumes "\<forall>rd\<in>set rds. no_setup rd"
  shows "listen_run new_injector rds (new_listener fds) =
     Inr (map FullPipe (concat (map got_packets rds)), new_listener fds)"
proof -
  have step: "listen_step new_injector rd (new_listener fds) =
      Inr (map FullPipe (got_packets rd), new_listener fds)" if "no_setup rd" for rd
  proof -
    have "li_slots (new_listener fds) = []"
      "\<not> li_setup_wait (new_listener fds)"
      by (simp_all add: new_listener_def)
    then show ?thesis
      using that handle_all_no_queue [of "rd_got rd" "rd_writable rd" "new_listener fds"]
      by (simp add: listen_step_def got_packets_def no_setup_def slots_nil)
  qed
  from assms show ?thesis by (induction rds) (simp_all add: step)
qed

text \<open>A packet that is buffered because its queue is full is never sent: its entry is not among those
  that \<open>poll\<close> looks at, and the next round in which the source delivers something reads
  \<open>revents\<close> of the entry, which nothing has written.\<close>

theorem buffered_packet_stuck:
  assumes "rd_poll rd1" "rd_got rd1 = [Some (InjPacket p)]"
    and "inj_queue ij (pk_bEndpoint p) \<noteq> 0" "\<not> rd_writable rd1 (inj_queue ij (pk_bEndpoint p))"
    and "rd_poll rd2"
  shows "listen_run ij (rd1 # rd2 # rds) (new_listener fds) = Inl Uninit"
proof -
  have "unat (pk_bEndpoint p AND 0x0f) < 16"
  proof -
    have "pk_bEndpoint p AND 0x0f \<le> 0x0f" by (rule word_and_le1)
    then show ?thesis by (simp add: word_le_nat_alt)
  qed
  then have "\<exists>li'. listen_step ij rd1 (new_listener fds) = Inr ([], li') \<and> \<not> li_setup_wait li' \<and>
      (\<exists>s. li_slots li' = [s] \<and> ps_revents s = None)"
    using assms(1-4)
    by (simp add: listen_step_def new_listener_def handle_injected_def buffer_packet_def Let_def)
  then show ?thesis using assms(5) by (auto simp: listen_step_def)
qed

definition idle_round :: round where
  "idle_round = \<lparr>rd_setup = None, rd_poll = True, rd_got = [None], rd_writable = (\<lambda>_. False)\<rparr>"

theorem injects_one_request_witness:
  "listen_run new_injector [idle_round\<lparr>rd_got := [Some (InjPacket (new_packet 1 None 0))]\<rparr>]
       ((new_listener [5])\<lparr>li_setup_wait := True\<rparr>) =
     Inr ([], (new_listener [5])\<lparr>li_setup_wait := True\<rparr>)"
  using injects_one_request [of "(new_listener [5])\<lparr>li_setup_wait := True\<rparr>" new_injector
      "[idle_round\<lparr>rd_got := [Some (InjPacket (new_packet 1 None 0))]\<rparr>]"]
  by (simp add: idle_round_def)

theorem unset_queues_return_all_witness:
  "listen_run new_injector [idle_round\<lparr>rd_got := [Some (InjPacket (new_packet 1 None 0))]\<rparr>] (new_listener [5]) =
     Inr ([FullPipe (new_packet 1 None 0)], new_listener [5])"
  using unset_queues_return_all [of "[idle_round\<lparr>rd_got := [Some (InjPacket (new_packet 1 None 0))]\<rparr>]" "[5]"]
  by (simp add: no_setup_def got_packets_def idle_round_def List.map_filter_def)

theorem buffered_packet_stuck_witness:
  "listen_run (inj_set_queue 0x81 9 new_injector)
     [idle_round\<lparr>rd_got := [Some (InjPacket (new_packet 0x81 None 0))]\<rparr>, idle_round] (new_listener [5]) = Inl Uninit"
  using buffered_packet_stuck [of "idle_round\<lparr>rd_got := [Some (InjPacket (new_packet 0x81 None 0))]\<rparr>"
      "new_packet 0x81 None 0" "inj_set_queue 0x81 9 new_injector" idle_round "[]" "[5]"]
  by (simp add: idle_round_def new_packet_def inj_queue_def inj_set_queue_def new_injector_def)

end
