(* ===== verification/Dot11_Model.thy ===== *)
theory Dot11_Model
  imports Device_Model
begin

text \<open>
  The 802.11 device proxy (\<open>src/Plugins/Devices/DeviceProxy_dot11.cpp\<close>): it answers the enumeration
  requests itself and hands vendor requests to the library lorcon, whose answers are a parameter.
  \<open>src/tools/additional/dot11_control.c\<close> is the program that sends those requests.
\<close>

section \<open>State\<close>

text \<open>A pointer to an object of the library: NULL, or an object that is alive or has been released.\<close>

datatype lorcon_pointer = NullPtr | Live | Released

text \<open>The calls of lorcon that change its settings.\<close>

datatype lorcon_call =
    SetTimeout int | SetDatalink int | SetChannel int | SetHwmac int bytes
  | AddWepkey bytes bytes int | CloseInterface

definition STRING_MANUFACTURER_11 :: u8 where "STRING_MANUFACTURER_11 = 1"
definition STRING_PRODUCT_11 :: u8 where "STRING_PRODUCT_11 = 2"
definition STRING_SERIAL_11 :: u8 where "STRING_SERIAL_11 = 3"
definition STRING_DOT11 :: u8 where "STRING_DOT11 = 4"

lemmas dot11_consts = STRING_MANUFACTURER_11_def STRING_PRODUCT_11_def STRING_SERIAL_11_def STRING_DOT11_def

text \<open>\<open>d11_calls\<close> records the settings; \<open>d11_driver\<close>, \<open>d11_context\<close> and \<open>d11_strings\<close> are the static
  variables of the file.\<close>

record dot11 =
  d11_is_connected :: bool
  d11_device :: device_descriptor
  d11_config :: config_descriptor
  d11_ifc :: interface_descriptor
  d11_eps :: "endpoint_descriptor list"
  d11_interface :: string
  d11_monitor :: bool
  d11_driver :: lorcon_pointer
  d11_context :: lorcon_pointer
  d11_strings :: "usb_string list"
  d11_calls :: "lorcon_call list"

definition dot11_endpoint :: "u8 \<Rightarrow> endpoint_descriptor" where
  "dot11_endpoint address =
     \<lparr>ep_bLength = 7, ep_bDescriptorType = USB_DT_ENDPOINT, ep_bEndpointAddress = address,
      ep_bmAttributes = 2, ep_wMaxPacketSize = 64, ep_bInterval = 10,
      ep_bRefresh = None, ep_bSynchAddress = None\<rparr>"

definition dot11_strings :: "usb_string list" where
  "dot11_strings =
     [string_of_units 0 [0x0409] 0 0,
      string_of_chars 1 (ascii ''USBProxy'') STRING_MANUFACTURER_11 0x409,
      string_of_chars 2 (ascii ''802.11 HID Device'') STRING_PRODUCT_11 0x409,
      string_of_chars 3 (ascii ''0001'') STRING_SERIAL_11 0x409,
      string_of_chars 4 (ascii ''802.11'') STRING_DOT11 0x409]"

definition dot11_new :: "string \<Rightarrow> dot11" where
  "dot11_new interface =
     \<lparr>d11_is_connected = False,
      d11_device =
        \<lparr>dd_bLength = 18, dd_bDescriptorType = USB_DT_DEVICE, dd_bcdUSB = 0x0100,
         dd_bDeviceClass = 3, dd_bDeviceSubClass = 0, dd_bDeviceProtocol = 0,
         dd_bMaxPacketSize0 = 64, dd_idVendor = 0xffff, dd_idProduct = 0x0005,
         dd_bcdDevice = 0, dd_iManufacturer = STRING_MANUFACTURER_11, dd_iProduct = STRING_PRODUCT_11,
         dd_iSerialNumber = STRING_SERIAL_11, dd_bNumConfigurations = 1\<rparr>,
      d11_config =
        \<lparr>cf_bLength = 9, cf_bDescriptorType = USB_DT_CONFIG, cf_wTotalLength = 9 + 9 + 7 + 7,
         cf_bNumInterfaces = 1, cf_bConfigurationValue = 1, cf_iConfiguration = STRING_DOT11,
         cf_bmAttributes = 0x80 OR 0x40, cf_bMaxPower = 1\<rparr>,
      d11_ifc =
        \<lparr>if_bLength = 9, if_bDescriptorType = USB_DT_INTERFACE, if_bInterfaceNumber = 0,
         if_bAlternateSetting = 0, if_bNumEndpoints = 2, if_bInterfaceClass = 3,
         if_bInterfaceSubClass = 0, if_bInterfaceProtocol = 0, if_iInterface = STRING_DOT11\<rparr>,
      d11_eps = [dot11_endpoint (0x80 OR 1), dot11_endpoint 2],
      d11_interface = interface, d11_monitor = False, d11_driver = NullPtr,
      d11_context = NullPtr, d11_strings = dot11_strings, d11_calls = []\<rparr>"

section \<open>Connection\<close>

text \<open>The answers of lorcon: whether a driver is found and a context can be created, the results of
  opening the interface, and what the getters return. \<open>lc_free_null\<close> says whether releasing a NULL
  context is harmless.\<close>

record lorcon =
  lc_auto_driver :: bool
  lc_create :: bool
  lc_free_null :: bool
  lc_open_inject :: int
  lc_open_monitor :: int
  lc_open_injmon :: int
  lc_timeout :: int
  lc_capiface :: bytes
  lc_driver_name :: bytes
  lc_datalink :: int
  lc_set_datalink :: "int \<Rightarrow> int"
  lc_channel :: int
  lc_set_channel :: "int \<Rightarrow> int"
  lc_hwmac :: bytes
  lc_set_hwmac :: "int \<Rightarrow> bytes \<Rightarrow> int"
  lc_add_wepkey :: "bytes \<Rightarrow> bytes \<Rightarrow> int \<Rightarrow> int"

text \<open>\<open>lorcon_free_driver_list(driver)\<close>: the pointer keeps its value.\<close>

definition free_driver :: "dot11 \<Rightarrow> dot11 res" where
  "free_driver d =
     (if d11_driver d = Released then Inl UseAfterFree
      else if d11_driver d = NullPtr then Inr d else Inr (d\<lparr>d11_driver := Released\<rparr>))"

definition dot11_connect :: "lorcon \<Rightarrow> dot11 \<Rightarrow> (int \<times> dot11) res" where
  "dot11_connect lc d =
     (if d11_interface d = [] then Inr (1, d)
      else if \<not> lc_auto_driver lc then Inr (1, d\<lparr>d11_driver := NullPtr\<rparr>)
      else let d1 = d\<lparr>d11_driver := Live\<rparr> in
        if \<not> lc_create lc then Inr (1, d1\<lparr>d11_context := NullPtr\<rparr>)
        else let d2 = d1\<lparr>d11_context := Live\<rparr> in
          if lc_open_monitor lc < 0 then Inr (1, d2)
          else and_then (free_driver (d2\<lparr>d11_monitor := True\<rparr>)) (\<lambda>d3.
            Inr (0, d3\<lparr>d11_is_connected := True\<rparr>)))"

definition dot11_disconnect :: "lorcon \<Rightarrow> dot11 \<Rightarrow> dot11 res" where
  "dot11_disconnect lc d =
     (case d11_context d of
        Released \<Rightarrow> Inl UseAfterFree
      | Live \<Rightarrow> Inr (d\<lparr>d11_context := Released, d11_is_connected := False\<rparr>)
      | NullPtr \<Rightarrow>
          if lc_free_null lc then Inr (d\<lparr>d11_is_connected := False\<rparr>) else Inl NullDeref)"

text \<open>The destructor disconnects (again).\<close>

definition dot11_delete :: "lorcon \<Rightarrow> dot11 \<Rightarrow> dot11 res" where
  "dot11_delete lc d = dot11_disconnect lc d"

section \<open>Control requests\<close>

definition dot11_config_bytes :: "dot11 \<Rightarrow> bytes res" where
  "dot11_config_bytes d =
     and_then (written (concat (map (\<lambda>e. take (unat (ep_bLength e)) (endpoint_struct e)) (d11_eps d))))
       (\<lambda>eps. Inr (take (unat (cf_bLength (d11_config d))) (config_struct (d11_config d))
          @ take (unat (if_bLength (d11_ifc d))) (interface_struct (d11_ifc d)) @ eps))"

text \<open>As for the loopback device: the return code, what is stored through \<open>nbytes\<close> and the bytes
  stored at \<open>dataptr\<close>.\<close>

definition dot11_get_descriptor :: "dot11 \<Rightarrow> usb_ctrlrequest \<Rightarrow> (int \<times> int option \<times> bytes) res" where
  "dot11_get_descriptor d r =
     (let ty = hi8 (cr_wValue r); idx = lo8 (cr_wValue r) in
      if ty = USB_DT_DEVICE then
        Inr (0, Some (uint (dd_bLength (d11_device d))),
             take (unat (dd_bLength (d11_device d))) (device_struct (d11_device d)))
      else if ty = USB_DT_CONFIG then
        (if idx \<ge> dd_bNumConfigurations (d11_device d) then Inr (-1, None, [])
         else and_then (dot11_config_bytes d) (\<lambda>buf.
           let n = min (unat (cf_wTotalLength (d11_config d))) (unat (cr_wLength r)) in
           and_then (first_n buf n) (\<lambda>b. Inr (0, Some (int n), b))))
      else if ty = USB_DT_STRING then
        (if 0 < idx \<and> cr_wIndex r \<noteq> 0x409 then Inr (-1, None, [])
         else if idx > STRING_DOT11 then Inr (-1, None, [])
         else and_then (index (d11_strings d) (unat idx)) (\<lambda>s.
           and_then (string_length_byte s) (\<lambda>len.
             let n = min (unat len) (unat (cr_wLength r)) in
             and_then (first_n (us_data s) n) (\<lambda>b. Inr (0, Some (int n), b)))))
      else if ty = USB_DT_DEVICE_QUALIFIER then Inr (-1, None, [])
      else if ty = USB_DT_OTHER_SPEED_CONFIG then Inr (-1, None, [])
      else Inr (0, None, []))"

text \<open>Storing at \<open>dataptr\<close>: for an IN transfer it is a fresh block whose size the caller checks, for
  an OUT transfer the block of the data, or NULL. Reading an \<open>int\<close> from it.\<close>

definition put :: "usb_ctrlrequest \<Rightarrow> bytes option \<Rightarrow> bytes \<Rightarrow> bytes res" where
  "put r data bs =
     (if is_in r then Inr bs
      else and_then (deref data) (\<lambda>d. if length d < length bs then Inl OutOfBounds else Inr bs))"

definition le_int :: "bytes \<Rightarrow> int" where
  "le_int b = signed_take_bit 31
     (uint (b ! 0) + 2 ^ 8 * uint (b ! 1) + 2 ^ 16 * uint (b ! 2) + 2 ^ 24 * uint (b ! 3))"

definition int_le :: "int \<Rightarrow> bytes" where
  "int_le v = [of_int v, of_int (v div 2 ^ 8), of_int (v div 2 ^ 16), of_int (v div 2 ^ 24)]"

definition get_int :: "usb_ctrlrequest \<Rightarrow> bytes option \<Rightarrow> int res" where
  "get_int r data =
     (if is_in r then Inl Uninit
      else and_then (deref data) (\<lambda>d. and_then (first_n d 4) (\<lambda>b. Inr (le_int b))))"

definition DOT11_OPEN_INJECT :: u8 where "DOT11_OPEN_INJECT = 0"
definition DOT11_OPEN_MONITOR :: u8 where "DOT11_OPEN_MONITOR = 1"
definition DOT11_OPEN_INJMON :: u8 where "DOT11_OPEN_INJMON = 2"
definition DOT11_GET_TIMEOUT :: u8 where "DOT11_GET_TIMEOUT = 3"
definition DOT11_SET_TIMEOUT :: u8 where "DOT11_SET_TIMEOUT = 4"
definition DOT11_GET_CAPIFACE :: u8 where "DOT11_GET_CAPIFACE = 5"
definition DOT11_GET_DRIVER_NAME :: u8 where "DOT11_GET_DRIVER_NAME = 6"
definition DOT11_CLOSE_INTERFACE :: u8 where "DOT11_CLOSE_INTERFACE = 7"
definition DOT11_GET_DATALINK :: u8 where "DOT11_GET_DATALINK = 8"
definition DOT11_SET_DATALINK :: u8 where "DOT11_SET_DATALINK = 9"
definition DOT11_GET_CHANNEL :: u8 where "DOT11_GET_CHANNEL = 10"
definition DOT11_SET_CHANNEL :: u8 where "DOT11_SET_CHANNEL = 11"
definition DOT11_GET_HWMAC :: u8 where "DOT11_GET_HWMAC = 12"
definition DOT11_SET_HWMAC :: u8 where "DOT11_SET_HWMAC = 13"
definition DOT11_ADD_WEPKEY :: u8 where "DOT11_ADD_WEPKEY = 14"

lemmas dot11_requests =
  DOT11_OPEN_INJECT_def DOT11_OPEN_MONITOR_def DOT11_OPEN_INJMON_def DOT11_GET_TIMEOUT_def
  DOT11_SET_TIMEOUT_def DOT11_GET_CAPIFACE_def DOT11_GET_DRIVER_NAME_def DOT11_CLOSE_INTERFACE_def
  DOT11_GET_DATALINK_def DOT11_SET_DATALINK_def DOT11_GET_CHANNEL_def DOT11_SET_CHANNEL_def
  DOT11_GET_HWMAC_def DOT11_SET_HWMAC_def DOT11_ADD_WEPKEY_def

text \<open>The result of \<open>vendor_request\<close>: its return value (\<open>None\<close> when it ends without one, after a
  \<open>break\<close>), the number stored through \<open>nbytes\<close>, the bytes stored at \<open>dataptr\<close>.\<close>

type_synonym vendor_result = "(int option \<times> int option \<times> bytes) \<times> dot11"

definition answer_int ::
  "usb_ctrlrequest \<Rightarrow> bytes option \<Rightarrow> int \<Rightarrow> dot11 \<Rightarrow> vendor_result res" where
  "answer_int r data rv d = and_then (put r data (int_le rv)) (\<lambda>b. Inr ((None, Some 4, b), d))"

definition answer_bytes ::
  "usb_ctrlrequest \<Rightarrow> bytes option \<Rightarrow> bytes \<Rightarrow> dot11 \<Rightarrow> vendor_result res" where
  "answer_bytes r data bs d =
     and_then (put r data bs) (\<lambda>b. Inr ((None, Some (int (length bs)), b), d))"

text \<open>The three requests that open the interface; only those for monitoring set \<open>monitor\<close>.\<close>

definition open_request ::
  "bool \<Rightarrow> int \<Rightarrow> usb_ctrlrequest \<Rightarrow> bytes option \<Rightarrow> dot11 \<Rightarrow> vendor_result res" where
  "open_request mon rv r data d =
     (if rv < 0 then Inr ((Some 1, None, []), d)
      else and_then (free_driver d) (\<lambda>d1.
        answer_int r data rv (if mon then d1\<lparr>d11_monitor := True\<rparr> else d1)))"

definition lorcon_set :: "lorcon_call \<Rightarrow> dot11 \<Rightarrow> dot11" where
  "lorcon_set c d = d\<lparr>d11_calls := d11_calls d @ [c]\<rparr>"

text \<open>\<open>*nbytes\<close> is \<open>wLength\<close> for an OUT transfer and has no value for an IN transfer.\<close>

definition nbytes :: "usb_ctrlrequest \<Rightarrow> int res" where
  "nbytes r = (if is_in r then Inl Uninit else Inr (uint (cr_wLength r)))"

definition context_alive :: "dot11 \<Rightarrow> unit res" where
  "context_alive d =
     (case d11_context d of NullPtr \<Rightarrow> Inl NullDeref | Live \<Rightarrow> Inr () | Released \<Rightarrow> Inl UseAfterFree)"

definition vendor_request ::
  "lorcon \<Rightarrow> usb_ctrlrequest \<Rightarrow> bytes option \<Rightarrow> dot11 \<Rightarrow> vendor_result res" where
  "vendor_request lc r data d =
     (let req = cr_bRequest r in
      if req > DOT11_ADD_WEPKEY then Inr ((None, None, []), d)
      else and_then (context_alive d) (\<lambda>_.
        if req = DOT11_OPEN_INJECT then open_request False (lc_open_inject lc) r data d
        else if req = DOT11_OPEN_MONITOR then open_request True (lc_open_monitor lc) r data d
        else if req = DOT11_OPEN_INJMON then open_request True (lc_open_injmon lc) r data d
        else if req = DOT11_SET_TIMEOUT then
          and_then (get_int r data) (\<lambda>value. Inr ((None, Some 0, []), lorcon_set (SetTimeout value) d))
        else if req = DOT11_GET_TIMEOUT then answer_int r data (lc_timeout lc) d
        else if req = DOT11_GET_CAPIFACE then answer_bytes r data (lc_capiface lc @ [0]) d
        else if req = DOT11_GET_DRIVER_NAME then answer_bytes r data (lc_driver_name lc) d
        else if req = DOT11_CLOSE_INTERFACE then
          Inr ((None, Some 0, []), lorcon_set CloseInterface d)
        else if req = DOT11_GET_DATALINK then answer_int r data (lc_datalink lc) d
        else if req = DOT11_SET_DATALINK then
          and_then (get_int r data) (\<lambda>value.
            answer_int r data (lc_set_datalink lc value) (lorcon_set (SetDatalink value) d))
        else if req = DOT11_GET_CHANNEL then answer_int r data (lc_channel lc) d
        else if req = DOT11_SET_CHANNEL then
          and_then (get_int r data) (\<lambda>value.
            answer_int r data (lc_set_channel lc value) (lorcon_set (SetChannel value) d))
        else if req = DOT11_GET_HWMAC then answer_bytes r data (lc_hwmac lc) d
        else if req = DOT11_SET_HWMAC then
          and_then (nbytes r) (\<lambda>n. and_then (deref data) (\<lambda>mac.
            answer_int r data (lc_set_hwmac lc n mac) (lorcon_set (SetHwmac n mac) d)))
        else
          and_then (nbytes r) (\<lambda>n. and_then (deref data) (\<lambda>b.
            answer_int r data (lc_add_wepkey lc (take 6 b) (drop 6 b) (n - 6))
              (lorcon_set (AddWepkey (take 6 b) (drop 6 b) (n - 6)) d)))))"

text \<open>\<open>rv = vendor_request(...)\<close>: a function that ends without a value gives none to assign. The value
  itself is not used.\<close>

definition dot11_control_request ::
  "lorcon \<Rightarrow> usb_ctrlrequest \<Rightarrow> bytes option \<Rightarrow> dot11 \<Rightarrow> ((int \<times> int option \<times> bytes) \<times> dot11) res" where
  "dot11_control_request lc r data d =
     (if is_in r \<and> cr_bRequest r = USB_REQ_GET_DESCRIPTOR then
        and_then (dot11_get_descriptor d r) (\<lambda>a. Inr (a, d))
      else if cr_bRequest r = USB_REQ_GET_CONFIGURATION then
        and_then (put r data [1]) (\<lambda>b. Inr ((0, Some 1, b), d))
      else if cr_bRequest r = USB_REQ_SET_CONFIGURATION then Inr ((0, None, []), d)
      else if cr_bRequest r = USB_REQ_GET_INTERFACE then
        and_then (put r data [1]) (\<lambda>b. Inr ((0, Some 1, b), d))
      else if cr_bRequestType r AND 0x40 \<noteq> 0 then
        and_then (vendor_request lc r data d) (\<lambda>((rv, n, b), d1).
          case rv of None \<Rightarrow> Inl NoReturn | Some _ \<Rightarrow> Inr ((0, n, b), d1))
      else Inr ((0, None, []), d))"

section \<open>Data\<close>

text \<open>\<open>receive_data\<close>: what is captured, if anything, as the lengths of its two parts. The header (24
  bytes) is written over the variable that \<open>dataptr\<close> points to, a pointer of eight bytes.\<close>

definition dot11_receive_data ::
  "(nat \<times> nat) option \<Rightarrow> dot11 \<Rightarrow> (bytes option \<times> int) option res" where
  "dot11_receive_data packet d =
     (if \<not> d11_monitor d then Inr None
      else case packet of None \<Rightarrow> Inr None | Some _ \<Rightarrow> Inl OutOfBounds)"

section \<open>Lemmas\<close>

lemma and_then_None: "and_then r (\<lambda>x. Inr ((None, n x, b x), d x)) = Inr ((rv, n', b'), d') \<Longrightarrow> rv = None"
  by (auto simp: and_then_eq_Inr)

lemma answers_no_value:
  "answer_int r data v d = Inr ((rv, n, b), d') \<Longrightarrow> rv = None"
  "answer_bytes r data bs d = Inr ((rv, n, b), d') \<Longrightarrow> rv = None"
  by (auto simp: answer_int_def answer_bytes_def and_then_eq_Inr)

lemma open_request_value:
  "open_request mon v r data d = Inr ((Some k, n, b), d') \<longleftrightarrow>
     v < 0 \<and> k = 1 \<and> n = None \<and> b = [] \<and> d' = d"
  by (auto simp: open_request_def and_then_eq_Inr dest: answers_no_value)

text \<open>The result of \<open>lorcon_open_inject\<close> and its like for one of the three requests that open the
  interface.\<close>

definition open_result :: "lorcon \<Rightarrow> u8 \<Rightarrow> int" where
  "open_result lc req =
     (if req = DOT11_OPEN_INJECT then lc_open_inject lc
      else if req = DOT11_OPEN_MONITOR then lc_open_monitor lc else lc_open_injmon lc)"

lemma vendor_value:
  "vendor_request lc r data d = Inr ((Some k, n, b), d') \<longleftrightarrow>
     d11_context d = Live \<and> cr_bRequest r \<le> DOT11_OPEN_INJMON \<and>
     open_result lc (cr_bRequest r) < 0 \<and> k = 1 \<and> n = None \<and> b = [] \<and> d' = d"
proof (cases "d11_context d = Live \<and> cr_bRequest r \<le> DOT11_ADD_WEPKEY")
  case False
  then show ?thesis
    by (cases "d11_context d")
      (auto simp: vendor_request_def context_alive_def Let_def dot11_requests word_le_nat_alt word_less_nat_alt)
next
  case True
  have small: "cr_bRequest r \<le> 2 \<longleftrightarrow> cr_bRequest r \<in> {0, 1, 2}"
    by (auto simp: word_le_nat_alt unat_arith_simps)
  show ?thesis
    using True
    by (auto simp: vendor_request_def context_alive_def Let_def open_result_def open_request_value
        small dot11_requests and_then_eq_Inr dest: answers_no_value split: if_splits)
qed

lemma vendor_outcome:
  assumes "cr_bRequestType r AND 0x40 \<noteq> 0" "cr_bRequest r \<noteq> USB_REQ_GET_DESCRIPTOR"
    and "cr_bRequest r \<notin> {DOT11_GET_DATALINK, DOT11_SET_DATALINK, DOT11_GET_CHANNEL}"
  shows "dot11_control_request lc r data d = Inr a \<longleftrightarrow>
    d11_context d = Live \<and> cr_bRequest r \<le> DOT11_OPEN_INJMON \<and>
    open_result lc (cr_bRequest r) < 0 \<and> a = ((0, None, []), d)"
proof -
  have "dot11_control_request lc r data d =
      and_then (vendor_request lc r data d) (\<lambda>((rv, n, b), d1).
          case rv of None \<Rightarrow> Inl NoReturn | Some _ \<Rightarrow> Inr ((0, n, b), d1))"
    using assms by (simp add: dot11_control_request_def dot11_requests usb_consts)
  also have "\<dots> = Inr a \<longleftrightarrow>
      (\<exists>k n b d1. vendor_request lc r data d = Inr ((Some k, n, b), d1) \<and> a = ((0, n, b), d1))"
    by (auto simp: and_then_eq_Inr split: option.splits)
  finally show ?thesis by (auto simp: vendor_value)
qed

text \<open>A vendor request is answered only when it asks to open the interface and lorcon cannot open
  it: every other one ends in \<open>vendor_request\<close> without a value to return (or in an earlier fault).
  So no control request that returns has changed anything, and the requests with the numbers of
  GET_CONFIGURATION, SET_CONFIGURATION and GET_INTERFACE, among them those for the data link and the
  channel, never reach lorcon.\<close>

theorem vendor_requests_fail:
  assumes "cr_bRequestType r AND 0x40 \<noteq> 0" "cr_bRequest r \<noteq> USB_REQ_GET_DESCRIPTOR"
    and "cr_bRequest r \<notin> {DOT11_GET_DATALINK, DOT11_SET_DATALINK, DOT11_GET_CHANNEL}"
  shows "dot11_control_request lc r data d = Inr a \<longleftrightarrow>
    d11_context d = Live \<and> cr_bRequest r \<le> DOT11_OPEN_INJMON \<and>
    open_result lc (cr_bRequest r) < 0 \<and> a = ((0, None, []), d)"
  by (rule vendor_outcome [OF assms])

text \<open>A request to set the timeout, on a connected proxy.\<close>

definition sample_lorcon :: lorcon where
  "sample_lorcon =
     \<lparr>lc_auto_driver = True, lc_create = True, lc_free_null = True, lc_open_inject = 0,
      lc_open_monitor = 0, lc_open_injmon = 0, lc_timeout = 0, lc_capiface = [], lc_driver_name = [],
      lc_datalink = 127, lc_set_datalink = (\<lambda>_. 0), lc_channel = 6, lc_set_channel = (\<lambda>_. 0),
      lc_hwmac = [], lc_set_hwmac = (\<lambda>_ _. 0), lc_add_wepkey = (\<lambda>_ _ _. 0)\<rparr>"

theorem vendor_requests_fail_witness:
  "\<not> (\<exists>a. dot11_control_request sample_lorcon
      \<lparr>cr_bRequestType = 0x40, cr_bRequest = DOT11_SET_TIMEOUT, cr_wValue = 0, cr_wIndex = 0,
       cr_wLength = 4\<rparr> (Some [1, 0, 0, 0]) ((dot11_new ''wlan0'')\<lparr>d11_context := Live\<rparr>) = Inr a)"
  by (subst vendor_requests_fail)
    (simp_all add: dot11_requests usb_consts)

text \<open>A proxy that has been connected releases its context twice: in \<open>disconnect\<close>, which leaves the
  pointer, and in the destructor. The list of drivers is released by \<open>connect\<close>, and again by every
  later request that opens the interface.\<close>

lemma dot11_releases_twice:
  assumes "dot11_connect lc (dot11_new i) = Inr (0, d)"
  shows "\<exists>d'. dot11_disconnect lc d = Inr d' \<and> dot11_delete lc d' = Inl UseAfterFree"
    and "0 \<le> rv \<Longrightarrow> open_request mon rv r data d = Inl UseAfterFree"
proof -
  from assms have "d11_context d = Live" "d11_driver d = Released"
    by (auto simp: dot11_connect_def dot11_new_def free_driver_def Let_def split: if_splits)
  then show "\<exists>d'. dot11_disconnect lc d = Inr d' \<and> dot11_delete lc d' = Inl UseAfterFree"
    and "0 \<le> rv \<Longrightarrow> open_request mon rv r data d = Inl UseAfterFree"
    by (auto simp: dot11_disconnect_def dot11_delete_def open_request_def free_driver_def)
qed

end
