(* ===== verification/Enumeration.thy ===== *)
theory Enumeration
  imports Loopback Dot11_Model
begin

text \<open>
  The two device proxies that answer for themselves, seen through the constructor of \<open>Device\<close>: the
  manager reads its device model from them (\<open>Manager::start_control_relaying\<close>). Their
  \<open>control_request\<close> is the parameter of \<open>device_from_proxy\<close>.
\<close>

definition lb_creq :: "loopback creq" where
  "lb_creq r lb =
     (case lb_control_request lb r of Inr (rc, n, b) \<Rightarrow> ((rc, b), lb) | Inl e \<Rightarrow> ((-1, []), lb))"

definition dot11_creq :: "lorcon \<Rightarrow> dot11 creq" where
  "dot11_creq lc r d =
     (case dot11_control_request lc r None d of
        Inr ((rc, n, b), d') \<Rightarrow> ((rc, b), d') | Inl e \<Rightarrow> ((-1, []), d))"

text \<open>What is looked at in the device: its descriptor, the settings of its configurations, whether the
  definition check accepts it, and whether the destructor deletes every string once.\<close>

fun setting_parts :: "iface option \<Rightarrow> (interface_descriptor \<times> endpoint_descriptor option list) option" where
  "setting_parts None = None"
| "setting_parts (Some ic) = Some (if_descriptor ic, if_endpoints ic)"

fun group_parts :: "igroup option \<Rightarrow>
    (interface_descriptor \<times> endpoint_descriptor option list) option list option" where
  "group_parts None = None"
| "group_parts (Some g) = Some (map setting_parts (ig_interfaces g))"

fun config_parts :: "config option \<Rightarrow> (config_descriptor \<times>
    (interface_descriptor \<times> endpoint_descriptor option list) option list option list) option" where
  "config_parts None = None"
| "config_parts (Some c) = Some (cf_descriptor c, map group_parts (cf_groups c))"

definition survey :: "(device \<times> 'd) res \<Rightarrow> (device_descriptor \<times> (config_descriptor \<times>
    (interface_descriptor \<times> endpoint_descriptor option list) option list option list) option list \<times>
    bool \<times> bool) res" where
  "survey r =
     and_then r (\<lambda>(dv, d). Inr (dv_descriptor dv, map config_parts (dv_configurations dv),
       passes (device_is_defined dv), distinct (deleted_strings dv)))"

definition enumerate_loopback where
  "enumerate_loopback =
     survey (device_from_proxy 512 lb_creq (\<lambda>_. 1) (\<lambda>_. False) loopback_of_config)"

definition enumerate_dot11 where
  "enumerate_dot11 lc i =
     survey (device_from_proxy 512 (dot11_creq lc) (\<lambda>_. 1) (\<lambda>_. False) (dot11_new i))"

text \<open>From each of the two built-in devices the constructor of \<open>Device\<close> reads exactly the
  descriptors that the proxy holds, and the definition check accepts the result. In both the
  configuration and the interface name the same string, which is therefore entered twice into the
  string table: deleting the device deletes it twice. (\<open>Manager::stop_relaying\<close> has the deletion
  commented out, because of an invalid pointer.)\<close>

theorem builtin_devices_enumerate:
  "enumerate_loopback = Inr (lb_device loopback_of_config,
     [Some (lb_config loopback_of_config,
        [Some [Some (lb_interface loopback_of_config, map Some (lb_eps loopback_of_config))]])],
     True, False) \<and>
   enumerate_dot11 lc i = Inr (d11_device (dot11_new i),
     [Some (d11_config (dot11_new i),
        [Some [Some (d11_ifc (dot11_new i), map Some (d11_eps (dot11_new i)))]])],
     True, False)"
proof
  show "enumerate_loopback = Inr (lb_device loopback_of_config,
     [Some (lb_config loopback_of_config,
        [Some [Some (lb_interface loopback_of_config, map Some (lb_eps loopback_of_config))]])],
     True, False)" by code_simp
  show "enumerate_dot11 lc i = Inr (d11_device (dot11_new i),
     [Some (d11_config (dot11_new i),
        [Some [Some (d11_ifc (dot11_new i), map Some (d11_eps (dot11_new i)))]])],
     True, False)" by code_simp
qed

end
