(* ===== verification/Dot11_Control.thy ===== *)
theory Dot11_Control
  imports Dot11_Model
begin

text \<open>
  The program that controls the 802.11 device over USB (\<open>src/tools/additional/dot11_control.c\<close>). A
  parameter answers \<open>libusb_control_transfer\<close>. What receives frames in that file
  (\<open>cmd_rx_data\<close>) refers to functions and variables that are nowhere declared, and is left out.
\<close>

section \<open>Integers in buffers\<close>

text \<open>Whether \<open>char\<close> is signed depends on the machine; the shifts are those of a 32-bit \<open>int\<close>.\<close>

definition char_int :: "bool \<Rightarrow> u8 \<Rightarrow> u32" where
  "char_int signed_char c = (if signed_char then scast c else ucast c)"

definition to_int :: "bool \<Rightarrow> bytes \<Rightarrow> int" where
  "to_int signed_char b =
     sint (push_bit 24 (char_int signed_char (b ! 3)) OR push_bit 16 (char_int signed_char (b ! 2))
       OR push_bit 8 (char_int signed_char (b ! 1)) OR char_int signed_char (b ! 0))"

definition from_int :: "int \<Rightarrow> bytes" where
  "from_int value = [of_int (value AND 0xff), of_int (drop_bit 8 value AND 0xff),
     of_int (drop_bit 8 (drop_bit 8 value) AND 0xff),
     of_int (drop_bit 8 (drop_bit 8 (drop_bit 8 value)) AND 0xff)]"

section \<open>Commands\<close>

text \<open>\<open>libusb_control_transfer\<close>: the request type, the request, the data of an OUT transfer or the
  size of the buffer for an IN transfer; its result and the bytes stored.\<close>

type_synonym 'd xfer = "u8 \<Rightarrow> u8 \<Rightarrow> bytes \<Rightarrow> nat \<Rightarrow> 'd \<Rightarrow> (int \<times> bytes) \<times> 'd"

definition CTRL_IN :: u8 where "CTRL_IN = 0x40 OR 0x80"
definition CTRL_OUT :: u8 where "CTRL_OUT = 0x40 OR 0"

definition cmd_no_data :: "'d xfer \<Rightarrow> u8 \<Rightarrow> 'd \<Rightarrow> int \<times> 'd" where
  "cmd_no_data xfer req d =
     (case xfer CTRL_OUT req [] 0 d of ((r, _), d') \<Rightarrow> (if r < 0 then r else 0, d'))"

definition cmd_setter :: "'d xfer \<Rightarrow> u8 \<Rightarrow> bytes \<Rightarrow> 'd \<Rightarrow> int \<times> 'd" where
  "cmd_setter xfer req data d =
     (case xfer CTRL_OUT req data (length data) d of ((r, _), d') \<Rightarrow> (if r < 0 then r else 0, d'))"

text \<open>The buffer on the stack of the caller, of which what is not stored has no value.\<close>

definition cmd_getter :: "'d xfer \<Rightarrow> u8 \<Rightarrow> nat \<Rightarrow> 'd \<Rightarrow> u8 option list \<times> 'd" where
  "cmd_getter xfer req n d =
     (case xfer CTRL_IN req [] n d of ((_, b), d') \<Rightarrow>
        (map Some (take n b) @ replicate (n - length b) None, d'))"

definition get_command :: "bool \<Rightarrow> 'd xfer \<Rightarrow> u8 \<Rightarrow> 'd \<Rightarrow> (int \<times> 'd) res" where
  "get_command signed_char xfer req d =
     (case cmd_getter xfer req 4 d of (b, d') \<Rightarrow>
        and_then (written b) (\<lambda>b. Inr (to_int signed_char b, d')))"

definition cmd_open_inject :: "'d xfer \<Rightarrow> 'd \<Rightarrow> int \<times> 'd" where
  "cmd_open_inject xfer = cmd_no_data xfer DOT11_OPEN_INJECT"

definition cmd_open_monitor :: "'d xfer \<Rightarrow> 'd \<Rightarrow> int \<times> 'd" where
  "cmd_open_monitor xfer = cmd_no_data xfer DOT11_OPEN_MONITOR"

definition cmd_open_injmon :: "'d xfer \<Rightarrow> 'd \<Rightarrow> int \<times> 'd" where
  "cmd_open_injmon xfer = cmd_no_data xfer DOT11_OPEN_INJMON"

definition cmd_set_timeout :: "'d xfer \<Rightarrow> int \<Rightarrow> 'd \<Rightarrow> int \<times> 'd" where
  "cmd_set_timeout xfer timeout = cmd_setter xfer DOT11_SET_TIMEOUT (from_int timeout)"

definition cmd_get_timeout :: "bool \<Rightarrow> 'd xfer \<Rightarrow> 'd \<Rightarrow> (int \<times> 'd) res" where
  "cmd_get_timeout signed_char xfer = get_command signed_char xfer DOT11_GET_TIMEOUT"

definition cmd_set_datalink :: "'d xfer \<Rightarrow> int \<Rightarrow> 'd \<Rightarrow> int \<times> 'd" where
  "cmd_set_datalink xfer datalink = cmd_setter xfer DOT11_SET_DATALINK (from_int datalink)"

definition cmd_get_datalink :: "bool \<Rightarrow> 'd xfer \<Rightarrow> 'd \<Rightarrow> (int \<times> 'd) res" where
  "cmd_get_datalink signed_char xfer = get_command signed_char xfer DOT11_GET_DATALINK"

definition cmd_set_channel :: "'d xfer \<Rightarrow> int \<Rightarrow> 'd \<Rightarrow> int \<times> 'd" where
  "cmd_set_channel xfer channel = cmd_setter xfer DOT11_SET_CHANNEL (from_int channel)"

definition cmd_get_channel :: "bool \<Rightarrow> 'd xfer \<Rightarrow> 'd \<Rightarrow> (int \<times> 'd) res" where
  "cmd_get_channel signed_char xfer = get_command signed_char xfer DOT11_GET_CHANNEL"

definition cmd_close_interface :: "'d xfer \<Rightarrow> 'd \<Rightarrow> int \<times> 'd" where
  "cmd_close_interface xfer = cmd_no_data xfer DOT11_CLOSE_INTERFACE"

definition cmd_get_capiface :: "'d xfer \<Rightarrow> nat \<Rightarrow> 'd \<Rightarrow> u8 option list \<times> 'd" where
  "cmd_get_capiface xfer max_ifname_len = cmd_getter xfer DOT11_GET_CAPIFACE max_ifname_len"

section \<open>Lemmas\<close>

text \<open>Byte \<open>k\<close> of a value.\<close>

lemma of_int_byte: "(of_int (x AND 0xff) :: u8) = of_int x" for x :: int
proof -
  have "x AND 0xff = take_bit 8 x" by (simp add: take_bit_eq_mask mask_eq_exp_minus_1)
  then show ?thesis by (simp add: bit_eq_iff bit_simps)
qed

lemma from_int_bytes:
  "from_int v = [of_int v, of_int (drop_bit 8 v), of_int (drop_bit 16 v), of_int (drop_bit 24 v)]"
  by (simp add: from_int_def of_int_byte)

lemma bytes_of_word:
  fixes v :: int
  defines "c \<equiv> \<lambda>k. of_int (drop_bit k v) :: u8"
  shows "push_bit 24 (ucast (c 24) :: u32) OR push_bit 16 (ucast (c 16)) OR push_bit 8 (ucast (c 8))
    OR ucast (c 0) = of_int v"
proof (rule bit_word_eqI)
  fix n
  assume "n < LENGTH(32)"
  then consider "n < 8" | "8 \<le> n" "n < 16" | "16 \<le> n" "n < 24" | "24 \<le> n" "n < 32" by fastforce
  then show "bit (push_bit 24 (ucast (c 24) :: u32) OR push_bit 16 (ucast (c 16))
      OR push_bit 8 (ucast (c 8)) OR ucast (c 0)) n = bit (of_int v :: u32) n"
    by cases (auto simp: c_def bit_simps)
qed

lemma to_int_unsigned:
  assumes "- (2 ^ 31) \<le> v" "v < 2 ^ 31"
  shows "to_int False (from_int v) = v"
proof -
  have "to_int False (from_int v) = sint (of_int v :: u32)"
    using bytes_of_word [of v] by (simp add: to_int_def from_int_bytes char_int_def)
  also have "\<dots> = v" using assms by (simp add: int_word_sint)
  finally show ?thesis .
qed

text \<open>With a signed \<open>char\<close> the sign bit of each byte spills over the bytes above it.\<close>

lemma signed_bits:
  fixes v :: int
  defines "w \<equiv> push_bit 24 (scast (of_int (drop_bit 24 v) :: u8) :: u32)
    OR push_bit 16 (scast (of_int (drop_bit 16 v) :: u8)) OR push_bit 8 (scast (of_int (drop_bit 8 v) :: u8))
    OR scast (of_int v :: u8)"
  assumes "n < 32"
  shows "bit w n \<longleftrightarrow> bit v n \<or> 8 \<le> n \<and> bit v 7 \<or> 16 \<le> n \<and> bit v 15 \<or> 24 \<le> n \<and> bit v 23"
proof -
  from assms(2) consider "n < 7" | "n = 7" | "8 \<le> n" "n < 15" | "n = 15" | "16 \<le> n" "n < 23"
    | "n = 23" | "24 \<le> n" "n < 31" | "n = 31"
    by linarith
  then show ?thesis
    by cases (auto simp: w_def bit_simps min_def)
qed

text \<open>A number sent to the device and read back is the same where \<open>char\<close> is unsigned. Where it
  is signed, a number that is not negative survives exactly when none of its three lower bytes has
  its top bit set: 128 is read back as -128.\<close>

theorem control_int_round_trip:
  assumes "0 \<le> v" "v < 2 ^ 31"
  shows "to_int False (from_int v) = v \<and>
    (to_int True (from_int v) = v \<longleftrightarrow> \<not> bit v 7 \<and> \<not> bit v 15 \<and> \<not> bit v 23)"
proof
  show "to_int False (from_int v) = v" using assms by (simp add: to_int_unsigned)
  let ?w = "push_bit 24 (scast (of_int (drop_bit 24 v) :: u8) :: u32)
    OR push_bit 16 (scast (of_int (drop_bit 16 v) :: u8)) OR push_bit 8 (scast (of_int (drop_bit 8 v) :: u8))
    OR scast (of_int v :: u8)"
  have w: "to_int True (from_int v) = sint ?w"
    by (simp add: to_int_def from_int_bytes char_int_def)
  have v: "sint (of_int v :: u32) = v" using assms by (simp add: int_word_sint)
  show "to_int True (from_int v) = v \<longleftrightarrow> \<not> bit v 7 \<and> \<not> bit v 15 \<and> \<not> bit v 23"
  proof
    assume "to_int True (from_int v) = v"
    with w v have "sint ?w = sint (of_int v :: u32)" by (simp only:)
    then have "?w = of_int v" by (rule signed_word_eqI)
    then have "bit ?w 31 \<longleftrightarrow> bit v 31" by (simp add: bit_simps)
    moreover have "\<not> bit v 31" using assms
      by (simp add: bit_iff_odd)
    ultimately show "\<not> bit v 7 \<and> \<not> bit v 15 \<and> \<not> bit v 23"
      using signed_bits [of 31 v] by auto
  next
    assume "\<not> bit v 7 \<and> \<not> bit v 15 \<and> \<not> bit v 23"
    then have "?w = of_int v"
      by (intro bit_word_eqI) (use signed_bits [where v = v] in \<open>simp add: bit_simps\<close>)
    with w v show "to_int True (from_int v) = v" by simp
  qed
qed

theorem control_int_round_trip_witness:
  "to_int False (from_int 10) = 10 \<and>
    (to_int True (from_int 10) = 10 \<longleftrightarrow> \<not> bit (10 :: int) 7 \<and> \<not> bit (10 :: int) 15 \<and> \<not> bit (10 :: int) 23) \<and>
   to_int False (from_int 128) = 128 \<and>
    (to_int True (from_int 128) = 128 \<longleftrightarrow>
      \<not> bit (128 :: int) 7 \<and> \<not> bit (128 :: int) 15 \<and> \<not> bit (128 :: int) 23)"
  using control_int_round_trip [of 10] control_int_round_trip [of 128] by simp

section \<open>The program and the proxy\<close>

text \<open>A transfer that the proxy answers; a fault, a negative return code and a stall are an error.\<close>

definition proxy_xfer :: "lorcon \<Rightarrow> dot11 xfer" where
  "proxy_xfer lc ty req data n d =
     (case dot11_control_request lc
         \<lparr>cr_bRequestType = ty, cr_bRequest = req, cr_wValue = 0, cr_wIndex = 0, cr_wLength = of_nat n\<rparr>
         (if ty AND 0x80 \<noteq> 0 then None else Some data) d of
        Inl e \<Rightarrow> ((-1, []), d)
      | Inr ((rc, nb, b), d') \<Rightarrow>
          if rc < 0 then ((rc, []), d')
          else ((case nb of None \<Rightarrow> int n | Some k \<Rightarrow> k, b), d'))"

text \<open>Setting the data link reports success and sets nothing; asking for the channel or the data link
  stores one byte of the four that are read.\<close>

lemma datalink_lost:
  "cmd_set_datalink (proxy_xfer lc) v d = (0, d)"
  "cmd_get_datalink c (proxy_xfer lc) d = Inl Uninit"
  "cmd_get_channel c (proxy_xfer lc) d = Inl Uninit"
  by (simp_all add: cmd_set_datalink_def cmd_get_datalink_def cmd_get_channel_def cmd_setter_def
      get_command_def cmd_getter_def proxy_xfer_def dot11_control_request_def dot11_requests
      usb_consts is_in_def put_def CTRL_OUT_def CTRL_IN_def from_int_def numeral_3_eq_3)

lemma settings_never_set:
  "cmd_set_timeout (proxy_xfer lc) v d = (-1, d)" "cmd_set_channel (proxy_xfer lc) v d = (-1, d)"
  "cmd_close_interface (proxy_xfer lc) d = (-1, d)"
proof -
  have "\<not> (\<exists>a. dot11_control_request lc
      \<lparr>cr_bRequestType = CTRL_OUT, cr_bRequest = req, cr_wValue = 0, cr_wIndex = 0, cr_wLength = n\<rparr>
      data d = Inr a)" if "req \<in> {DOT11_SET_TIMEOUT, DOT11_SET_CHANNEL, DOT11_CLOSE_INTERFACE}"
    for req n data
    using that by (auto simp: vendor_outcome dot11_requests usb_consts CTRL_OUT_def)
  then have fail: "\<exists>e. dot11_control_request lc
      \<lparr>cr_bRequestType = CTRL_OUT, cr_bRequest = req, cr_wValue = 0, cr_wIndex = 0, cr_wLength = n\<rparr>
      data d = Inl e" if "req \<in> {DOT11_SET_TIMEOUT, DOT11_SET_CHANNEL, DOT11_CLOSE_INTERFACE}"
    for req n data
    using that by (metis obj_sumE)
  show "cmd_set_timeout (proxy_xfer lc) v d = (-1, d)"
    using fail [of DOT11_SET_TIMEOUT 4 "Some (from_int v)"]
    by (auto simp: cmd_set_timeout_def cmd_setter_def proxy_xfer_def CTRL_OUT_def from_int_def)
  show "cmd_set_channel (proxy_xfer lc) v d = (-1, d)"
    using fail [of DOT11_SET_CHANNEL 4 "Some (from_int v)"]
    by (auto simp: cmd_set_channel_def cmd_setter_def proxy_xfer_def CTRL_OUT_def from_int_def)
  show "cmd_close_interface (proxy_xfer lc) d = (-1, d)"
    using fail [of DOT11_CLOSE_INTERFACE 0 "Some []"]
    by (auto simp: cmd_close_interface_def cmd_no_data_def proxy_xfer_def CTRL_OUT_def)
qed

end
