(* ===== verification/Settings_Model.thy ===== *)
theory Settings_Model
  imports Config_Parser LibUSB_Model Injector_Model
begin

text \<open>
  What the constructors of the plugins read from the settings: the identifiers that
  \<open>DeviceProxy_LibUSB\<close> looks for and the ports of the injectors \<open>Injector_UDP\<close> and
  \<open>Injector_UDPHID\<close>, which \<open>std::stoi\<close> converts.
\<close>

section \<open>Numbers in strings\<close>

definition digit_value :: "char \<Rightarrow> nat option" where
  "digit_value c =
     (let n = of_char c :: nat in
      if 0x30 \<le> n \<and> n \<le> 0x39 then Some (n - 0x30)
      else if 0x61 \<le> n \<and> n \<le> 0x7a then Some (n - 0x61 + 10)
      else if 0x41 \<le> n \<and> n \<le> 0x5a then Some (n - 0x41 + 10) else None)"

definition is_digit :: "nat \<Rightarrow> char \<Rightarrow> bool" where
  "is_digit base c \<longleftrightarrow> (case digit_value c of None \<Rightarrow> False | Some d \<Rightarrow> d < base)"

fun digits_value :: "nat \<Rightarrow> nat \<Rightarrow> string \<Rightarrow> nat" where
  "digits_value base acc [] = acc"
| "digits_value base acc (c # cs) =
     digits_value base (base * acc + (case digit_value c of None \<Rightarrow> 0 | Some d \<Rightarrow> d)) cs"

definition is_space :: "char \<Rightarrow> bool" where
  "is_space c \<longleftrightarrow> c \<in> {CHR 0x09, CHR 0x0A, CHR 0x0B, CHR 0x0C, CHR 0x0D, CHR '' ''}"

text \<open>White space, a sign, \<open>0x\<close> for base 16, digits; what follows is ignored. Without a digit, and for
  a number that is no \<open>int\<close>, an exception is thrown that nothing catches.\<close>

definition skip_0x :: "nat \<Rightarrow> string \<Rightarrow> string" where
  "skip_0x base s =
     (case s of
        c0 # c1 # c2 # cs \<Rightarrow>
          if base = 16 \<and> c0 = CHR ''0'' \<and> c1 \<in> {CHR ''x'', CHR ''X''} \<and> is_digit 16 c2 then c2 # cs else s
      | _ \<Rightarrow> s)"

text \<open>The sign and the digits, and their value (0 without digits, as for \<open>strtol\<close>).\<close>

definition sign_digits :: "nat \<Rightarrow> string \<Rightarrow> bool \<times> string" where
  "sign_digits base str =
     (let s = dropWhile is_space str;
          s1 = (if s \<noteq> [] \<and> hd s \<in> {CHR ''-'', CHR ''+''} then tl s else s) in
      (s \<noteq> [] \<and> hd s = CHR ''-'', takeWhile (is_digit base) (skip_0x base s1)))"

definition strtol :: "nat \<Rightarrow> string \<Rightarrow> int" where
  "strtol base str =
     (case sign_digits base str of (neg, ds) \<Rightarrow>
        if neg then - int (digits_value base 0 ds) else int (digits_value base 0 ds))"

definition stoi :: "nat \<Rightarrow> string \<Rightarrow> int res" where
  "stoi base str =
     (let v = strtol base str in
      if snd (sign_digits base str) = [] \<or> v < - (2 ^ 31) \<or> 2 ^ 31 \<le> v then Inl Exits else Inr v)"

section \<open>Constructors\<close>

definition id_setting :: "string \<Rightarrow> 'p config_parser \<Rightarrow> int res" where
  "id_setting key cfg =
     (let str = cp_get key cfg in if str = [] then Inr MATCH_ANY else stoi 16 str)"

definition libusb_of_settings :: "'p config_parser \<Rightarrow> libusb res" where
  "libusb_of_settings cfg =
     and_then (id_setting ''vendorId'' cfg) (\<lambda>vendorId.
       and_then (id_setting ''productId'' cfg) (\<lambda>productId.
         Inr (new_libusb vendorId productId False)))"

text \<open>An injector and its port. When there is no port the constructor returns at once and no member of
  the object has a value (\<open>None\<close>), nor is the object entered into the settings.\<close>

definition udp_injector_of_settings :: "'p config_parser \<Rightarrow> (int \<times> udp_socket) option res" where
  "udp_injector_of_settings cfg =
     (let port_str = cp_get ''Injector_UDP::Port'' cfg in
      if port_str = [] then Inr None
      else and_then (stoi 10 port_str) (\<lambda>port. Inr (Some (port, \<lparr>us_sck = 0, us_buf = None\<rparr>))))"

definition udphid_injector_of_settings ::
  "'p \<Rightarrow> 'p config_parser \<Rightarrow> ((int \<times> udp_socket) option \<times> 'p config_parser) res" where
  "udphid_injector_of_settings this cfg =
     (let port_str = cp_get ''Injector_UDPHID::port'' cfg in
      if port_str = [] then Inr (None, cfg)
      else and_then (stoi 10 port_str) (\<lambda>port.
        Inr (Some (port, \<lparr>us_sck = 0, us_buf = None\<rparr>),
             add_pointer ''PacketFilter_UDPHID::injector'' this cfg)))"

section \<open>Lemmas\<close>

lemma settings_simps [simp]:
  "cp_get k (cp_set k' v c) = (if k = k' then v else cp_get k c)"
  "cp_get k (add_pointer k' p c) = cp_get k c" "cp_get k (add_to_vector k' v c) = cp_get k c"
  "get_vector k (cp_set k' v c) = get_vector k c" "get_vector k (add_pointer k' p c) = get_vector k c"
  "get_vector k (add_to_vector k' v c) = (if k = k' then get_vector k c @ [v] else get_vector k c)"
  "get_vector k new_config_parser = []" "cp_get k new_config_parser = []"
  by (simp_all add: cp_get_def cp_set_def add_pointer_def add_to_vector_def get_vector_def
      new_config_parser_def split: option.split)

text \<open>The last value that a list of calls or options gives.\<close>

fun last_some :: "('a \<Rightarrow> 'b option) \<Rightarrow> 'a list \<Rightarrow> 'b option" where
  "last_some f [] = None"
| "last_some f (x # xs) = (case last_some f xs of Some y \<Rightarrow> Some y | None \<Rightarrow> f x)"

text \<open>A number written in the digits of its base is read back.\<close>

fun digit_char :: "nat \<Rightarrow> char" where
  "digit_char d = char_of (if d < 10 then 0x30 + d else 0x61 + (d - 10))"

fun number :: "nat \<Rightarrow> nat \<Rightarrow> string" where
  "number base n = (if n < base \<or> base < 2 then [digit_char n]
     else number base (n div base) @ [digit_char (n mod base)])"

declare number.simps [simp del] digit_char.simps [simp del]

lemma digit_value_char: "d < 36 \<Longrightarrow> digit_value (digit_char d) = Some d"
  by (auto simp: digit_value_def digit_char.simps)

lemma digits_value_append:
  "digits_value base acc (xs @ [c]) =
     base * digits_value base acc xs + (case digit_value c of None \<Rightarrow> 0 | Some d \<Rightarrow> d)"
  by (induction xs arbitrary: acc) simp_all

lemma last_digit: "2 \<le> base \<Longrightarrow> base \<le> 36 \<Longrightarrow> digit_value (digit_char (n mod base)) = Some (n mod base)"
  using mod_less_divisor [of base n] by (intro digit_value_char) linarith

lemma number_value: "2 \<le> base \<Longrightarrow> base \<le> 36 \<Longrightarrow> digits_value base 0 (number base n) = n"
proof (induction base n rule: number.induct)
  case (1 base n)
  then show ?case
    by (cases "n < base")
      (simp_all add: number.simps [of base n] digits_value_append digit_value_char last_digit)
qed

lemma number_digits: "2 \<le> base \<Longrightarrow> base \<le> 36 \<Longrightarrow> list_all (is_digit base) (number base n)"
proof (induction base n rule: number.induct)
  case (1 base n)
  then show ?case
    by (cases "n < base") (simp_all add: number.simps [of base n] is_digit_def digit_value_char last_digit)
qed

lemma number_not_Nil: "number base n \<noteq> []"
  by (simp add: number.simps [of base n])

lemma digit_no_space:
  assumes "is_digit base c"
  shows "\<not> is_space c" "c \<noteq> CHR ''-''" "c \<noteq> CHR ''+''"
  using assms by (auto simp: is_digit_def is_space_def digit_value_def)

lemma x_no_digit: "\<not> is_digit 16 CHR ''x''" "\<not> is_digit 16 CHR ''X''"
  by (auto simp: is_digit_def digit_value_def)

lemma skip_0x_digits: "base \<le> 16 \<Longrightarrow> list_all (is_digit base) s \<Longrightarrow> skip_0x base s = s"
  by (auto simp: skip_0x_def x_no_digit split: list.split)

lemma strtol_digits:
  assumes "base \<le> 16" "list_all (is_digit base) s" "s \<noteq> []"
  shows "sign_digits base s = (False, s)" "strtol base s = int (digits_value base 0 s)"
proof -
  obtain c cs where s: "s = c # cs" using assms(3) by (cases s) auto
  with assms(2) have c: "is_digit base c" by simp
  have "dropWhile is_space s = s" using digit_no_space(1) [OF c] by (simp add: s)
  moreover have "takeWhile (is_digit base) s = s"
    using assms(2) by (simp add: takeWhile_eq_all_conv list_all_iff)
  ultimately show "sign_digits base s = (False, s)"
    using digit_no_space [OF c] skip_0x_digits [OF assms(1,2)]
    by (simp add: sign_digits_def Let_def s)
  then show "strtol base s = int (digits_value base 0 s)" by (simp add: strtol_def)
qed

lemma strtol_number:
  assumes "2 \<le> base" "base \<le> 16"
  shows "sign_digits base (number base n) = (False, number base n)"
    "strtol base (number base n) = int n"
  using strtol_digits [OF assms(2) number_digits number_not_Nil] number_value [of base n] assms
  by simp_all

text \<open>\<open>stoi\<close> reads back every number that is written in the base it is given (10 for ports, 16 for
  identifiers), as long as it is an \<open>int\<close>.\<close>

lemma stoi_number:
  assumes "base \<in> {10, 16}" "n < 2 ^ 31"
  shows "stoi base (number base n) = Inr (int n)"
proof -
  from assms(1) have "2 \<le> base" "base \<le> 16" by auto
  with strtol_number [of base n] number_not_Nil [of base n] assms(2)
  show ?thesis by (simp add: stoi_def)
qed

end
