(* ===== verification/Log_Replay.thy ===== *)
theory Log_Replay
  imports Log_Filters Settings_Model
begin

text \<open>
  The program that sends a log of packets to the UDP injector
  (\<open>src/tools/additional/UDP_injector.c\<close>), and the way of a packet through the stream log, this
  program and the injector. The program reads the byte after the block that holds the file; what is
  there is the parameter \<open>after\<close>, and reading further is a fault. (\<open>sscanf\<close> is given the rest of the
  file, which does not end with a zero byte: here it reads to the end of the word.)
\<close>

section \<open>The program\<close>

definition byte_at :: "bytes \<Rightarrow> u8 \<Rightarrow> nat \<Rightarrow> u8 res" where
  "byte_at file after i =
     (if i < length file then Inr (file ! i) else if i = length file then Inr after else Inl OutOfBounds)"

definition chars :: "bytes \<Rightarrow> string" where
  "chars bs = map (\<lambda>b. char_of (unat b)) bs"

definition isspace :: "u8 \<Rightarrow> bool" where
  "isspace c \<longleftrightarrow> is_space (char_of (unat c))"

definition isalnum :: "u8 \<Rightarrow> bool" where
  "isalnum c \<longleftrightarrow> c < 0x80 \<and> is_digit 36 (char_of (unat c))"

text \<open>\<open>while (file_bytes[index+j] != stop && j < n)\<close>: the characters that are copied.\<close>

fun scan_field :: "u8 \<Rightarrow> nat \<Rightarrow> bytes \<Rightarrow> u8 \<Rightarrow> nat \<Rightarrow> bytes res" where
  "scan_field stop 0 file after i = and_then (byte_at file after i) (\<lambda>_. Inr [])"
| "scan_field stop (Suc n) file after i =
     and_then (byte_at file after i) (\<lambda>c.
       if c = stop then Inr [] else and_then (scan_field stop n file after (i + 1)) (\<lambda>r. Inr (c # r)))"

text \<open>\<open>while (isspace(file_bytes[index])) index++\<close>, and the word that \<open>sscanf\<close> finds.\<close>

function skip_space :: "bytes \<Rightarrow> u8 \<Rightarrow> nat \<Rightarrow> nat res" where
  "skip_space file after i =
     (if length file < i then Inl OutOfBounds
      else and_then (byte_at file after i) (\<lambda>c.
        if isspace c then skip_space file after (i + 1) else Inr i))"
  by pat_completeness auto
termination by (relation "measure (\<lambda>(file, after, i). Suc (length file) - i)") auto

function word_at :: "bytes \<Rightarrow> u8 \<Rightarrow> nat \<Rightarrow> bytes res" where
  "word_at file after i =
     (if length file < i then Inl OutOfBounds
      else and_then (byte_at file after i) (\<lambda>c.
        if isspace c \<or> c = 0 then Inr []
        else and_then (word_at file after (i + 1)) (\<lambda>r. Inr (c # r))))"
  by pat_completeness auto
termination by (relation "measure (\<lambda>(file, after, i). Suc (length file) - i)") auto

declare skip_space.simps [simp del] word_at.simps [simp del]

text \<open>The bytes of a packet; \<open>data_bytes\<close> has three characters, and keeps its contents when there is no
  word. The result holds the index after the last one.\<close>

fun read_data :: "nat \<Rightarrow> bytes option \<Rightarrow> bytes \<Rightarrow> u8 \<Rightarrow> nat \<Rightarrow> (bytes \<times> nat) res" where
  "read_data 0 data_bytes file after i = Inr ([], i)"
| "read_data (Suc n) data_bytes file after i =
     and_then (skip_space file after i) (\<lambda>i1. and_then (word_at file after i1) (\<lambda>w.
       if length w > 2 then Inl OutOfBounds
       else (case (if w = [] then data_bytes else Some w) of
          None \<Rightarrow> Inl Uninit
        | Some t \<Rightarrow>
            and_then (read_data n (Some t) file after (i1 + 3)) (\<lambda>(d, i2).
              Inr (of_int (strtol 16 (chars t)) # d, i2)))))"

definition skip_to_bracket :: "bytes \<Rightarrow> nat \<Rightarrow> nat" where
  "skip_to_bracket file i = i + length (takeWhile (\<lambda>c. c \<noteq> 0x5b) (drop i file))"

text \<open>The loop over the packets: the datagrams that are sent, and what \<open>main\<close> returns.\<close>

fun replay :: "nat \<Rightarrow> bytes \<Rightarrow> u8 \<Rightarrow> nat \<Rightarrow> (bytes list \<times> int) res" where
  "replay 0 file after i = (if length file \<le> i then Inr ([], 0) else Inl OutOfFuel)"
| "replay (Suc fuel) file after i =
     (if length file \<le> i then Inr ([], 0)
      else if \<not> isalnum (file ! i) then Inr ([], 1)
      else and_then (scan_field 0x5b 5 file after i) (\<lambda>endpoint_str.
        let endpoint = of_int (strtol 16 (chars endpoint_str)) :: u8;
            i1 = i + length endpoint_str in
        and_then (byte_at file after i1) (\<lambda>c. if c \<noteq> 0x5b then Inr ([], 1)
          else and_then (scan_field 0x5d 11 file after (i1 + 1)) (\<lambda>usblen_str.
            let usblen = of_int (strtol 10 (chars usblen_str)) :: u16;
                i2 = i1 + 1 + length usblen_str + 2 in
            and_then (if endpoint = 2 then read_data (unat usblen) None file after i2
                      else Inr ([], i2)) (\<lambda>(data, i3).
              let i4 = skip_to_bracket file i3 in
              and_then (byte_at file after i4) (\<lambda>c.
                and_then (replay fuel file after (if c = 0x5b then i4 - 2 else i4)) (\<lambda>(sent, rc).
                  Inr (if endpoint = 2
                       then ([endpoint, 0, hi8 usblen, lo8 usblen] @ data) # sent else sent,
                       rc))))))))"

text \<open>\<open>main\<close> with one argument, the address; every round goes on in the file, so its length is enough
  fuel.\<close>

definition udp_injector_main :: "bytes \<Rightarrow> u8 \<Rightarrow> (bytes list \<times> int) res" where
  "udp_injector_main file after = replay (length file) file after 0"

section \<open>Lemmas: reading\<close>

lemma byte_at_append [simp]:
  "byte_at (pre @ c # suf) after (length pre) = Inr c"
  "byte_at pre after (length pre) = Inr after"
  by (simp_all add: byte_at_def)

lemma scan_field_append:
  "stop \<notin> set x \<Longrightarrow> length x \<le> n \<Longrightarrow>
   scan_field stop n (pre @ x @ stop # suf) after (length pre) = Inr x"
proof (induction x arbitrary: n pre)
  case Nil
  then show ?case by (cases n) simp_all
next
  case (Cons c x)
  then obtain m where n: "n = Suc m" by (cases n) auto
  from Cons.IH [of m "pre @ [c]"] Cons.prems n show ?case by auto
qed

lemma skip_space_append:
  "list_all isspace x \<Longrightarrow> \<not> isspace c \<Longrightarrow>
   skip_space (pre @ x @ c # suf) after (length pre) = Inr (length pre + length x)"
proof (induction x arbitrary: pre)
  case Nil
  then show ?case by (simp add: skip_space.simps)
next
  case (Cons d x)
  then show ?case
    using Cons.IH [of "pre @ [d]"] by (simp add: skip_space.simps [of _ _ "length pre"])
qed

lemma word_at_append:
  "list_all (\<lambda>c. \<not> isspace c \<and> c \<noteq> 0) x \<Longrightarrow> isspace c \<Longrightarrow>
   word_at (pre @ x @ c # suf) after (length pre) = Inr x"
proof (induction x arbitrary: pre)
  case Nil
  then show ?case by (simp add: word_at.simps)
next
  case (Cons d x)
  then show ?case
    using Cons.IH [of "pre @ [d]"] by (simp add: word_at.simps [of _ _ "length pre"])
qed

text \<open>The digits that the log writes are those that are read back.\<close>

lemma hex_digit_char:
  assumes "d < 16"
  shows "char_of (unat (hex_digit d)) = digit_char d" "isalnum (hex_digit d)"
    "\<not> isspace (hex_digit d)" "hex_digit d \<noteq> 0" "hex_digit d \<noteq> 0x5b" "hex_digit d \<noteq> 0x5d"
proof -
  have "list_all (\<lambda>d. char_of (unat (hex_digit d)) = digit_char d \<and> isalnum (hex_digit d) \<and>
    \<not> isspace (hex_digit d) \<and> hex_digit d \<noteq> 0 \<and> hex_digit d \<noteq> 0x5b \<and> hex_digit d \<noteq> 0x5d) [0..<16]"
    by code_simp
  with assms show "char_of (unat (hex_digit d)) = digit_char d" "isalnum (hex_digit d)"
    "\<not> isspace (hex_digit d)" "hex_digit d \<noteq> 0" "hex_digit d \<noteq> 0x5b" "hex_digit d \<noteq> 0x5d"
    by (simp_all add: list_all_iff)
qed

lemma hex2_read:
  "strtol 16 (chars (hex2 b)) = int (unat b)"
  "isalnum (hex2 b ! 0)" "list_all (\<lambda>c. \<not> isspace c \<and> c \<noteq> 0) (hex2 b)" "0x5b \<notin> set (hex2 b)"
proof -
  have d: "unat b div 16 < 16" "unat b mod 16 < 16"
    using unat_u8_less [of b] by (simp_all add: less_mult_imp_div_less del: unat_u8_less)
  have c: "chars (hex2 b) = [digit_char (unat b div 16), digit_char (unat b mod 16)]"
    using d by (simp add: chars_def hex2_def hex_digit_char)
  have v: "digit_value (digit_char (unat b div 16)) = Some (unat b div 16)"
    "digit_value (digit_char (unat b mod 16)) = Some (unat b mod 16)"
    using d by (intro digit_value_char; linarith)+
  show "strtol 16 (chars (hex2 b)) = int (unat b)"
    using d v by (simp add: strtol_digits(2) c is_digit_def)
  show "isalnum (hex2 b ! 0)" "list_all (\<lambda>c. \<not> isspace c \<and> c \<noteq> 0) (hex2 b)" "0x5b \<notin> set (hex2 b)"
    using d hex_digit_char [of "unat b div 16"] hex_digit_char [of "unat b mod 16"]
    by (auto simp: hex2_def)
qed

lemma decimal_digit: "d < 10 \<Longrightarrow> 0x30 + of_nat d = hex_digit d"
  by (simp add: hex_digit_def)

lemma decimal_chars: "chars (decimal n) = number 10 n"
proof (induction n rule: decimal.induct)
  case (1 n)
  show ?case
  proof (cases "n < 10")
    case True
    then show ?thesis by (simp add: chars_def number.simps [of 10 n] decimal_digit hex_digit_char)
  next
    case False
    have "n mod 10 < 10" by simp
    with False 1 show ?thesis
      by (simp add: chars_def number.simps [of 10 n] decimal.simps [of n] decimal_digit hex_digit_char
          del: decimal.simps)
  qed
qed

lemma decimal_set: "c \<in> set (decimal n) \<Longrightarrow> c \<noteq> 0x5b \<and> c \<noteq> 0x5d"
proof (induction n rule: decimal.induct)
  case (1 n)
  have "n mod 10 < 10" by simp
  with 1 show ?case
    by (subst (asm) (2) decimal.simps)
      (auto simp: decimal_digit hex_digit_char simp del: decimal.simps split: if_splits)
qed

lemma decimal_length: "n < 100 \<Longrightarrow> length (decimal n) \<le> 11"
  by simp

declare decimal.simps [simp del]

section \<open>Lemmas: the bytes of a packet\<close>

text \<open>A dump as the program reads it: for every byte the white space before its two digits and the one
  white character after them, which the program skips unseen.\<close>

type_synonym layout = "(bytes \<times> u8 \<times> u8) list"

definition layout_text :: "layout \<Rightarrow> bytes" where
  "layout_text xs = concat (map (\<lambda>(ws, b, s). ws @ hex2 b @ [s]) xs)"

definition layout_bytes :: "layout \<Rightarrow> bytes" where
  "layout_bytes xs = map (\<lambda>(ws, b, s). b) xs"

definition layout_ok :: "layout \<Rightarrow> bool" where
  "layout_ok xs \<longleftrightarrow> list_all (\<lambda>(ws, b, s). list_all isspace ws \<and> isspace s) xs"

lemma read_layout:
  "layout_ok xs \<Longrightarrow> read_data (length xs) db (pre @ layout_text xs @ suf) after (length pre) =
     Inr (layout_bytes xs, length pre + length (layout_text xs))"
proof (induction xs arbitrary: pre db)
  case Nil
  then show ?case by (simp add: layout_text_def layout_bytes_def)
next
  case (Cons x xs)
  obtain ws b s where x: "x = (ws, b, s)" by (cases x) auto
  let ?t = "layout_text xs"
  have ok: "layout_ok xs" "list_all isspace ws" "isspace s"
    using Cons.prems by (simp_all add: layout_ok_def x)
  obtain h1 h2 where h: "hex2 b = [h1, h2]" by (simp add: hex2_def)
  have "\<not> isspace h1" using hex2_read(3) [of b] by (simp add: h)
  then have sp: "skip_space (pre @ ws @ h1 # h2 # s # ?t @ suf) after (length pre) =
      Inr (length pre + length ws)"
    using skip_space_append [OF ok(2), of h1 pre "h2 # s # ?t @ suf"] by simp
  have wd: "word_at (pre @ ws @ h1 # h2 # s # ?t @ suf) after (length pre + length ws) = Inr [h1, h2]"
    using word_at_append [OF hex2_read(3) ok(3), of "pre @ ws" b "?t @ suf"] by (simp add: h)
  have v: "strtol 16 (chars [h1, h2]) = int (unat b)"
    using hex2_read(1) [of b] by (simp add: h)
  have "read_data (length xs) (Some [h1, h2]) (pre @ ws @ h1 # h2 # s # ?t @ suf) after
      (length pre + length ws + 3) =
      Inr (layout_bytes xs, length pre + length ws + 3 + length ?t)"
    using Cons.IH [OF ok(1), of "Some [h1, h2]" "pre @ ws @ [h1, h2, s]"]
    by (simp add: numeral_3_eq_3)
  with sp wd v show ?case by (simp add: x h layout_text_def layout_bytes_def)
qed

lemma layout_exists:
  assumes "0 < k" "list_all isspace ws" "\<forall>i>0. sep i \<noteq> [] \<and> list_all isspace (sep i)"
  shows "\<exists>xs. layout_ok xs \<and> layout_bytes xs = b # bs \<and>
    layout_text xs = ws @ hex2 b @ concat (map (\<lambda>(i, b). sep i @ hex2 b) (enumerate k bs)) @ [0x0A]"
  using assms(1,2)
proof (induction bs arbitrary: k ws b)
  case Nil
  have "isspace 0x0A" by code_simp
  with Nil show ?case
    by (intro exI [of _ "[(ws, b, 0x0A)]"]) (simp add: layout_ok_def layout_bytes_def layout_text_def)
next
  case (Cons b' bs)
  from assms(3) Cons.prems(1) have k: "sep k \<noteq> []" "list_all isspace (sep k)" by auto
  then obtain s ws' where s: "sep k = s # ws'" by (cases "sep k") auto
  with k have s: "sep k = s # ws'" "isspace s" "list_all isspace ws'" by auto
  from Cons.IH [OF _ s(3), of "k + 1" b'] obtain xs where xs: "layout_ok xs" "layout_bytes xs = b' # bs"
    "layout_text xs = ws' @ hex2 b' @ concat (map (\<lambda>(i, b). sep i @ hex2 b) (enumerate (k + 1) bs)) @ [0x0A]"
    by auto
  show ?case
    using xs s Cons.prems(2)
    by (intro exI [of _ "(ws, b, s) # xs"]) (simp add: layout_ok_def layout_bytes_def layout_text_def)
qed

definition dump_of :: "bytes \<Rightarrow> bytes" where
  "dump_of d = (if length d \<le> 32 then narrow_dump d else wide_dump 32 0 d)"

lemma dump_layout:
  assumes "d \<noteq> []"
  shows "\<exists>xs. layout_ok xs \<and> layout_bytes xs = d \<and> layout_text xs = [0x20] @ dump_of d @ [0x0A]"
proof -
  obtain b bs where d: "d = b # bs" using assms by (cases d) auto
  have sp: "isspace 0x20" "isspace 0x0A" "isspace 0x09" by code_simp+
  have "\<exists>xs. layout_ok xs \<and> layout_bytes xs = b # bs \<and> layout_text xs = [0x20] @ hex2 b @
      concat (map (\<lambda>(i, b). (if i = 0 then [] else [0x20]) @ hex2 b) (enumerate 1 bs)) @ [0x0A]"
    by (rule layout_exists) (simp_all add: sp)
  moreover have "\<exists>xs. layout_ok xs \<and> layout_bytes xs = b # bs \<and> layout_text xs = [0x20, 0x0A, 0x09] @ hex2 b @
      concat (map (\<lambda>(i, b). (if i mod 32 = 0 then [0x0A, 0x09] else [0x20]) @ hex2 b) (enumerate 1 bs)) @ [0x0A]"
    by (rule layout_exists) (simp_all add: sp)
  ultimately show ?thesis
    by (simp add: d dump_of_def narrow_dump_def wide_dump_def)
qed

section \<open>Lemmas: the line of a packet\<close>

definition log_head :: "u8 \<Rightarrow> nat \<Rightarrow> bytes" where
  "log_head ep n = hex2 ep @ [0x5b] @ decimal n @ [0x5d, 0x3a]"

definition log_line :: "u8 \<Rightarrow> bytes \<Rightarrow> bytes" where
  "log_line ep d = log_head ep (length d) @ [0x20] @ dump_of d @ [0x0A]"

definition next_line :: "bytes \<Rightarrow> bool" where
  "next_line rest \<longleftrightarrow>
     rest = [] \<or> (\<exists>h1 h2 suf. rest = h1 # h2 # 0x5b # suf \<and> h1 \<noteq> 0x5b \<and> h2 \<noteq> 0x5b)"

lemma next_log_line: "next_line (log_line ep d @ rest)"
  using hex2_read(4) [of ep] by (auto simp: next_line_def log_line_def log_head_def hex2_def)

lemma layout_no_bracket: "layout_ok xs \<Longrightarrow> 0x5b \<notin> set (layout_text xs)"
proof -
  have "\<not> isspace 0x5b" by code_simp
  then show "layout_ok xs \<Longrightarrow> 0x5b \<notin> set (layout_text xs)"
    using hex2_read(4) by (fastforce simp: layout_ok_def layout_text_def list_all_iff)
qed

lemma skip_to_bracket_append:
  assumes "0x5b \<notin> set x" "next_line rest" "after \<noteq> 0x5b" "file = pre @ x @ rest" "i = length pre"
  shows "\<exists>c. byte_at file after (skip_to_bracket file i) = Inr c \<and>
    (if c = 0x5b then skip_to_bracket file i - 2 else skip_to_bracket file i) = length (pre @ x)"
proof -
  have "takeWhile (\<lambda>c. c \<noteq> 0x5b) (x @ rest) = x @ takeWhile (\<lambda>c. c \<noteq> 0x5b) rest"
    using assms(1) by (subst takeWhile_append2) auto
  then show ?thesis
    using assms(2-5) by (auto simp: next_line_def skip_to_bracket_def byte_at_def nth_append)
qed

lemma read_head:
  assumes "n < 64"
  shows "isalnum ((pre @ log_head ep n @ suf) ! length pre)"
    "scan_field 0x5b 5 (pre @ log_head ep n @ suf) after (length pre) = Inr (hex2 ep)"
    "byte_at (pre @ log_head ep n @ suf) after (length pre + 2) = Inr 0x5b"
    "scan_field 0x5d 11 (pre @ log_head ep n @ suf) after (length pre + 2 + 1) = Inr (decimal n)"
    "length pre + 2 + 1 + length (decimal n) + 2 = length (pre @ log_head ep n)"
proof -
  show "isalnum ((pre @ log_head ep n @ suf) ! length pre)"
    using hex2_read(2) [of ep] by (simp add: log_head_def nth_append)
  show "scan_field 0x5b 5 (pre @ log_head ep n @ suf) after (length pre) = Inr (hex2 ep)"
    using scan_field_append [of "0x5b" "hex2 ep" 5 pre "decimal n @ [0x5d, 0x3a] @ suf" after] hex2_read(4)
    by (simp add: log_head_def)
  show "byte_at (pre @ log_head ep n @ suf) after (length pre + 2) = Inr 0x5b"
    using byte_at_append(1) [of "pre @ hex2 ep" "0x5b" "decimal n @ [0x5d, 0x3a] @ suf" after]
    by (simp add: log_head_def)
  have "0x5d \<notin> set (decimal n)" using decimal_set by blast
  moreover have "length (decimal n) \<le> 11" using assms decimal_length [of n] by linarith
  ultimately show "scan_field 0x5d 11 (pre @ log_head ep n @ suf) after (length pre + 2 + 1) = Inr (decimal n)"
    using scan_field_append [of "0x5d" "decimal n" 11 "pre @ hex2 ep @ [0x5b]" "0x3a # suf" after]
    by (simp add: log_head_def numeral_3_eq_3)
  show "length pre + 2 + 1 + length (decimal n) + 2 = length (pre @ log_head ep n)"
    by (simp add: log_head_def)
qed

lemma decimal_read: "strtol 10 (chars (decimal n)) = int n"
  by (simp add: decimal_chars strtol_number)

text \<open>One round of the loop.\<close>

lemma replay_line:
  assumes "d \<noteq> []" "length d < 64" "next_line rest" "after \<noteq> 0x5b"
  shows "replay (Suc fuel) (pre @ log_line ep d @ rest) after (length pre) =
    and_then (replay fuel (pre @ log_line ep d @ rest) after (length pre + length (log_line ep d)))
      (\<lambda>(sent, rc). Inr (if ep = 2 then datagram 2 0 d # sent else sent, rc))"
proof -
  obtain xs where xs: "layout_ok xs" "layout_bytes xs = d" "layout_text xs = [0x20] @ dump_of d @ [0x0A]"
    using dump_layout [OF assms(1)] by blast
  let ?n = "length d" and ?t = "layout_text xs"
  let ?h = "log_head ep ?n"
  let ?file = "pre @ ?h @ ?t @ rest"
  have line: "log_line ep d = ?h @ ?t" by (simp add: log_line_def xs(3))
  have n: "length xs = ?n" using xs(2) by (auto simp: layout_bytes_def)
  note head = read_head(1) [OF assms(2), of pre ep "?t @ rest"]
    read_head(2-4) [OF assms(2), of pre ep "?t @ rest" after] read_head(5) [OF assms(2), of pre ep]
  have u: "unat (of_int (int ?n) :: u16) = ?n" using assms(2) by (simp add: unat_of_nat_u16)
  have rd: "read_data ?n None ?file after (length (pre @ ?h)) = Inr (d, length (pre @ ?h @ ?t))"
    using read_layout [OF xs(1), of None "pre @ ?h" rest after] by (simp add: n xs(2) add.assoc)
  define i3 where "i3 = (if ep = 2 then length (pre @ ?h @ ?t) else length (pre @ ?h))"
  have "\<exists>c. byte_at ?file after (skip_to_bracket ?file i3) = Inr c \<and>
    (if c = 0x5b then skip_to_bracket ?file i3 - 2 else skip_to_bracket ?file i3) = length (pre @ ?h @ ?t)"
  proof (cases "ep = 2")
    case True
    then show ?thesis
      using skip_to_bracket_append [of "[]" rest after ?file "pre @ ?h @ ?t" i3] assms(3,4)
      by (simp add: i3_def)
  next
    case False
    then show ?thesis
      using skip_to_bracket_append [of ?t rest after ?file "pre @ ?h" i3] assms(3,4)
        layout_no_bracket [OF xs(1)]
      by (simp add: i3_def)
  qed
  then obtain c where c: "byte_at ?file after (skip_to_bracket ?file i3) = Inr c"
    "(if c = 0x5b then skip_to_bracket ?file i3 - 2 else skip_to_bracket ?file i3) =
       length pre + length (log_line ep d)"
    by (auto simp: line)
  define log where "log = ?file"
  define i2 where "i2 = length (pre @ ?h)"
  define i4 where "i4 = skip_to_bracket log i3"
  note f = log_def [symmetric]
  have "(if ep = 2 then read_data ?n None log after i2 else Inr ([], i2)) = Inr (if ep = 2 then d else [], i3)"
    unfolding i2_def i3_def using rd [unfolded f] by (simp only: split: if_split) blast
  moreover have "\<not> length log \<le> length pre" by (simp add: log_def log_head_def)
  moreover have "length pre + 2 + 1 + length (decimal ?n) + 2 = i2" using head(5) by (simp add: i2_def)
  moreover have "pre @ log_line ep d @ rest = log" by (simp add: log_def line)
  moreover have "of_int (int (unat ep)) = ep" by simp
  ultimately have "replay (Suc fuel) log after (length pre) =
    and_then (replay fuel log after (if c = 0x5b then i4 - 2 else i4)) (\<lambda>(sent, rc).
      Inr (if ep = 2 then ([ep, 0, hi8 (of_int (int ?n)), lo8 (of_int (int ?n))] @
        (if ep = 2 then d else [])) # sent else sent, rc))"
    using head(1) c(1) [unfolded f, folded i4_def]
    by (simp only: replay.simps head(2-4) [unfolded f] f i4_def [symmetric] if_False Let_def
        and_then_Inr length_hex2 hex2_read(1) decimal_read u prod.case not_True_eq_False simp_thms)
  then show ?thesis
    using c(2) [unfolded f, folded i4_def] \<open>pre @ log_line ep d @ rest = log\<close>
    by (simp add: datagram_def)
qed

lemma replay_lines:
  assumes "\<forall>(ep, d)\<in>set ps. d \<noteq> [] \<and> length d < 64" "after \<noteq> 0x5b" "length ps \<le> fuel"
  shows "replay fuel (pre @ concat (map (\<lambda>(ep, d). log_line ep d) ps)) after (length pre) =
    Inr (map (\<lambda>(ep, d). datagram 2 0 d) (filter (\<lambda>(ep, d). ep = 2) ps), 0)"
  using assms(1,3)
proof (induction ps arbitrary: fuel pre)
  case Nil
  then show ?case by (cases fuel) simp_all
next
  case (Cons p ps)
  obtain ep d where p: "p = (ep, d)" by (cases p) auto
  obtain m where m: "fuel = Suc m" "length ps \<le> m" using Cons.prems(2) by (cases fuel) auto
  let ?rest = "concat (map (\<lambda>(ep, d). log_line ep d) ps)"
  have "next_line ?rest"
  proof (cases ps)
    case (Cons q qs)
    then show ?thesis using next_log_line by (cases q) simp
  qed (simp add: next_line_def)
  then have "replay (Suc m) (pre @ log_line ep d @ ?rest) after (length pre) =
    and_then (replay m (pre @ log_line ep d @ ?rest) after (length pre + length (log_line ep d)))
      (\<lambda>(sent, rc). Inr (if ep = 2 then datagram 2 0 d # sent else sent, rc))"
    using Cons.prems(1) assms(2) by (intro replay_line) (auto simp: p)
  with Cons.IH [of m "pre @ log_line ep d"] Cons.prems(1) m show ?case
    by (simp add: p del: replay.simps)
qed

lemma log_line_not_Nil: "Suc 0 \<le> length (log_line ep d)"
  by (simp add: log_line_def)

lemma fuel_enough: "length ps \<le> length (concat (map (\<lambda>(ep, d). log_line ep d) ps))"
proof (induction ps)
  case (Cons p ps)
  then show ?case
    using add_mono [OF log_line_not_Nil [of "fst p" "snd p"] Cons.IH] by (simp add: case_prod_beta)
qed simp

section \<open>Properties\<close>

text \<open>What the injector makes of a datagram for endpoint 2, whatever is in its buffer.\<close>

lemma injected_datagram:
  assumes "packet_ok p" "pk_data p = Some d" "length d < 64" "pk_bEndpoint p = 2"
  shows "udp_get_packets (receive (datagram 2 0 d) buf) =
    Inr (InjPacket (p\<lparr>pk_filter := True, pk_transmit := True\<rparr>))"
proof -
  have n: "unat (of_nat (length d) :: u16) = length d" "unat (pk_wLength p) = length d"
    using assms by (simp_all add: unat_of_nat_u16 packet_ok_def)
  then have "pk_wLength p = of_nat (length d)" by (metis of_nat_unat word_of_int_uint word_unat_eq_iff)
  with n assms show ?thesis
    by (cases p) (simp add: udp_get_packets_def receive_def datagram_def Let_def new_packet_def UDP_BUFFER_SIZE_def)
qed

text \<open>C20: a log can be replayed. When the stream log has written the packets that passed, each of them
  with 1 to 63 bytes, the program sends exactly those for endpoint 2, in their order, and ends
  with 0; and the UDP injector turns every datagram back into the packet that was logged, to be
  filtered and transmitted, whatever earlier datagrams left in its buffer. This holds for every
  byte behind the block with the file but an opening bracket.\<close>

theorem log_replayed:
  assumes "\<forall>p\<in>set ps. packet_ok p \<and> 0 < unat (pk_wLength p) \<and> unat (pk_wLength p) < 64"
    and "after \<noteq> 0x5b"
  shows "\<exists>lines sent. map stream_log_packet ps = map Inr lines \<and>
    udp_injector_main (concat lines) after = Inr (sent, 0) \<and>
    map (\<lambda>s. udp_get_packets (receive s buf)) sent =
      map (\<lambda>p. Inr (InjPacket (p\<lparr>pk_filter := True, pk_transmit := True\<rparr>)))
        (filter (\<lambda>p. pk_bEndpoint p = 2) ps)"
proof -
  define line where "line p = log_line (pk_bEndpoint p) (the (pk_data p))" for p :: packet
  define eds where "eds = map (\<lambda>p. (pk_bEndpoint p, the (pk_data p))) ps"
  have dat: "\<exists>d. pk_data p = Some d \<and> d \<noteq> [] \<and> length d < 64" "packet_ok p" if "p \<in> set ps" for p
  proof -
    from assms(1) that show "packet_ok p" by blast
    then obtain d where d: "pk_data p = Some d" "length d = unat (pk_wLength p)"
      by (auto simp: packet_ok_def)
    moreover from assms(1) that have "0 < unat (pk_wLength p)" "unat (pk_wLength p) < 64" by auto
    ultimately have "pk_data p = Some d" "0 < length d" "length d < 64" by simp_all
    then show "\<exists>d. pk_data p = Some d \<and> d \<noteq> [] \<and> length d < 64" by auto
  qed
  have "stream_log_packet p = Inr (line p)" if "p \<in> set ps" for p
    using dat [OF that] stream_log_exact [of p]
    by (auto simp: line_def log_line_def log_head_def dump_of_def ascii_def)
  then have lines: "map stream_log_packet ps = map Inr (map line ps)" by simp
  have txt_eq: "concat (map line ps) = concat (map (\<lambda>(ep, d). log_line ep d) eds)"
    by (simp add: eds_def line_def [abs_def] comp_def)
  have "\<forall>(ep, d)\<in>set eds. d \<noteq> [] \<and> length d < 64"
    using dat(1) by (fastforce simp: eds_def)
  then have run: "udp_injector_main (concat (map line ps)) after =
      Inr (map (\<lambda>(ep, d). datagram 2 0 d) (filter (\<lambda>(ep, d). ep = 2) eds), 0)"
    unfolding udp_injector_main_def txt_eq
    using replay_lines [OF _ assms(2) fuel_enough, of eds "[]"] by simp
  have "map (\<lambda>(ep, d). datagram 2 0 d) (filter (\<lambda>(ep, d). ep = 2) eds) =
      map (\<lambda>p. datagram 2 0 (the (pk_data p))) (filter (\<lambda>p. pk_bEndpoint p = 2) ps)"
    by (simp add: eds_def filter_map comp_def)
  moreover have "udp_get_packets (receive (datagram 2 0 (the (pk_data p))) buf) =
      Inr (InjPacket (p\<lparr>pk_filter := True, pk_transmit := True\<rparr>))"
    if "p \<in> set ps" "pk_bEndpoint p = 2" for p
  proof -
    from dat(1) [OF that(1)] obtain d where "pk_data p = Some d" "length d < 64" by blast
    with injected_datagram [OF dat(2) [OF that(1)] _ _ that(2), of d buf] show ?thesis by simp
  qed
  ultimately have "map (\<lambda>s. udp_get_packets (receive s buf))
      (map (\<lambda>(ep, d). datagram 2 0 d) (filter (\<lambda>(ep, d). ep = 2) eds)) =
      map (\<lambda>p. Inr (InjPacket (p\<lparr>pk_filter := True, pk_transmit := True\<rparr>)))
        (filter (\<lambda>p. pk_bEndpoint p = 2) ps)"
    by (simp only: map_map comp_def) (rule map_cong [OF refl], simp)
  with lines run show ?thesis by blast
qed

theorem log_replayed_witness:
  "\<exists>lines sent.
     map stream_log_packet [new_packet 2 (Some [0xca, 0xfe]) 2, new_packet 0x81 (Some [7]) 1] = map Inr lines \<and>
     udp_injector_main (concat lines) 0 = Inr (sent, 0) \<and>
     map (\<lambda>s. udp_get_packets (receive s [])) sent = [Inr (InjPacket (new_packet 2 (Some [0xca, 0xfe]) 2))]"
  using log_replayed [of "[new_packet 2 (Some [0xca, 0xfe]) 2, new_packet 0x81 (Some [7]) 1]" 0 "[]"]
  by (simp add: packet_ok_def new_packet_def)

text \<open>When the byte behind the block is an opening bracket, the program steps back into the last line and
  reads from there behind the block: here already after a single packet.\<close>

lemma bracket_behind: "udp_injector_main (log_line 2 [0xca]) 0x5b = Inl OutOfBounds"
  by code_simp

end
