(* ===== verification/Mitm.thy ===== *)
theory Mitm
  imports Settings_Model
begin

text \<open>
  The command line tool (\<open>src/tools/usb-mitm.cpp\<close>): from the options to the settings. The options that
  \<open>getopt\<close> finds and the files are parameters.
\<close>

section \<open>Options\<close>

text \<open>The options of \<open>getopt(argc, argv, ...)\<close> with their arguments; \<open>OptOther\<close> is everything else
  that it returns, an error among them.\<close>

datatype mitm_opt =
    OptVendor string | OptProduct string | OptPlugin string | OptDevice string | OptHost string
  | OptDebug | OptServer | OptClient string | OptFile string | OptLog | OptMassStorage | OptInject
  | OptKeyLogger "string option" | OptCapture string | OptXbox | OptHelp | OptOther

text \<open>\<open>stderr\<close>, and the results of \<open>fopen\<close> and of reading a file of settings.\<close>

record 'p mitm_env =
  me_stderr :: 'p
  me_fopen :: "string \<Rightarrow> 'p option"
  me_file :: "string \<Rightarrow> string list option"

record 'p mitm =
  mi_cfg :: "'p config_parser"
  mi_debug :: u32
  mi_client :: bool
  mi_server :: bool
  mi_device_set :: bool
  mi_host_set :: bool
  mi_host :: "string option"
  mi_keylog :: "'p option"

definition new_mitm :: "'p mitm" where
  "new_mitm =
     \<lparr>mi_cfg = new_config_parser, mi_debug = 0, mi_client = False, mi_server = False,
      mi_device_set = False, mi_host_set = False, mi_host = None, mi_keylog = None\<rparr>"

definition upd_cfg :: "('p config_parser \<Rightarrow> 'p config_parser) \<Rightarrow> 'p mitm \<Rightarrow> 'p mitm" where
  "upd_cfg f mi = mi\<lparr>mi_cfg := f (mi_cfg mi)\<rparr>"

abbreviation add_plugin :: "string \<Rightarrow> 'p config_parser \<Rightarrow> 'p config_parser" where
  "add_plugin name \<equiv> add_to_vector ''Plugins'' name"

text \<open>One round of the loop over the options; \<open>None\<close> is \<open>return 1\<close>.\<close>

fun mitm_option :: "'p mitm_env \<Rightarrow> mitm_opt \<Rightarrow> 'p mitm \<Rightarrow> 'p mitm option" where
  "mitm_option env (OptVendor arg) mi = Some (upd_cfg (cp_set ''vendorId'' arg) mi)"
| "mitm_option env (OptProduct arg) mi = Some (upd_cfg (cp_set ''productId'' arg) mi)"
| "mitm_option env (OptPlugin arg) mi = Some (upd_cfg (add_plugin arg) mi)"
| "mitm_option env (OptDevice arg) mi =
     Some ((upd_cfg (cp_set ''DeviceProxy'' arg) mi)\<lparr>mi_device_set := True\<rparr>)"
| "mitm_option env (OptHost arg) mi =
     Some ((upd_cfg (cp_set ''HostProxy'' arg) mi)\<lparr>mi_host_set := True\<rparr>)"
| "mitm_option env OptDebug mi = Some (mi\<lparr>mi_debug := mi_debug mi + 1\<rparr>)"
| "mitm_option env OptServer mi = Some (mi\<lparr>mi_server := True\<rparr>)"
| "mitm_option env (OptClient arg) mi = Some (mi\<lparr>mi_client := True, mi_host := Some arg\<rparr>)"
| "mitm_option env (OptFile arg) mi = Some (upd_cfg (parse_file (me_file env arg)) mi)"
| "mitm_option env OptLog mi =
     Some (upd_cfg (\<lambda>cfg. add_pointer ''PacketFilter_StreamLog::file'' (me_stderr env)
       (add_plugin ''PacketFilter_StreamLog'' cfg)) mi)"
| "mitm_option env OptMassStorage mi = Some (upd_cfg (add_plugin ''PacketFilter_MassStorage'') mi)"
| "mitm_option env OptInject mi =
     Some (upd_cfg (\<lambda>cfg. cp_set ''Injector_UDP::Port'' ''12345'' (add_plugin ''Injector_UDP'' cfg)) mi)"
| "mitm_option env (OptKeyLogger None) mi =
     Some (upd_cfg (\<lambda>cfg. add_plugin ''PacketFilter_ROT13''
       (add_pointer ''PacketFilter_KeyLogger::file'' (me_stderr env)
         (add_plugin ''PacketFilter_KeyLogger'' cfg))) mi)"
| "mitm_option env (OptKeyLogger (Some arg)) mi =
     (case me_fopen env arg of
        None \<Rightarrow> None
      | Some f \<Rightarrow> Some ((upd_cfg (\<lambda>cfg. add_plugin ''PacketFilter_ROT13''
          (add_pointer ''PacketFilter_KeyLogger::file'' f
            (add_plugin ''PacketFilter_KeyLogger'' cfg))) mi)\<lparr>mi_keylog := Some f\<rparr>))"
| "mitm_option env (OptCapture arg) mi =
     Some (upd_cfg (\<lambda>cfg. cp_set ''PacketFilter_PcapLogger::Filename'' arg
       (add_plugin ''PacketFilter_PcapLogger'' cfg)) mi)"
| "mitm_option env OptXbox mi =
     Some (upd_cfg (\<lambda>cfg. add_plugin ''PacketFilter_UDPHID''
       (cp_set ''Injector_UDP::port'' ''12345'' (add_plugin ''Injector_UDPHID'' cfg))) mi)"
| "mitm_option env OptHelp mi = None"
| "mitm_option env OptOther mi = None"

fun mitm_options :: "'p mitm_env \<Rightarrow> mitm_opt list \<Rightarrow> 'p mitm \<Rightarrow> 'p mitm option" where
  "mitm_options env [] mi = Some mi"
| "mitm_options env (x # xs) mi =
     (case mitm_option env x mi of None \<Rightarrow> None | Some mi' \<Rightarrow> mitm_options env xs mi')"

text \<open>The proxies, after the options. (\<open>host\<close> has a value whenever \<open>client\<close> is true.)\<close>

definition mitm_proxies :: "'p mitm \<Rightarrow> 'p config_parser" where
  "mitm_proxies mi =
     (if mi_client mi then
        cp_set ''HostProxy_TCP::TCPAddress'' (case mi_host mi of None \<Rightarrow> [] | Some h \<Rightarrow> h)
          (cp_set ''HostProxy'' ''HostProxy_TCP''
            (cp_set ''DeviceProxy'' ''DeviceProxy_LibUSB'' (mi_cfg mi)))
      else if mi_server mi then
        cp_set ''HostProxy'' ''HostProxy_GadgetFS''
          (cp_set ''DeviceProxy'' ''DeviceProxy_TCP'' (mi_cfg mi))
      else
        let cfg1 = (if mi_device_set mi then mi_cfg mi
                    else cp_set ''DeviceProxy'' ''DeviceProxy_LibUSB'' (mi_cfg mi)) in
        if mi_host_set mi then cfg1 else cp_set ''HostProxy'' ''HostProxy_GadgetFS'' cfg1)"

definition mitm_settings :: "'p mitm_env \<Rightarrow> mitm_opt list \<Rightarrow> 'p config_parser option" where
  "mitm_settings env opts = map_option mitm_proxies (mitm_options env opts new_mitm)"

section \<open>Properties of the options\<close>

lemma upd_cfg_cfg [simp]: "mi_cfg (upd_cfg f mi) = f (mi_cfg mi)"
  by (simp add: upd_cfg_def)

lemma parse_file_vectors [simp]: "get_vector k (parse_file file c) = get_vector k c"
proof -
  have "get_vector k (parse_lines ls c) = get_vector k c" for ls
    by (induction ls arbitrary: c) (auto split: option.split)
  then show ?thesis by (simp add: parse_file_def split: option.split)
qed

text \<open>The plugins that an option asks for.\<close>

fun plugins_of :: "mitm_opt \<Rightarrow> string list" where
  "plugins_of (OptPlugin name) = [name]"
| "plugins_of OptLog = [''PacketFilter_StreamLog'']"
| "plugins_of OptMassStorage = [''PacketFilter_MassStorage'']"
| "plugins_of OptInject = [''Injector_UDP'']"
| "plugins_of (OptKeyLogger arg) = [''PacketFilter_KeyLogger'', ''PacketFilter_ROT13'']"
| "plugins_of (OptCapture arg) = [''PacketFilter_PcapLogger'']"
| "plugins_of OptXbox = [''Injector_UDPHID'', ''PacketFilter_UDPHID'']"
| "plugins_of _ = []"

lemma option_plugins:
  "mitm_option env x mi = Some mi' \<Longrightarrow>
   get_vector ''Plugins'' (mi_cfg mi') = get_vector ''Plugins'' (mi_cfg mi) @ plugins_of x"
  by (cases "(env, x, mi)" rule: mitm_option.cases) (auto split: option.splits)

lemma options_plugins:
  "mitm_options env xs mi = Some mi' \<Longrightarrow>
   get_vector ''Plugins'' (mi_cfg mi') = get_vector ''Plugins'' (mi_cfg mi) @ concat (map plugins_of xs)"
  by (induction xs arbitrary: mi) (auto split: option.splits simp: option_plugins)

lemma proxies_plugins: "get_vector ''Plugins'' (mitm_proxies mi) = get_vector ''Plugins'' (mi_cfg mi)"
  by (simp add: mitm_proxies_def Let_def)

text \<open>What the options say about the proxies: the last option of a kind counts.\<close>

fun device_of :: "mitm_opt \<Rightarrow> string option" where
  "device_of (OptDevice d) = Some d"
| "device_of _ = None"

fun host_of :: "mitm_opt \<Rightarrow> string option" where
  "host_of (OptHost d) = Some d"
| "host_of _ = None"

fun client_of :: "mitm_opt \<Rightarrow> string option" where
  "client_of (OptClient d) = Some d"
| "client_of _ = None"

fun vendor_of :: "mitm_opt \<Rightarrow> string option" where
  "vendor_of (OptVendor v) = Some v"
| "vendor_of _ = None"

fun product_of :: "mitm_opt \<Rightarrow> string option" where
  "product_of (OptProduct v) = Some v"
| "product_of _ = None"

fun reads_file :: "mitm_opt \<Rightarrow> bool" where
  "reads_file (OptFile arg) \<longleftrightarrow> True"
| "reads_file _ \<longleftrightarrow> False"

definition or_else :: "'a option \<Rightarrow> 'a \<Rightarrow> 'a" where
  "or_else x y = (case x of None \<Rightarrow> y | Some z \<Rightarrow> z)"

lemma or_else_simps [simp]: "or_else None y = y" "or_else (Some z) y = z"
  by (simp_all add: or_else_def)

lemma option_flags:
  assumes "mitm_option env x mi = Some mi'"
  shows "mi_client mi' \<longleftrightarrow> mi_client mi \<or> client_of x \<noteq> None"
    "mi_server mi' \<longleftrightarrow> mi_server mi \<or> x = OptServer"
    "mi_device_set mi' \<longleftrightarrow> mi_device_set mi \<or> device_of x \<noteq> None"
    "mi_host_set mi' \<longleftrightarrow> mi_host_set mi \<or> host_of x \<noteq> None"
    "mi_host mi' = (case client_of x of None \<Rightarrow> mi_host mi | Some h \<Rightarrow> Some h)"
  using assms
  by (cases "(env, x, mi)" rule: mitm_option.cases; auto simp: upd_cfg_def split: option.splits)+

lemma option_settings:
  assumes "mitm_option env x mi = Some mi'" "\<not> reads_file x"
  shows "cp_get ''DeviceProxy'' (mi_cfg mi') = or_else (device_of x) (cp_get ''DeviceProxy'' (mi_cfg mi))"
    "cp_get ''HostProxy'' (mi_cfg mi') = or_else (host_of x) (cp_get ''HostProxy'' (mi_cfg mi))"
    "cp_get ''vendorId'' (mi_cfg mi') = or_else (vendor_of x) (cp_get ''vendorId'' (mi_cfg mi))"
    "cp_get ''productId'' (mi_cfg mi') = or_else (product_of x) (cp_get ''productId'' (mi_cfg mi))"
    "cp_get ''Injector_UDPHID::port'' (mi_cfg mi') = cp_get ''Injector_UDPHID::port'' (mi_cfg mi)"
  using assms
  by (cases "(env, x, mi)" rule: mitm_option.cases; auto split: option.splits)+

lemma options_flags:
  "mitm_options env xs mi = Some mi' \<Longrightarrow>
   (mi_client mi' \<longleftrightarrow> mi_client mi \<or> last_some client_of xs \<noteq> None) \<and>
   (mi_server mi' \<longleftrightarrow> mi_server mi \<or> OptServer \<in> set xs) \<and>
   (mi_device_set mi' \<longleftrightarrow> mi_device_set mi \<or> last_some device_of xs \<noteq> None) \<and>
   (mi_host_set mi' \<longleftrightarrow> mi_host_set mi \<or> last_some host_of xs \<noteq> None) \<and>
   mi_host mi' = (case last_some client_of xs of None \<Rightarrow> mi_host mi | Some h \<Rightarrow> Some h)"
proof (induction xs arbitrary: mi)
  case (Cons x xs)
  then obtain mi1 where x: "mitm_option env x mi = Some mi1" and xs: "mitm_options env xs mi1 = Some mi'"
    by (auto split: option.splits)
  from Cons.IH [OF xs] show ?case by (auto simp: option_flags [OF x] split: option.splits)
qed simp

lemma options_settings:
  "mitm_options env xs mi = Some mi' \<Longrightarrow> list_all (\<lambda>x. \<not> reads_file x) xs \<Longrightarrow>
   cp_get ''DeviceProxy'' (mi_cfg mi') =
     or_else (last_some device_of xs) (cp_get ''DeviceProxy'' (mi_cfg mi)) \<and>
   cp_get ''HostProxy'' (mi_cfg mi') = or_else (last_some host_of xs) (cp_get ''HostProxy'' (mi_cfg mi)) \<and>
   cp_get ''vendorId'' (mi_cfg mi') = or_else (last_some vendor_of xs) (cp_get ''vendorId'' (mi_cfg mi)) \<and>
   cp_get ''productId'' (mi_cfg mi') =
     or_else (last_some product_of xs) (cp_get ''productId'' (mi_cfg mi)) \<and>
   cp_get ''Injector_UDPHID::port'' (mi_cfg mi') = cp_get ''Injector_UDPHID::port'' (mi_cfg mi)"
proof (induction xs arbitrary: mi)
  case (Cons x xs)
  then obtain mi1 where x: "mitm_option env x mi = Some mi1" and xs: "mitm_options env xs mi1 = Some mi'"
    by (auto split: option.splits)
  from Cons.prems(2) have "\<not> reads_file x" "list_all (\<lambda>x. \<not> reads_file x) xs" by simp_all
  with Cons.IH [OF xs] show ?case by (auto simp: option_settings [OF x] split: option.splits)
qed simp

lemma settings_outcome:
  assumes "mitm_settings env opts = Some cfg" "list_all (\<lambda>x. \<not> reads_file x) opts"
  shows "get_vector ''Plugins'' cfg = concat (map plugins_of opts) \<and>
    (cp_get ''DeviceProxy'' cfg, cp_get ''HostProxy'' cfg) =
      (case last_some client_of opts of
         Some server \<Rightarrow> (''DeviceProxy_LibUSB'', ''HostProxy_TCP'')
       | None \<Rightarrow>
           if OptServer \<in> set opts then (''DeviceProxy_TCP'', ''HostProxy_GadgetFS'')
           else (or_else (last_some device_of opts) ''DeviceProxy_LibUSB'',
                 or_else (last_some host_of opts) ''HostProxy_GadgetFS'')) \<and>
    (cp_get ''HostProxy_TCP::TCPAddress'' cfg = or_else (last_some client_of opts) [] \<or>
      last_some client_of opts = None)"
proof -
  from assms(1) obtain mi where mi: "mitm_options env opts new_mitm = Some mi"
    and cfg: "cfg = mitm_proxies mi" by (auto simp: mitm_settings_def)
  have plugins: "get_vector ''Plugins'' cfg = concat (map plugins_of opts)"
    using options_plugins [OF mi] by (simp add: cfg proxies_plugins new_mitm_def)
  note f = options_flags [OF mi] and s = options_settings [OF mi assms(2)]
  show ?thesis
  proof (cases "last_some client_of opts")
    case (Some server)
    with f plugins show ?thesis by (simp add: cfg mitm_proxies_def)
  next
    case None
    with f s plugins show ?thesis
      by (auto simp: cfg mitm_proxies_def new_mitm_def Let_def split: option.splits)
  qed
qed

text \<open>What the command line asks for: the plugins are loaded in the order of the options. As a
  client the tool relays from libusb to the named server, as a server from TCP to GadgetFS, whatever
  \<open>-D\<close> and \<open>-H\<close> say; otherwise (and when no file of settings is read) the last \<open>-D\<close> and \<open>-H\<close> choose the
  proxies, libusb and GadgetFS by default.\<close>

theorem mitm_settings_exact:
  assumes "mitm_settings env opts = Some cfg" "list_all (\<lambda>x. \<not> reads_file x) opts"
  shows "get_vector ''Plugins'' cfg = concat (map plugins_of opts) \<and>
    (cp_get ''DeviceProxy'' cfg, cp_get ''HostProxy'' cfg) =
      (case last_some client_of opts of
         Some server \<Rightarrow> (''DeviceProxy_LibUSB'', ''HostProxy_TCP'')
       | None \<Rightarrow>
           if OptServer \<in> set opts then (''DeviceProxy_TCP'', ''HostProxy_GadgetFS'')
           else (or_else (last_some device_of opts) ''DeviceProxy_LibUSB'',
                 or_else (last_some host_of opts) ''HostProxy_GadgetFS'')) \<and>
    (cp_get ''HostProxy_TCP::TCPAddress'' cfg = or_else (last_some client_of opts) [] \<or>
      last_some client_of opts = None)"
  by (rule settings_outcome [OF assms])

definition sample_env :: "nat mitm_env" where
  "sample_env = \<lparr>me_stderr = 2, me_fopen = (\<lambda>_. None), me_file = (\<lambda>_. None)\<rparr>"

theorem mitm_settings_exact_witness:
  "\<exists>cfg. mitm_settings sample_env [OptKeyLogger None, OptDevice ''DeviceProxy_Loopback'', OptLog] = Some cfg \<and>
    get_vector ''Plugins'' cfg =
      [''PacketFilter_KeyLogger'', ''PacketFilter_ROT13'', ''PacketFilter_StreamLog''] \<and>
    cp_get ''DeviceProxy'' cfg = ''DeviceProxy_Loopback'' \<and>
    cp_get ''HostProxy'' cfg = ''HostProxy_GadgetFS''"
proof -
  let ?opts = "[OptKeyLogger None, OptDevice ''DeviceProxy_Loopback'', OptLog]"
  obtain cfg where 1: "mitm_settings sample_env ?opts = Some cfg"
    by (simp add: mitm_settings_def)
  from mitm_settings_exact [OF 1] 1 show ?thesis by auto
qed

text \<open>C29: the identifiers given in hexadecimal digits after \<open>-v\<close> and \<open>-p\<close> are those that the libusb
  proxy looks for: among the devices that are not hubs it wants exactly those with both
  identifiers.\<close>

theorem mitm_selects_device:
  assumes "mitm_settings env opts = Some cfg" "list_all (\<lambda>x. \<not> reads_file x) opts"
    and "last_some vendor_of opts = Some (number 16 v)" "v < 65536"
    and "last_some product_of opts = Some (number 16 p)" "p < 65536"
  shows "\<exists>lu. libusb_of_settings cfg = Inr lu \<and>
    (\<forall>d. wanted (lu_vid lu) (lu_pid lu) (lu_hubs lu) d \<longleftrightarrow>
      dd_bDeviceClass d \<noteq> 9 \<and> unat (dd_idVendor d) = v \<and> unat (dd_idProduct d) = p)"
proof -
  from assms(1) obtain mi where mi: "mitm_options env opts new_mitm = Some mi"
    and cfg: "cfg = mitm_proxies mi" by (auto simp: mitm_settings_def)
  have "cp_get ''vendorId'' cfg = number 16 v" "cp_get ''productId'' cfg = number 16 p"
    using options_settings [OF mi assms(2)] assms(3,5)
    by (simp_all add: cfg mitm_proxies_def Let_def)
  then have "libusb_of_settings cfg = Inr (new_libusb (int v) (int p) False)"
    using stoi_number [of 16 v] stoi_number [of 16 p] assms(4,6) number_not_Nil
    by (simp add: libusb_of_settings_def id_setting_def Let_def)
  moreover have "wanted (int v) (int p) False d \<longleftrightarrow>
      dd_bDeviceClass d \<noteq> 9 \<and> unat (dd_idVendor d) = v \<and> unat (dd_idProduct d) = p" for d
  proof -
    have "int n = uint w \<longleftrightarrow> unat w = n" for n and w :: u16
      by (metis of_nat_unat of_nat_eq_iff)
    then show ?thesis by (auto simp: wanted_def MATCH_ANY_def)
  qed
  ultimately show ?thesis by (simp add: new_libusb_def)
qed

theorem mitm_selects_device_witness:
  "\<exists>cfg lu. mitm_settings sample_env [OptVendor (number 16 0x046d), OptProduct (number 16 0xc077)] = Some cfg \<and>
    libusb_of_settings cfg = Inr lu \<and>
    (\<forall>d. wanted (lu_vid lu) (lu_pid lu) (lu_hubs lu) d \<longleftrightarrow>
      dd_bDeviceClass d \<noteq> 9 \<and> unat (dd_idVendor d) = 0x046d \<and> unat (dd_idProduct d) = 0xc077)"
proof -
  let ?opts = "[OptVendor (number 16 0x046d), OptProduct (number 16 0xc077)]"
  obtain cfg where 1: "mitm_settings sample_env ?opts = Some cfg"
    by (simp add: mitm_settings_def)
  from mitm_selects_device [OF 1, where v = "0x046d" and p = "0xc077"] 1 show ?thesis by auto
qed

text \<open>The option for Xbox controllers sets \<open>Injector_UDP::port\<close>, which nothing reads: the injector's
  constructor finds no port and leaves the object without values.\<close>

lemma xbox_injector_unset:
  assumes "mitm_settings env opts = Some cfg" "list_all (\<lambda>x. \<not> reads_file x) opts"
  shows "udphid_injector_of_settings this cfg = Inr (None, cfg)"
proof -
  from assms(1) obtain mi where mi: "mitm_options env opts new_mitm = Some mi"
    and cfg: "cfg = mitm_proxies mi" by (auto simp: mitm_settings_def)
  have "cp_get ''Injector_UDPHID::port'' cfg = []"
    using options_settings [OF mi assms(2)] by (simp add: cfg mitm_proxies_def Let_def new_mitm_def)
  then show ?thesis by (simp add: udphid_injector_of_settings_def)
qed

end
