(* ===== verification/Manager_Life.thy ===== *)
theory Manager_Life
  imports Manager_Start Plugin_Manager
begin

text \<open>
  The end of a manager (\<open>cleanup\<close> and the destructor of \<open>src/lib/Manager.cpp\<close>) and its operations on
  injectors, which are those on filters over another array; and what becomes of the objects that the
  plugins have created.
\<close>

section \<open>Injectors\<close>

definition add_injector :: "'i \<Rightarrow> ('s, 'i) manager \<Rightarrow> ('s, 'i) manager res" where
  "add_injector x m = and_then (add_filter x (mg_injectors m)) (\<lambda>p. Inr (m\<lparr>mg_injectors := p\<rparr>))"

definition remove_injector ::
  "u8 \<Rightarrow> bool \<Rightarrow> ('s, 'i) manager \<Rightarrow> ('i option \<times> ('s, 'i) manager) res" where
  "remove_injector idx freeMemory m =
     and_then (remove_filter idx freeMemory (mg_injectors m)) (\<lambda>(del, p).
       Inr (del, m\<lparr>mg_injectors := p\<rparr>))"

definition get_injector :: "u8 \<Rightarrow> ('s, 'i) manager \<Rightarrow> 'i option res" where
  "get_injector idx m = get_filter idx (mg_injectors m)"

definition get_injector_count :: "('s, 'i) manager \<Rightarrow> u8" where
  "get_injector_count m = pa_count (mg_injectors m)"

definition get_filter_count :: "('s, 'i) manager \<Rightarrow> u8" where
  "get_filter_count m = pa_count (mg_filters m)"

section \<open>Cleanup and destruction\<close>

text \<open>What is deleted, injectors first, each from the last to the first. The proxies, which are deleted last,
  are no part of the record; they are among the objects of \<open>cleanup_objects\<close> below.\<close>

definition manager_cleanup ::
  "('s, 'i) manager \<Rightarrow> (('i list \<times> 's pfilter list) \<times> ('s, 'i) manager) res" where
  "manager_cleanup m =
     and_then (remove_all 256 (mg_injectors m)) (\<lambda>(is, p).
       and_then (remove_all 256 (mg_filters m)) (\<lambda>(fs, q).
         Inr ((is, fs), m\<lparr>mg_injectors := p, mg_filters := q\<rparr>)))"

text \<open>The destructor: a relay object stops and joins its thread and is deleted. A thread whose object is
  gone is still joinable when the members are destroyed, which ends the process. The injectors are
  asked to stop and all their threads are joined; when there are more threads than injectors, one of
  them has not been asked and never ends. Deleting the device deletes its strings.\<close>

definition joined_slot :: "'s slot \<Rightarrow> 's slot" where
  "joined_slot s =
     s\<lparr>sl_reader := False, sl_reader_thread := (sl_reader_thread s \<and> \<not> sl_reader s),
       sl_writer := None, sl_writer_thread := (sl_writer_thread s \<and> sl_writer s = None)\<rparr>"

definition thread_left :: "'s slot \<Rightarrow> bool" where
  "thread_left s \<longleftrightarrow> sl_reader_thread s \<or> sl_writer_thread s"

definition delete_manager :: "('s, 'i) manager \<Rightarrow> unit res" where
  "delete_manager m =
     (if \<exists>dv. mg_device m = Some dv \<and> \<not> distinct (deleted_strings dv) then Inl UseAfterFree
      else if unat (pa_count (mg_injectors m)) < mg_injector_threads m then Inl OutOfFuel
      else if list_ex (\<lambda>s. thread_left (joined_slot s)) (mg_in m @ mg_out m) then Inl Exits
      else Inr ())"

section \<open>Objects of plugins\<close>

fun delete_objects :: "string list \<Rightarrow> string list \<Rightarrow> string list res" where
  "delete_objects [] alive = Inr alive"
| "delete_objects (x # xs) alive =
     (if x \<in> set alive then delete_objects xs (remove1 x alive) else Inl UseAfterFree)"

text \<open>\<open>cleanup\<close> over the objects that \<open>load_plugins\<close> gave the manager; \<open>alive\<close> are those that exist. A NULL
  injector is not deleted.\<close>

definition cleanup_objects ::
  "string \<Rightarrow> string \<Rightarrow> string ptr_array \<Rightarrow> string option ptr_array \<Rightarrow> string list \<Rightarrow> string list res" where
  "cleanup_objects device_proxy host_proxy filters injectors alive =
     and_then (remove_all 256 injectors) (\<lambda>(is, _).
       and_then (delete_objects (somes is) alive) (\<lambda>alive1.
         and_then (remove_all 256 filters) (\<lambda>(fs, _).
           and_then (delete_objects fs alive1) (delete_objects [device_proxy, host_proxy]))))"

section \<open>Lemmas\<close>

lemma delete_objects_eq:
  "distinct xs \<Longrightarrow> distinct alive \<Longrightarrow>
   delete_objects xs alive =
     (if set xs \<subseteq> set alive then Inr (filter (\<lambda>x. x \<notin> set xs) alive) else Inl UseAfterFree)"
proof (induction xs arbitrary: alive)
  case (Cons x xs)
  have "filter (\<lambda>y. y \<notin> set xs) (remove1 x alive) = filter (\<lambda>y. y \<notin> set (x # xs)) alive"
    using Cons.prems
    by (simp add: distinct_remove1_removeAll removeAll_filter_not_eq) (rule filter_cong, auto)
  moreover have "set xs \<subseteq> set (remove1 x alive) \<longleftrightarrow> set xs \<subseteq> set alive"
    using Cons.prems by auto
  ultimately show ?case using Cons by simp
qed simp

lemma somes_rev: "somes (rev xs) = rev (somes xs)"
  by (induction xs) (auto simp: somes_def List.map_filter_def)

lemma somes_as_injector:
  "somes (map (as_injector libs) xs) = filter (\<lambda>x. as_injector libs x = Some x) xs"
  by (induction xs) (auto simp: as_injector_def split: option.split)

text \<open>A plugin that is a filter and an injector at once.\<close>

definition twofold :: "libs \<Rightarrow> string \<Rightarrow> bool" where
  "twofold libs name \<longleftrightarrow> usable libs {24} name \<and> as_injector libs name = Some name"

lemma twofold_eq:
  "twofold libs name \<longleftrightarrow>
     usable libs {8, 24} name \<and> usable libs {16, 24} name \<and> as_injector libs name = Some name"
  by (auto simp: twofold_def usable_def)

section \<open>Properties\<close>

lemma cleanup_outcome:
  assumes "libs (cp_get ''DeviceProxy'' cfg) = Some dlib" "lib_get_deviceproxy dlib"
    and "libs (cp_get ''HostProxy'' cfg) = Some hlib" "lib_get_hostproxy hlib"
    and "\<forall>name\<in>set (get_vector ''Plugins'' cfg). libs name \<noteq> None"
    and "length (get_vector ''Plugins'' cfg) < 256"
    and "distinct (cp_get ''DeviceProxy'' cfg # cp_get ''HostProxy'' cfg # get_vector ''Plugins'' cfg)"
  shows "\<exists>fs is. manager_load_plugins libs cfg new_plugin_manager no_ptrs no_ptrs =
      Inr (cp_get ''DeviceProxy'' cfg, cp_get ''HostProxy'' cfg, fs, is) \<and>
    cleanup_objects (cp_get ''DeviceProxy'' cfg) (cp_get ''HostProxy'' cfg) fs is
      (cp_get ''DeviceProxy'' cfg # cp_get ''HostProxy'' cfg
        # filter (usable libs {8, 16, 24}) (get_vector ''Plugins'' cfg)) =
      (if list_ex (twofold libs) (get_vector ''Plugins'' cfg) then Inl UseAfterFree else Inr [])"
proof -
  define d h names where "d = cp_get ''DeviceProxy'' cfg" "h = cp_get ''HostProxy'' cfg"
    "names = get_vector ''Plugins'' cfg"
  note defs = this
  let ?F = "filter (usable libs {8, 24}) names" and ?I = "filter (usable libs {16, 24}) names"
  let ?J = "filter (\<lambda>x. as_injector libs x = Some x) ?I"
  let ?alive = "d # h # filter (usable libs {8, 16, 24}) names"
  obtain fs ins where load: "manager_load_plugins libs cfg new_plugin_manager no_ptrs no_ptrs = Inr (d, h, fs, ins)"
    and fs: "holds fs ?F" and is_: "holds ins (map (as_injector libs) ?I)"
    using plugins_loaded [OF assms(1-5), of no_ptrs "[]" no_ptrs "[]"] assms(6) by (auto simp: defs)
  have len: "length ?F < 256" "length (map (as_injector libs) ?I) < 256"
    using assms(6) le_less_trans [OF length_filter_le] by (auto simp: defs)
  note all = remove_all_holds [OF is_ len(2)] remove_all_holds [OF fs len(1)]
  have dist: "distinct names" "d \<noteq> h" "d \<notin> set names" "h \<notin> set names"
    using assms(7) by (auto simp: defs)
  have sub: "set (rev ?J) \<subseteq> set ?alive" by (auto simp: usable_def)
  define alive1 where "alive1 = filter (\<lambda>x. x \<notin> set (rev ?J)) ?alive"
  have "delete_objects (somes (rev (map (as_injector libs) ?I))) ?alive = Inr alive1"
    using dist sub by (simp add: somes_rev somes_as_injector delete_objects_eq alive1_def)
  then have "cleanup_objects d h fs ins ?alive =
      and_then (delete_objects (rev ?F) alive1) (delete_objects [d, h])"
    by (simp add: cleanup_objects_def all)
  moreover have "set (rev ?F) \<subseteq> set alive1 \<longleftrightarrow> \<not> list_ex (twofold libs) names"
    by (auto simp: alive1_def list_ex_iff twofold_eq usable_def)
  moreover have "distinct alive1" using dist by (auto simp: alive1_def)
  moreover have "delete_objects [d, h] (filter (\<lambda>x. x \<notin> set (rev ?F)) alive1) = Inr []"
  proof -
    have "x \<in> set ?F \<or> x \<in> set ?J" if "x \<in> set names" "usable libs {8, 16, 24} x" for x
      using that by (auto simp: usable_def as_injector_def PLUGIN_INJECTOR_def)
    then have "filter (\<lambda>x. x \<notin> set (rev ?F)) (filter (\<lambda>x. x \<notin> set (rev ?J))
        (filter (usable libs {8, 16, 24}) names)) = []"
      by (auto simp: filter_empty_conv)
    with dist show ?thesis by (simp add: alive1_def)
  qed
  ultimately show ?thesis
    using load dist by (simp add: defs [symmetric] delete_objects_eq)
qed

text \<open>What the plugins created is deleted once, and everything is, exactly when no plugin is a filter
  and an injector at once. Such a plugin is one object in both arrays: \<open>cleanup\<close> deletes it with the
  injectors and again with the filters.\<close>

theorem cleanup_deletes_twice:
  assumes "libs (cp_get ''DeviceProxy'' cfg) = Some dlib" "lib_get_deviceproxy dlib"
    and "libs (cp_get ''HostProxy'' cfg) = Some hlib" "lib_get_hostproxy hlib"
    and "\<forall>name\<in>set (get_vector ''Plugins'' cfg). libs name \<noteq> None"
    and "length (get_vector ''Plugins'' cfg) < 256"
    and "distinct (cp_get ''DeviceProxy'' cfg # cp_get ''HostProxy'' cfg # get_vector ''Plugins'' cfg)"
  shows "\<exists>fs is. manager_load_plugins libs cfg new_plugin_manager no_ptrs no_ptrs =
      Inr (cp_get ''DeviceProxy'' cfg, cp_get ''HostProxy'' cfg, fs, is) \<and>
    cleanup_objects (cp_get ''DeviceProxy'' cfg) (cp_get ''HostProxy'' cfg) fs is
      (cp_get ''DeviceProxy'' cfg # cp_get ''HostProxy'' cfg
        # filter (usable libs {8, 16, 24}) (get_vector ''Plugins'' cfg)) =
      (if list_ex (twofold libs) (get_vector ''Plugins'' cfg) then Inl UseAfterFree else Inr [])"
  by (rule cleanup_outcome [OF assms])

definition storage_libs :: libs where
  "storage_libs name =
     (if name = ''DeviceProxy_LibUSB'' then Some \<lparr>lib_get_deviceproxy = True, lib_get_hostproxy = False,
        lib_plugin_type = None, lib_get_plugin = False, lib_is_injector = False\<rparr>
      else if name = ''HostProxy_GadgetFS'' then Some \<lparr>lib_get_deviceproxy = False, lib_get_hostproxy = True,
        lib_plugin_type = None, lib_get_plugin = False, lib_is_injector = False\<rparr>
      else if name = ''PacketFilter_MassStorage'' then Some \<lparr>lib_get_deviceproxy = False, lib_get_hostproxy = False,
        lib_plugin_type = Some 24, lib_get_plugin = True, lib_is_injector = True\<rparr>
      else None)"

definition storage_settings :: "unit config_parser" where
  "storage_settings = add_to_vector ''Plugins'' ''PacketFilter_MassStorage''
     (cp_set ''HostProxy'' ''HostProxy_GadgetFS'' (cp_set ''DeviceProxy'' ''DeviceProxy_LibUSB'' new_config_parser))"

text \<open>The mass storage filter is such a plugin.\<close>

theorem cleanup_deletes_twice_witness:
  "\<exists>fs is. manager_load_plugins storage_libs storage_settings new_plugin_manager no_ptrs no_ptrs =
      Inr (''DeviceProxy_LibUSB'', ''HostProxy_GadgetFS'', fs, is) \<and>
    cleanup_objects ''DeviceProxy_LibUSB'' ''HostProxy_GadgetFS'' fs is
      [''DeviceProxy_LibUSB'', ''HostProxy_GadgetFS'', ''PacketFilter_MassStorage''] = Inl UseAfterFree"
proof -
  have s: "cp_get ''DeviceProxy'' storage_settings = ''DeviceProxy_LibUSB''"
    "cp_get ''HostProxy'' storage_settings = ''HostProxy_GadgetFS''"
    "get_vector ''Plugins'' storage_settings = [''PacketFilter_MassStorage'']"
    by (simp_all add: storage_settings_def cp_get_def cp_set_def add_to_vector_def get_vector_def
        new_config_parser_def)
  have "usable storage_libs {8, 16, 24} ''PacketFilter_MassStorage''"
    "twofold storage_libs ''PacketFilter_MassStorage''"
    by (simp_all add: usable_def twofold_def as_injector_def storage_libs_def)
  then show ?thesis
    using cleanup_deletes_twice [of storage_libs storage_settings]
    by (simp add: s storage_libs_def)
qed

end
