(* ===== verification/Mitm_Loop.thy ===== *)
theory Mitm_Loop
  imports Manager_Life Manager_Data
begin

text \<open>
  The main loop of the command line tool (\<open>src/tools/usb-mitm.cpp\<close>) with the signals that interrupt it,
  around the manager from its start to its end. The manager after loading the plugins is a parameter.
\<close>

section \<open>The main loop\<close>

datatype signal = SIGTERM | SIGINT | SIGHUP

text \<open>The handler; the first SIGTERM or SIGINT gives both their default action, which ends the process.
  The flag says whether they still have the handler. After SIGHUP the relaying starts again.\<close>

definition handle_signal ::
  "nat \<Rightarrow> start_env \<Rightarrow> signal \<Rightarrow> bool \<times> ('s, 'i) manager \<Rightarrow> (bool \<times> ('s, 'i) manager) res" where
  "handle_signal fuel env sig = (\<lambda>(handled, m).
     case sig of
       SIGHUP \<Rightarrow> and_then (stop_relaying m) (\<lambda>m1.
         and_then (start_control_relaying fuel env m1) (\<lambda>m2. Inr (handled, m2)))
     | _ \<Rightarrow> if handled then and_then (stop_relaying m) (\<lambda>m1. Inr (False, m1)) else Inl Exits)"

text \<open>The loop that sleeps while the manager relays, with what happens in each round: nothing, a signal
  (and what a start depends on then), or a call of \<open>setConfig\<close> by the writer of endpoint 0. The loop
  has not ended when the list is exhausted.\<close>

datatype loop_event = Quiet | Signal signal start_env | SetConfig u8

definition handle_event ::
  "nat \<Rightarrow> loop_event \<Rightarrow> bool \<times> ('s, 'i) manager \<Rightarrow> (bool \<times> ('s, 'i) manager) res" where
  "handle_event fuel x st =
     (case x of
        Quiet \<Rightarrow> Inr st
      | Signal sig env \<Rightarrow> handle_signal fuel env sig st
      | SetConfig idx \<Rightarrow> and_then (manager_set_config idx (snd st)) (\<lambda>m. Inr (fst st, m)))"

fun wait_loop ::
  "nat \<Rightarrow> loop_event list \<Rightarrow> bool \<times> ('s, 'i) manager \<Rightarrow>
   (manager_status \<times> bool \<times> ('s, 'i) manager) res" where
  "wait_loop fuel [] st =
     (if mg_status (snd st) = USBM_RELAYING then Inl OutOfFuel else Inr (mg_status (snd st), st))"
| "wait_loop fuel (x # xs) st =
     (if mg_status (snd st) = USBM_RELAYING then and_then (handle_event fuel x st) (wait_loop fuel xs)
      else Inr (mg_status (snd st), st))"

text \<open>One round of the outer loop: a new manager that has loaded its plugins is started, waited for,
  stopped and deleted.\<close>

record ('s, 'i) mitm_round =
  mr_manager :: "('s, 'i) manager"
  mr_start :: start_env
  mr_events :: "loop_event list"

definition main_round ::
  "nat \<Rightarrow> bool \<Rightarrow> ('s, 'i) mitm_round \<Rightarrow>
   (manager_status \<times> bool \<times> 'i list \<times> 's pfilter list) res" where
  "main_round fuel handled r =
     and_then (start_control_relaying fuel (mr_start r) (mr_manager r)) (\<lambda>m1.
       and_then (wait_loop fuel (mr_events r) (handled, m1)) (\<lambda>(status, handled', m2).
         and_then (stop_relaying m2) (\<lambda>m3.
           and_then (manager_cleanup m3) (\<lambda>(deleted, m4).
             and_then (delete_manager m4) (\<lambda>_. Inr (status, handled', deleted))))))"

text \<open>The status with which the loop ends, and what the last round deleted.\<close>

fun main_loop ::
  "nat \<Rightarrow> bool \<Rightarrow> ('s, 'i) mitm_round list \<Rightarrow> (manager_status \<times> 'i list \<times> 's pfilter list) res" where
  "main_loop fuel handled [] = Inl OutOfFuel"
| "main_loop fuel handled (r # rs) =
     and_then (main_round fuel handled r) (\<lambda>(status, handled', deleted).
       if status = USBM_RESET then main_loop fuel handled' rs else Inr (status, deleted))"

section \<open>What holds of the manager at all times\<close>

definition nothing_runs :: "('s, 'i) manager \<Rightarrow> bool" where
  "nothing_runs m \<longleftrightarrow> mg_injector_threads m = 0 \<and> mg_device m = None \<and>
     mg_in m = replicate 16 empty_slot \<and> mg_out m = replicate 16 empty_slot"

text \<open>The arrays are those it was given, nothing runs while it is idle, and no operation leads to
  \<open>USBM_RESET\<close>. Between the operations of the main loop it is idle or relays.\<close>

definition in_order :: "'s pfilter ptr_array \<Rightarrow> 'i ptr_array \<Rightarrow> ('s, 'i) manager \<Rightarrow> bool" where
  "in_order p q m \<longleftrightarrow> mg_filters m = p \<and> mg_injectors m = q \<and>
     mg_status m \<noteq> USBM_RESET \<and> mg_status m \<noteq> USBM_STOPPING \<and> (mg_status m = USBM_IDLE \<longrightarrow> nothing_runs m)"

definition settled :: "'s pfilter ptr_array \<Rightarrow> 'i ptr_array \<Rightarrow> ('s, 'i) manager \<Rightarrow> bool" where
  "settled p q m \<longleftrightarrow> in_order p q m \<and> mg_status m \<in> {USBM_IDLE, USBM_RELAYING}"

lemma settled_in_order [intro]: "settled p q m \<Longrightarrow> in_order p q m"
  by (simp add: settled_def)

lemma stop_in_order:
  assumes "stop_relaying m = Inr m'" "in_order p q m"
  shows "in_order p q m'" "mg_status m \<noteq> USBM_SETUP \<Longrightarrow> mg_status m' = USBM_IDLE"
  using assms
  by (cases "mg_status m";
      auto simp: stop_relaying_def in_order_def nothing_runs_def Let_def and_then_eq_Inr
        split: option.splits)+

lemma stop_settled:
  "stop_relaying m = Inr m' \<Longrightarrow> in_order p q m \<Longrightarrow> mg_status m \<noteq> USBM_SETUP \<Longrightarrow> settled p q m'"
  using stop_in_order [of m m' p q] by (simp add: settled_def)

lemma in_order_abort: "in_order p q m \<Longrightarrow> in_order p q (m\<lparr>mg_status := USBM_SETUP_ABORT\<rparr>)"
  by (simp add: in_order_def)

lemma interrupt_in_order: "interrupt stop m = Inr m' \<Longrightarrow> in_order p q m \<Longrightarrow> in_order p q m'"
  by (auto simp: interrupt_def intro: stop_in_order(1) split: if_splits)

lemma connect_loop_in_order:
  "connect_loop fuel rcs stop i m = Inr (rc, m') \<Longrightarrow> in_order p q m \<Longrightarrow> in_order p q m'"
  by (induction fuel arbitrary: i m)
    (auto simp: and_then_eq_Inr intro: interrupt_in_order split: if_splits)

text \<open>A body of a step changes neither the status nor the arrays.\<close>

definition keeps_status :: "('s, 'i) manager \<Rightarrow> ('s, 'i) manager \<Rightarrow> bool" where
  "keeps_status m m' \<longleftrightarrow> mg_status m' = mg_status m \<and> mg_filters m' = mg_filters m \<and>
     mg_injectors m' = mg_injectors m"

lemma keeps_status_in_order:
  "keeps_status m m' \<Longrightarrow> in_order p q m \<Longrightarrow> mg_status m \<noteq> USBM_IDLE \<Longrightarrow> in_order p q m'"
  by (auto simp: keeps_status_def in_order_def)

lemma keeps_status_refl [simp]: "keeps_status m m"
  by (simp add: keeps_status_def)

lemma body_keeps_status:
  "create_ep0 dv m = Inr m' \<Longrightarrow> keeps_status m m'"
  "create_ep0_relays m = Inr m' \<Longrightarrow> keeps_status m m'"
  "attach_ep0 dv f m = Inr m' \<Longrightarrow> keeps_status m m'"
  "start_injector_thread m = Inr m' \<Longrightarrow> keeps_status m m'"
  "start_reader0 m = Inr m' \<Longrightarrow> keeps_status m m'"
  "start_writer0 m = Inr m' \<Longrightarrow> keeps_status m m'"
  by (auto simp: create_ep0_def create_ep0_relays_def attach_ep0_def start_injector_thread_def
      start_reader0_def start_writer0_def and_then_eq_Inr upd_out0_def keeps_status_def
      split: if_splits option.splits)

lemma setup_steps_keep:
  "(stop, body) \<in> set (setup_steps st dv fs is') \<Longrightarrow> body m = Inr m' \<Longrightarrow> keeps_status m m'"
  by (auto simp: setup_steps_def body_keeps_status)

lemma run_steps_in_order:
  assumes "\<And>stop body m m'. (stop, body) \<in> set steps \<Longrightarrow> body m = Inr m' \<Longrightarrow> keeps_status m m'"
  shows "run_steps steps m = Inr (returned, m') \<Longrightarrow> in_order p q m \<Longrightarrow>
    in_order p q m' \<and> (returned \<longrightarrow> settled p q m')"
  using assms
proof (induction steps arbitrary: m)
  case (Cons step steps)
  obtain stop body where step: "step = (stop, body)" by (cases step)
  from Cons.prems(1) obtain m1 where m1: "interrupt stop m = Inr m1" and
    r: "(if mg_status m1 \<noteq> USBM_SETUP then and_then (stop_relaying m1) (\<lambda>m2. Inr (True, m2))
       else and_then (body m1) (run_steps steps)) = Inr (returned, m')"
    by (auto simp: step and_then_eq_Inr)
  have o1: "in_order p q m1" by (rule interrupt_in_order [OF m1 Cons.prems(2)])
  show ?case
  proof (cases "mg_status m1 = USBM_SETUP")
    case False
    with r have "stop_relaying m1 = Inr m'" by (auto simp: and_then_eq_Inr)
    from stop_settled [OF this o1 False] show ?thesis by auto
  next
    case True
    with r obtain m2 where m2: "body m1 = Inr m2" "run_steps steps m2 = Inr (returned, m')"
      by (auto simp: and_then_eq_Inr)
    then have "keeps_status m1 m2" using Cons.prems(3) step by (metis list.set_intros(1))
    from keeps_status_in_order [OF this o1] True have "in_order p q m2" by simp
    with Cons.IH [OF m2(2)] Cons.prems(3) show ?thesis by (meson list.set_intros(2))
  qed
qed simp

lemma reader0_in_order: "start_reader0 m = Inr m' \<Longrightarrow> in_order p q m \<Longrightarrow> in_order p q m'"
proof (cases "mg_status m = USBM_IDLE")
  case True
  assume "start_reader0 m = Inr m'" "in_order p q m"
  with True show "in_order p q m'"
    by (simp add: start_reader0_def in_order_def nothing_runs_def empty_slot_def)
qed (auto intro: keeps_status_in_order body_keeps_status)

lemma finish_settled:
  assumes "finish_start stop m = Inr m'" "in_order p q m" "mg_status m = USBM_SETUP"
  shows "settled p q m'"
proof -
  from assms(1) obtain m1 m2 where m1: "start_writer0 m = Inr m1"
    and m2: "interrupt (stop AfterWriter) m1 = Inr m2"
    and r: "(if mg_status m2 \<noteq> USBM_SETUP then stop_relaying m2
       else and_then (interrupt (stop BeforeRelaying) m2) (\<lambda>m3.
         Inr (m3\<lparr>mg_status := USBM_RELAYING\<rparr>))) = Inr m'"
    by (auto simp: finish_start_def and_then_eq_Inr)
  have "in_order p q m1"
    using keeps_status_in_order [OF body_keeps_status(6) [OF m1] assms(2)] assms(3) by simp
  from interrupt_in_order [OF m2 this] have o2: "in_order p q m2" .
  show ?thesis
  proof (cases "mg_status m2 = USBM_SETUP")
    case True
    with r obtain m3 where "interrupt (stop BeforeRelaying) m2 = Inr m3"
      "m' = m3\<lparr>mg_status := USBM_RELAYING\<rparr>" by (auto simp: and_then_eq_Inr)
    with interrupt_in_order [OF this(1) o2] show ?thesis by (simp add: settled_def in_order_def)
  next
    case False
    with r have "stop_relaying m2 = Inr m'" by simp
    from stop_settled [OF this o2 False] show ?thesis .
  qed
qed

lemma abort_settled:
  "stop_relaying (m\<lparr>mg_status := USBM_SETUP_ABORT\<rparr>) = Inr m' \<Longrightarrow> in_order p q m \<Longrightarrow> settled p q m'"
  by (rule stop_settled [OF _ in_order_abort]) simp_all

lemma threads_settled:
  assumes "start_threads0 stop m = Inr m'" "in_order p q m"
  shows "settled p q m'"
proof -
  from assms(1) obtain m1 m2 where m1: "start_reader0 m = Inr m1"
    and m2: "interrupt (stop AfterReader) m1 = Inr m2"
    and r: "(if mg_status m2 \<noteq> USBM_SETUP then stop_relaying (m2\<lparr>mg_status := USBM_SETUP_ABORT\<rparr>)
       else finish_start stop m2) = Inr m'"
    by (auto simp: start_threads0_def and_then_eq_Inr)
  have o2: "in_order p q m2"
    by (rule interrupt_in_order [OF m2 reader0_in_order [OF m1 assms(2)]])
  show ?thesis
  proof (cases "mg_status m2 = USBM_SETUP")
    case True
    with r have "finish_start stop m2 = Inr m'" by simp
    from finish_settled [OF this o2 True] show ?thesis .
  next
    case False
    with r have "stop_relaying (m2\<lparr>mg_status := USBM_SETUP_ABORT\<rparr>) = Inr m'" by simp
    from abort_settled [OF this o2] show ?thesis .
  qed
qed

lemma connect_host_settled:
  assumes "connect_host fuel env m = Inr m'" "in_order p q m"
  shows "settled p q m'"
proof -
  from assms(1) obtain rc m1 where
    m1: "connect_loop fuel (se_host_connect env) (\<lambda>n. se_stop env (AtHostConnect n)) 0 m = Inr (rc, m1)"
    and r: "(if rc \<noteq> 0 then stop_relaying (m1\<lparr>mg_status := USBM_SETUP_ABORT\<rparr>)
         else start_threads0 (se_stop env) (m1\<lparr>mg_host_connected := True\<rparr>)) = Inr m'"
    by (auto simp: connect_host_def and_then_eq_Inr)
  have o1: "in_order p q m1" by (rule connect_loop_in_order [OF m1 assms(2)])
  then have o2: "in_order p q (m1\<lparr>mg_host_connected := True\<rparr>)"
    by (simp add: in_order_def nothing_runs_def)
  show ?thesis
  proof (cases "rc = 0")
    case True
    with r threads_settled [OF _ o2] show ?thesis by auto
  next
    case False
    with r abort_settled [OF _ o1] show ?thesis by auto
  qed
qed

lemma start_settled:
  assumes "start_control_relaying fuel env m = Inr m'" "mg_filters m = p" "mg_injectors m = q" "nothing_runs m"
  shows "settled p q m'"
proof -
  from assms(1) obtain rc m1 where
    m1: "connect_loop fuel (se_device_connect env) (\<lambda>n. se_stop env (AtDeviceConnect n)) 0
         (m\<lparr>mg_status := USBM_SETUP\<rparr>) = Inr (rc, m1)"
    and r: "(if rc \<noteq> 0 then Inr (m1\<lparr>mg_status := USBM_IDLE\<rparr>) else set_up_device fuel env m1) = Inr m'"
    by (auto simp: start_control_relaying_def and_then_eq_Inr)
  from connect_loop_status [OF m1] have m1': "m1 = m\<lparr>mg_status := USBM_SETUP\<rparr> \<or> m1 = m\<lparr>mg_status := USBM_SETUP_ABORT\<rparr>"
    by auto
  show ?thesis
  proof (cases "rc = 0")
    case False
    with r m1' assms(2-4) show ?thesis by (auto simp: settled_def in_order_def nothing_runs_def)
  next
    case True
    let ?m = "\<lambda>dv n. m1\<lparr>mg_device_connected := True, mg_device := Some dv, mg_claimed := mg_claimed m1 @ [0..<n]\<rparr>"
    from True r obtain dv n fs is' returned m2 where
      m2: "run_steps (setup_steps (se_stop env) dv fs is') (?m dv n) = Inr (returned, m2)"
      and r2: "(if returned then Inr m2 else connect_host fuel env m2) = Inr m'"
      by (auto simp: set_up_device_def and_then_eq_Inr)
    have "in_order p q (?m dv n)" using m1' assms(2,3) by (auto simp: in_order_def)
    from run_steps_in_order [OF setup_steps_keep m2 this] r2 connect_host_settled [of fuel env m2 m' p q]
    show ?thesis by (cases returned) auto
  qed
qed

lemma place_frame [simp]:
  "mg_status (fold place_endpoint_slot es m) = mg_status m"
  "mg_filters (fold place_endpoint_slot es m) = mg_filters m"
  "mg_injectors (fold place_endpoint_slot es m) = mg_injectors m"
  by (induction es arbitrary: m) (simp_all add: place_endpoint_slot_def)

lemma set_config_keeps: "manager_set_config idx m = Inr m' \<Longrightarrow> keeps_status m m'"
  by (auto simp: manager_set_config_def start_data_relaying_def and_then_eq_Inr Let_def keeps_status_def)

lemma event_settled:
  assumes "handle_event fuel x st = Inr st'" "settled p q (snd st)" "mg_status (snd st) = USBM_RELAYING"
  shows "settled p q (snd st')"
proof (cases x)
  case (Signal sig env)
  obtain handled m where st: "st = (handled, m)" by (cases st)
  from assms Signal obtain m1 where m1: "stop_relaying m = Inr m1"
    and r: "snd st' = m1 \<or> start_control_relaying fuel env m1 = Inr (snd st')"
    by (cases sig) (auto simp: st handle_event_def handle_signal_def and_then_eq_Inr split: if_splits)
  have o: "settled p q m1" "mg_status m1 = USBM_IDLE"
    using assms(2,3) stop_in_order [OF m1, of p q] by (auto simp: st settled_def)
  then have "nothing_runs m1" "mg_filters m1 = p" "mg_injectors m1 = q"
    by (auto simp: settled_def in_order_def)
  with r o start_settled [of fuel env m1 "snd st'" p q] show ?thesis by auto
next
  case (SetConfig idx)
  with assms obtain m where m: "manager_set_config idx (snd st) = Inr m" "st' = (fst st, m)"
    by (auto simp: handle_event_def and_then_eq_Inr)
  from keeps_status_in_order [OF set_config_keeps [OF m(1)]] assms(2,3) set_config_keeps [OF m(1)] m(2)
  show ?thesis by (auto simp: settled_def keeps_status_def)
qed (use assms in \<open>simp add: handle_event_def\<close>)

lemma wait_idle:
  "wait_loop fuel xs st = Inr (status, st') \<Longrightarrow> settled p q (snd st) \<Longrightarrow>
   status = USBM_IDLE \<and> settled p q (snd st') \<and> mg_status (snd st') = USBM_IDLE"
proof (induction xs arbitrary: st)
  case (Cons x xs)
  show ?case
  proof (cases "mg_status (snd st) = USBM_RELAYING")
    case True
    with Cons.prems(1) obtain st1 where "handle_event fuel x st = Inr st1"
      "wait_loop fuel xs st1 = Inr (status, st')" by (auto simp: and_then_eq_Inr)
    with Cons.IH event_settled [OF _ Cons.prems(2) True] show ?thesis by blast
  next
    case False
    with Cons.prems show ?thesis by (auto simp: settled_def)
  qed
qed (auto simp: settled_def split: if_splits)

lemma end_of_manager:
  assumes "settled p q m" "mg_status m = USBM_IDLE" "holds p fs" "holds q is'"
  shows "stop_relaying m = Inr m"
    and "\<exists>m4. manager_cleanup m = Inr ((rev is', rev fs), m4) \<and> delete_manager m4 = Inr ()"
proof -
  have m: "mg_filters m = p" "mg_injectors m = q" "nothing_runs m"
    using assms(1,2) by (simp_all add: settled_def in_order_def)
  have len: "length fs < 256" "length is' < 256" using assms(3,4) by (simp_all add: holds_def)
  show "stop_relaying m = Inr m" using assms(2) by (simp add: stop_relaying_def)
  show "\<exists>m4. manager_cleanup m = Inr ((rev is', rev fs), m4) \<and> delete_manager m4 = Inr ()"
    using m remove_all_holds [OF assms(3) len(1)] remove_all_holds [OF assms(4) len(2)]
    by (auto simp: manager_cleanup_def delete_manager_def nothing_runs_def thread_left_def
        joined_slot_def empty_slot_def list_ex_iff)
qed

section \<open>Properties\<close>



text \<open>SIGTERM and SIGINT end the tool: a manager that relays is stopped and the loop ends with
  it, with the status idle. A second one that arrives before ends the process.\<close>

lemma sigterm_ends:
  assumes "mg_status m = USBM_RELAYING" "stop_relaying m = Inr m'" "sig \<in> {SIGTERM, SIGINT}"
  shows "wait_loop fuel (replicate n Quiet @ Signal sig env # xs) (True, m) = Inr (USBM_IDLE, False, m')"
    and "wait_loop fuel (replicate n Quiet @ Signal sig env # xs) (False, m) = Inl Exits"
proof -
  have idle: "mg_status m' = USBM_IDLE"
    using assms(1,2) by (auto simp: stop_relaying_def Let_def and_then_eq_Inr)
  then have "wait_loop fuel ys (False, m') = Inr (USBM_IDLE, False, m')" for ys
    by (cases ys) simp_all
  then show "wait_loop fuel (replicate n Quiet @ Signal sig env # xs) (True, m)
      = Inr (USBM_IDLE, False, m')"
    and "wait_loop fuel (replicate n Quiet @ Signal sig env # xs) (False, m) = Inl Exits"
    using assms by (induction n) (auto simp: handle_event_def handle_signal_def)
qed

end
