(* ===== verification/Mitm_Plugins.thy ===== *)
theory Mitm_Plugins
  imports Mitm Manager_Life
begin

text \<open>
  The plugins of \<open>src/Plugins\<close> as the command line tool loads and deletes them: what each library of the
  sources exports (\<open>plugin_type\<close> and the getters at the end of every file), and the way from the options
  to the arrays of the manager and to its end.
\<close>

section \<open>The libraries\<close>

text \<open>The end of each file: the type, if there is one, the name of the function that makes an object, and
  whether its class derives from \<open>Injector\<close>.\<close>

datatype getter = GetDeviceProxy | GetHostProxy | GetPlugin

record exports =
  ex_type :: "int option"
  ex_getter :: getter
  ex_injector :: bool

definition libusb_exports :: exports where
  "libusb_exports = \<lparr>ex_type = None, ex_getter = GetDeviceProxy, ex_injector = False\<rparr>"

definition loopback_exports :: exports where
  "loopback_exports = \<lparr>ex_type = None, ex_getter = GetDeviceProxy, ex_injector = False\<rparr>"

definition tcp_device_exports :: exports where
  "tcp_device_exports = \<lparr>ex_type = None, ex_getter = GetDeviceProxy, ex_injector = False\<rparr>"

definition dot11_exports :: exports where
  "dot11_exports = \<lparr>ex_type = None, ex_getter = GetDeviceProxy, ex_injector = False\<rparr>"

definition callback_device_exports :: exports where
  "callback_device_exports = \<lparr>ex_type = None, ex_getter = GetDeviceProxy, ex_injector = False\<rparr>"

definition gadgetfs_exports :: exports where
  "gadgetfs_exports = \<lparr>ex_type = None, ex_getter = GetHostProxy, ex_injector = False\<rparr>"

definition tcp_host_exports :: exports where
  "tcp_host_exports = \<lparr>ex_type = None, ex_getter = GetHostProxy, ex_injector = False\<rparr>"

definition udphid_filter_exports :: exports where
  "udphid_filter_exports = \<lparr>ex_type = Some PLUGIN_FILTER, ex_getter = GetPlugin, ex_injector = False\<rparr>"

definition rot13_exports :: exports where
  "rot13_exports = \<lparr>ex_type = Some PLUGIN_FILTER, ex_getter = GetPlugin, ex_injector = False\<rparr>"

definition pcap_exports :: exports where
  "pcap_exports = \<lparr>ex_type = Some PLUGIN_FILTER, ex_getter = GetPlugin, ex_injector = False\<rparr>"

definition callback_filter_exports :: exports where
  "callback_filter_exports = \<lparr>ex_type = Some PLUGIN_FILTER, ex_getter = GetPlugin, ex_injector = False\<rparr>"

definition stream_log_exports :: exports where
  "stream_log_exports = \<lparr>ex_type = Some PLUGIN_FILTER, ex_getter = GetPlugin, ex_injector = False\<rparr>"

definition power_exports :: exports where
  "power_exports = \<lparr>ex_type = Some PLUGIN_FILTER, ex_getter = GetPlugin, ex_injector = False\<rparr>"

definition key_logger_exports :: exports where
  "key_logger_exports = \<lparr>ex_type = Some PLUGIN_FILTER, ex_getter = GetPlugin, ex_injector = False\<rparr>"

definition udp_exports :: exports where
  "udp_exports = \<lparr>ex_type = Some PLUGIN_INJECTOR, ex_getter = GetPlugin, ex_injector = True\<rparr>"

definition udphid_exports :: exports where
  "udphid_exports = \<lparr>ex_type = Some PLUGIN_INJECTOR, ex_getter = GetPlugin, ex_injector = True\<rparr>"

definition mass_storage_exports :: exports where
  "mass_storage_exports = \<lparr>ex_type = Some (PLUGIN_FILTER OR PLUGIN_INJECTOR), ex_getter = GetPlugin, ex_injector = True\<rparr>"

definition sources :: "(string \<times> exports) list" where
  "sources =
     [(''DeviceProxy_LibUSB'', libusb_exports),
      (''DeviceProxy_Loopback'', loopback_exports),
      (''DeviceProxy_TCP'', tcp_device_exports),
      (''DeviceProxy_dot11'', dot11_exports),
      (''DeviceProxy_Callback'', callback_device_exports),
      (''HostProxy_GadgetFS'', gadgetfs_exports),
      (''HostProxy_TCP'', tcp_host_exports),
      (''PacketFilter_UDPHID'', udphid_filter_exports),
      (''PacketFilter_ROT13'', rot13_exports),
      (''PacketFilter_PcapLogger'', pcap_exports),
      (''PacketFilter_Callback'', callback_filter_exports),
      (''PacketFilter_StreamLog'', stream_log_exports),
      (''PacketFilter_Power'', power_exports),
      (''PacketFilter_KeyLogger'', key_logger_exports),
      (''Injector_UDP'', udp_exports),
      (''Injector_UDPHID'', udphid_exports),
      (''PacketFilter_MassStorage'', mass_storage_exports)]"

lemmas exports_defs = libusb_exports_def
  loopback_exports_def
  tcp_device_exports_def
  dot11_exports_def
  callback_device_exports_def
  gadgetfs_exports_def
  tcp_host_exports_def
  udphid_filter_exports_def
  rot13_exports_def
  pcap_exports_def
  callback_filter_exports_def
  stream_log_exports_def
  power_exports_def
  key_logger_exports_def
  udp_exports_def
  udphid_exports_def
  mass_storage_exports_def

text \<open>What the dynamic linker finds in a library.\<close>

definition lib_of :: "exports \<Rightarrow> plugin_lib" where
  "lib_of ex =
     \<lparr>lib_get_deviceproxy = (ex_getter ex = GetDeviceProxy), lib_get_hostproxy = (ex_getter ex = GetHostProxy),
      lib_plugin_type = ex_type ex, lib_get_plugin = (ex_getter ex = GetPlugin), lib_is_injector = ex_injector ex\<rparr>"

definition source_libs :: libs where
  "source_libs name = map_option lib_of (map_of sources name)"

text \<open>Each file keeps the object that it made last in a static variable, which \<open>destroy_plugin\<close> deletes and
  leaves as it is. Objects are numbers; \<open>ps_live\<close> are those that have not been deleted.\<close>

record plugin_static =
  ps_proxy :: "nat option"
  ps_live :: "nat list"
  ps_next :: nat

definition call_getter :: "plugin_static \<Rightarrow> nat \<times> plugin_static" where
  "call_getter ps =
     (ps_next ps, ps\<lparr>ps_proxy := Some (ps_next ps), ps_live := ps_next ps # ps_live ps, ps_next := ps_next ps + 1\<rparr>)"

definition delete_object :: "nat \<Rightarrow> plugin_static \<Rightarrow> plugin_static res" where
  "delete_object n ps =
     (if n \<in> set (ps_live ps) then Inr (ps\<lparr>ps_live := remove1 n (ps_live ps)\<rparr>) else Inl UseAfterFree)"

definition destroy_plugin :: "plugin_static \<Rightarrow> plugin_static res" where
  "destroy_plugin ps = (case ps_proxy ps of None \<Rightarrow> Inr ps | Some n \<Rightarrow> delete_object n ps)"

text \<open>The libraries by what they make.\<close>

definition device_plugins :: "string list" where
  "device_plugins = map fst (filter (\<lambda>(_, ex). ex_getter ex = GetDeviceProxy) sources)"

definition host_plugins :: "string list" where
  "host_plugins = map fst (filter (\<lambda>(_, ex). ex_getter ex = GetHostProxy) sources)"

definition filter_plugins :: "string list" where
  "filter_plugins = map fst (filter (\<lambda>(_, ex). ex_type ex = Some PLUGIN_FILTER) sources)"

definition injector_plugins :: "string list" where
  "injector_plugins = map fst (filter (\<lambda>(_, ex). ex_type ex = Some PLUGIN_INJECTOR) sources)"

definition storage_plugin :: string where
  "storage_plugin = ''PacketFilter_MassStorage''"

lemma plugin_lists:
  "device_plugins = [''DeviceProxy_LibUSB'', ''DeviceProxy_Loopback'', ''DeviceProxy_TCP'',
     ''DeviceProxy_dot11'', ''DeviceProxy_Callback'']"
  "host_plugins = [''HostProxy_GadgetFS'', ''HostProxy_TCP'']"
  "filter_plugins = [''PacketFilter_UDPHID'', ''PacketFilter_ROT13'', ''PacketFilter_PcapLogger'',
     ''PacketFilter_Callback'', ''PacketFilter_StreamLog'', ''PacketFilter_Power'', ''PacketFilter_KeyLogger'']"
  "injector_plugins = [''Injector_UDP'', ''Injector_UDPHID'']"
  by code_simp+

lemmas plugin_names = plugin_lists storage_plugin_def

section \<open>Lemmas\<close>

definition loadable :: "string list" where
  "loadable = filter_plugins @ injector_plugins @ [storage_plugin]"

lemma usable_code [code]:
  "usable libs tys name = (case libs name of None \<Rightarrow> False
     | Some lib \<Rightarrow> lib_get_plugin lib \<and> (case lib_plugin_type lib of None \<Rightarrow> False | Some ty \<Rightarrow> ty \<in> tys))"
  by (auto simp: usable_def split: option.splits)

lemma source_lib_cases:
  assumes "n \<in> set loadable"
  shows "source_libs n \<noteq> None" "n \<notin> set device_plugins" "n \<notin> set host_plugins"
    "usable source_libs {8, 16, 24} n"
    "usable source_libs {8, 24} n \<longleftrightarrow> n \<in> set filter_plugins \<or> n = storage_plugin"
    "usable source_libs {16, 24} n \<longleftrightarrow> n \<in> set injector_plugins \<or> n = storage_plugin"
    "usable source_libs {16, 24} n \<longrightarrow> as_injector source_libs n = Some n"
    "twofold source_libs n \<longleftrightarrow> n = storage_plugin"
proof -
  have "list_all (\<lambda>n. source_libs n \<noteq> None \<and> n \<notin> set device_plugins \<and> n \<notin> set host_plugins \<and>
      (usable source_libs {8, 24} n \<longleftrightarrow> n \<in> set filter_plugins \<or> n = storage_plugin) \<and>
      (usable source_libs {16, 24} n \<longleftrightarrow> n \<in> set injector_plugins \<or> n = storage_plugin) \<and>
      usable source_libs {8, 16, 24} n \<and>
      (usable source_libs {16, 24} n \<longrightarrow> as_injector source_libs n = Some n) \<and>
      (twofold source_libs n \<longleftrightarrow> n = storage_plugin)) loadable"
    by code_simp
  with assms show "source_libs n \<noteq> None" "n \<notin> set device_plugins" "n \<notin> set host_plugins"
    "usable source_libs {8, 16, 24} n"
    "usable source_libs {8, 24} n \<longleftrightarrow> n \<in> set filter_plugins \<or> n = storage_plugin"
    "usable source_libs {16, 24} n \<longleftrightarrow> n \<in> set injector_plugins \<or> n = storage_plugin"
    "usable source_libs {16, 24} n \<longrightarrow> as_injector source_libs n = Some n"
    "twofold source_libs n \<longleftrightarrow> n = storage_plugin"
    by (simp_all add: list_all_iff)
qed

lemma loadable_short: "distinct ns \<Longrightarrow> set ns \<subseteq> set loadable \<Longrightarrow> length ns < 256"
  using card_mono [of "set loadable" "set ns"] card_length [of loadable]
  by (simp add: distinct_card) (simp add: loadable_def plugin_names)

lemma proxy_libs:
  "d \<in> set device_plugins \<Longrightarrow> \<exists>lib. source_libs d = Some lib \<and> lib_get_deviceproxy lib"
  "h \<in> set host_plugins \<Longrightarrow> h \<notin> set device_plugins \<and> (\<exists>lib. source_libs h = Some lib \<and> lib_get_hostproxy lib)"
proof -
  have "list_all (\<lambda>d. case source_libs d of None \<Rightarrow> False | Some lib \<Rightarrow> lib_get_deviceproxy lib) device_plugins"
    "list_all (\<lambda>h. h \<notin> set device_plugins \<and>
      (case source_libs h of None \<Rightarrow> False | Some lib \<Rightarrow> lib_get_hostproxy lib)) host_plugins"
    by code_simp+
  then show "d \<in> set device_plugins \<Longrightarrow> \<exists>lib. source_libs d = Some lib \<and> lib_get_deviceproxy lib"
    "h \<in> set host_plugins \<Longrightarrow> h \<notin> set device_plugins \<and> (\<exists>lib. source_libs h = Some lib \<and> lib_get_hostproxy lib)"
    by (auto simp: list_all_iff split: option.splits)
qed

text \<open>\<open>destroy_plugin\<close> is not for a program that deletes the objects itself, as the manager does, nor for one
  that makes two.\<close>

lemma destroy_after_cleanup:
  assumes "call_getter ps = (n, ps1)" "n \<notin> set (ps_live ps)" "delete_object n ps1 = Inr ps2"
  shows "destroy_plugin ps2 = Inl UseAfterFree"
  using assms by (auto simp: call_getter_def delete_object_def destroy_plugin_def split: if_splits)

lemma destroy_leaves_first:
  assumes "call_getter ps = (n, ps1)" "call_getter ps1 = (n', ps2)" "destroy_plugin ps2 = Inr ps3"
  shows "n \<in> set (ps_live ps3) \<and> ps_live ps3 = ps_live ps1"
  using assms by (auto simp: call_getter_def delete_object_def destroy_plugin_def split: if_splits)

section \<open>Properties\<close>

text \<open>C39: from the command line to the end of the manager: when the options ask for proxies and plugins of
  the sources, each plugin once, and no file of settings is read, the manager gets exactly the filters
  and the injectors among them, in the order of the options; and \<open>cleanup\<close> at the end deletes every
  object once, unless mass storage has been asked for, whose object is deleted twice.\<close>

theorem mitm_plugin_objects:
  assumes "mitm_settings env opts = Some cfg" "list_all (\<lambda>x. \<not> reads_file x) opts"
    and "distinct (concat (map plugins_of opts))" "set (concat (map plugins_of opts)) \<subseteq> set loadable"
    and "cp_get ''DeviceProxy'' cfg = d" "d \<in> set device_plugins"
    and "cp_get ''HostProxy'' cfg = h" "h \<in> set host_plugins"
  shows "\<exists>fs is. manager_load_plugins source_libs cfg new_plugin_manager no_ptrs no_ptrs = Inr (d, h, fs, is) \<and>
    holds fs (filter (\<lambda>n. n \<in> set filter_plugins \<or> n = storage_plugin) (concat (map plugins_of opts))) \<and>
    holds is (map Some (filter (\<lambda>n. n \<in> set injector_plugins \<or> n = storage_plugin)
      (concat (map plugins_of opts)))) \<and>
    cleanup_objects d h fs is (d # h # concat (map plugins_of opts)) =
      (if storage_plugin \<in> set (concat (map plugins_of opts)) then Inl UseAfterFree else Inr [])"
proof -
  define names where "names = concat (map plugins_of opts)"
  have vec: "get_vector ''Plugins'' cfg = names"
    using settings_outcome [OF assms(1,2)] by (simp add: names_def)
  have dist: "distinct names" and sub: "set names \<subseteq> set loadable"
    using assms(3,4) by (simp_all add: names_def)
  have n: "n \<in> set loadable" if "n \<in> set names" for n using sub that by blast
  note c = source_lib_cases [OF n]
  obtain dlib where d: "source_libs (cp_get ''DeviceProxy'' cfg) = Some dlib" "lib_get_deviceproxy dlib"
    using proxy_libs(1) [OF assms(6)] by (auto simp: assms(5))
  obtain hlib where h: "source_libs (cp_get ''HostProxy'' cfg) = Some hlib" "lib_get_hostproxy hlib"
    using proxy_libs(2) [OF assms(8)] by (auto simp: assms(7))
  have dh: "d \<noteq> h" using proxy_libs(2) [OF assms(8)] assms(6) by blast
  have found: "\<forall>n\<in>set (get_vector ''Plugins'' cfg). source_libs n \<noteq> None" using c(1) by (simp add: vec)
  have short: "length (get_vector ''Plugins'' cfg) < 256" using loadable_short [OF dist sub] by (simp add: vec)
  have all: "distinct (cp_get ''DeviceProxy'' cfg # cp_get ''HostProxy'' cfg # get_vector ''Plugins'' cfg)"
    using dist dh c(2,3) assms(5-8) by (auto simp: vec)
  have filters: "filter (usable source_libs {8, 24}) names = filter (\<lambda>n. n \<in> set filter_plugins \<or> n = storage_plugin) names"
    "filter (usable source_libs {8, 16, 24}) names = names"
    using c(4,5) by (auto intro: filter_cong simp: filter_id_conv)
  have injectors: "map (as_injector source_libs) (filter (usable source_libs {16, 24}) names) =
      map Some (filter (\<lambda>n. n \<in> set injector_plugins \<or> n = storage_plugin) names)"
    using c(6,7) by (intro map_cong filter_cong) auto
  have twice: "list_ex (twofold source_libs) names \<longleftrightarrow> storage_plugin \<in> set names"
    using c(8) by (auto simp: list_ex_iff)
  from cleanup_outcome [OF d h found short all] obtain fs ins where
    load: "manager_load_plugins source_libs cfg new_plugin_manager no_ptrs no_ptrs = Inr (d, h, fs, ins)"
    and clean: "cleanup_objects d h fs ins (d # h # names) =
      (if storage_plugin \<in> set names then Inl UseAfterFree else Inr [])"
    by (auto simp: vec assms(5,7) filters twice)
  from plugins_loaded [OF d h found, of no_ptrs "[]" no_ptrs "[]"] short load
  have "holds fs (filter (\<lambda>n. n \<in> set filter_plugins \<or> n = storage_plugin) names)"
    "holds ins (map Some (filter (\<lambda>n. n \<in> set injector_plugins \<or> n = storage_plugin) names))"
    by (auto simp: vec filters injectors)
  with load clean show ?thesis unfolding names_def by blast
qed

theorem mitm_plugin_objects_witness:
  "\<exists>cfg fs is. mitm_settings sample_env [OptMassStorage, OptInject, OptLog] = Some cfg \<and>
    manager_load_plugins source_libs cfg new_plugin_manager no_ptrs no_ptrs =
      Inr (''DeviceProxy_LibUSB'', ''HostProxy_GadgetFS'', fs, is) \<and>
    holds fs [''PacketFilter_MassStorage'', ''PacketFilter_StreamLog''] \<and>
    holds is [Some ''PacketFilter_MassStorage'', Some ''Injector_UDP''] \<and>
    cleanup_objects ''DeviceProxy_LibUSB'' ''HostProxy_GadgetFS'' fs is
      [''DeviceProxy_LibUSB'', ''HostProxy_GadgetFS'', ''PacketFilter_MassStorage'', ''Injector_UDP'',
       ''PacketFilter_StreamLog''] = Inl UseAfterFree"
proof -
  let ?opts = "[OptMassStorage, OptInject, OptLog]"
  obtain cfg where 1: "mitm_settings sample_env ?opts = Some cfg"
    by (simp add: mitm_settings_def)
  have p: "cp_get ''DeviceProxy'' cfg = ''DeviceProxy_LibUSB''" "cp_get ''HostProxy'' cfg = ''HostProxy_GadgetFS''"
    using settings_outcome [OF 1] by simp_all
  from mitm_plugin_objects [OF 1, of "''DeviceProxy_LibUSB''" "''HostProxy_GadgetFS''"] 1 p
  show ?thesis by (simp add: loadable_def plugin_names)
qed

end
