(* ===== verification/Callback_Model.thy ===== *)
theory Callback_Model
  imports Filters Settings_Model Mitm_Loop
begin

text \<open>
  The plugins that hand over to another program (\<open>DeviceProxy_Callback.cpp\<close> and
  \<open>PacketFilter_Callback.cpp\<close> under \<open>src/Plugins\<close>) and the functions through which that program uses
  the library (\<open>src/bindings/python/API.cpp\<close>). A function pointer is an address or NULL (\<open>None\<close>); what
  the functions of the other program do is a parameter.
\<close>

section \<open>The other program\<close>

text \<open>\<open>'f\<close> are the addresses of its functions, \<open>'d\<close> is its state. \<open>control_request\<close> gets the block at
  \<open>dataptr\<close> and the number at \<open>nbytes\<close> (which may have no value) and leaves both; \<open>receive_data\<close> gets the
  number at \<open>length\<close>, and leaves it and what it has written to the block.\<close>

record ('f, 'd) foreign =
  fo_connect :: "'f \<Rightarrow> int \<Rightarrow> 'd \<Rightarrow> int \<times> 'd"
  fo_disconnect :: "'f \<Rightarrow> 'd \<Rightarrow> 'd"
  fo_reset :: "'f \<Rightarrow> 'd \<Rightarrow> 'd"
  fo_control_request :: "'f \<Rightarrow> usb_ctrlrequest \<Rightarrow> int option \<Rightarrow> bytes \<Rightarrow> int \<Rightarrow> 'd \<Rightarrow>
    (int \<times> int option \<times> bytes) \<times> 'd"
  fo_send_data :: "'f \<Rightarrow> u8 \<Rightarrow> u8 \<Rightarrow> u16 \<Rightarrow> bytes \<Rightarrow> int \<Rightarrow> 'd \<Rightarrow> 'd"
  fo_receive_data :: "'f \<Rightarrow> u8 \<Rightarrow> u8 \<Rightarrow> u16 \<Rightarrow> int \<Rightarrow> int \<Rightarrow> 'd \<Rightarrow> (bytes \<times> int) \<times> 'd"
  fo_toString :: "'f \<Rightarrow> string"
  fo_filter_packet :: "'f \<Rightarrow> packet \<Rightarrow> 'd \<Rightarrow> packet \<times> 'd"
  fo_filter_setup_packet :: "'f \<Rightarrow> setup_packet \<Rightarrow> bool \<Rightarrow> 'd \<Rightarrow> setup_packet \<times> 'd"

section \<open>Device proxy\<close>

record 'f device_callback =
  dcb_connect :: "'f option"
  dcb_disconnect :: "'f option"
  dcb_reset :: "'f option"
  dcb_control_request :: "'f option"
  dcb_send_data :: "'f option"
  dcb_receive_data :: "'f option"
  dcb_toString :: "'f option"
  dcb_is_connected :: bool

text \<open>A pointer from the settings; NULL may have been stored under the key.\<close>

definition pointer_at :: "string \<Rightarrow> 'f option config_parser \<Rightarrow> 'f option" where
  "pointer_at key cfg = (case get_pointer key cfg of None \<Rightarrow> None | Some p \<Rightarrow> p)"

definition new_device_callback :: "'f option config_parser \<Rightarrow> 'f device_callback" where
  "new_device_callback cfg =
     \<lparr>dcb_connect = pointer_at ''DeviceProxy_Callback::connect'' cfg,
      dcb_disconnect = pointer_at ''DeviceProxy_Callback::disconnect'' cfg,
      dcb_reset = pointer_at ''DeviceProxy_Callback::reset'' cfg,
      dcb_control_request = pointer_at ''DeviceProxy_Callback::control_request'' cfg,
      dcb_send_data = pointer_at ''DeviceProxy_Callback::send_data'' cfg,
      dcb_receive_data = pointer_at ''DeviceProxy_Callback::receive_data'' cfg,
      dcb_toString = pointer_at ''DeviceProxy_Callback::toString'' cfg,
      dcb_is_connected = False\<rparr>"

definition dcb_do_connect ::
  "('f, 'd) foreign \<Rightarrow> int \<Rightarrow> 'f device_callback \<Rightarrow> 'd \<Rightarrow> int \<times> 'f device_callback \<times> 'd" where
  "dcb_do_connect fo timeout dp d =
     (let (rv, d1) = (case dcb_connect dp of None \<Rightarrow> (0, d) | Some f \<Rightarrow> fo_connect fo f timeout d) in
      (rv, if rv = 0 then dp\<lparr>dcb_is_connected := True\<rparr> else dp, d1))"

definition dcb_do_disconnect :: "('f, 'd) foreign \<Rightarrow> 'f device_callback \<Rightarrow> 'd \<Rightarrow> 'd" where
  "dcb_do_disconnect fo dp d =
     (case dcb_disconnect dp of None \<Rightarrow> d | Some f \<Rightarrow> fo_disconnect fo f d)"

text \<open>The destructor disconnects.\<close>

definition delete_device_callback :: "('f, 'd) foreign \<Rightarrow> 'f device_callback \<Rightarrow> 'd \<Rightarrow> 'd" where
  "delete_device_callback fo dp d = dcb_do_disconnect fo dp d"

definition dcb_do_reset :: "('f, 'd) foreign \<Rightarrow> 'f device_callback \<Rightarrow> 'd \<Rightarrow> 'd" where
  "dcb_do_reset fo dp d = (case dcb_reset dp of None \<Rightarrow> d | Some f \<Rightarrow> fo_reset fo f d)"

text \<open>After the call \<open>*nbytes\<close> bytes at \<open>dataptr\<close> are printed, whatever the call returned.\<close>

definition dcb_do_control_request ::
  "('f, 'd) foreign \<Rightarrow> usb_ctrlrequest \<Rightarrow> int option \<Rightarrow> bytes \<Rightarrow> int \<Rightarrow> 'f device_callback \<Rightarrow> 'd \<Rightarrow>
   ((int \<times> int option \<times> bytes) \<times> 'd) res" where
  "dcb_do_control_request fo r nbytes data timeout dp d =
     (case dcb_control_request dp of
        None \<Rightarrow> Inr ((-1, nbytes, data), d)
      | Some f \<Rightarrow>
          (case fo_control_request fo f r nbytes data timeout d of
             ((rv, None, data1), d1) \<Rightarrow> Inl Uninit
           | ((rv, Some n, data1), d1) \<Rightarrow>
               and_then (first_n data1 (nat n)) (\<lambda>_. Inr ((rv, Some n, data1), d1))))"

definition dcb_do_send_data ::
  "('f, 'd) foreign \<Rightarrow> u8 \<Rightarrow> u8 \<Rightarrow> u16 \<Rightarrow> bytes \<Rightarrow> int \<Rightarrow> 'f device_callback \<Rightarrow> 'd \<Rightarrow> 'd" where
  "dcb_do_send_data fo endpoint attributes maxPacketSize data len dp d =
     (case dcb_send_data dp of None \<Rightarrow> d
      | Some f \<Rightarrow> fo_send_data fo f endpoint attributes maxPacketSize data len d)"

text \<open>What is at \<open>*dataptr\<close> and \<open>*length\<close> afterwards. The block has \<open>maxPacketSize\<close> bytes; a length of 0
  releases it (and \<open>*dataptr\<close> goes on pointing to it, which is \<open>None\<close> here as for no block).\<close>

definition dcb_do_receive_data ::
  "('f, 'd) foreign \<Rightarrow> u8 \<Rightarrow> u8 \<Rightarrow> u16 \<Rightarrow> int \<Rightarrow> int \<Rightarrow> 'f device_callback \<Rightarrow> 'd \<Rightarrow>
   ((bytes option \<times> int) \<times> 'd) res" where
  "dcb_do_receive_data fo endpoint attributes maxPacketSize len timeout dp d =
     (case dcb_receive_data dp of
        None \<Rightarrow> Inr ((None, len), d)
      | Some f \<Rightarrow>
          (case fo_receive_data fo f endpoint attributes maxPacketSize len timeout d of
             ((data, n), d1) \<Rightarrow>
               if unat maxPacketSize < length data \<or> int (unat maxPacketSize) < n then Inl OutOfBounds
               else if n = 0 then Inr ((None, 0), d1)
               else if int (length data) < n then Inl Uninit
               else Inr ((Some data, n), d1)))"

definition dcb_do_toString :: "('f, 'd) foreign \<Rightarrow> 'f device_callback \<Rightarrow> string" where
  "dcb_do_toString fo dp =
     (case dcb_toString dp of None \<Rightarrow> ''Callback device'' | Some f \<Rightarrow> fo_toString fo f)"

section \<open>Packet filter\<close>

record 'f filter_callback =
  fcb_cb :: "'f option"
  fcb_cb_setup :: "'f option"

definition new_filter_callback :: "'f option config_parser \<Rightarrow> 'f filter_callback" where
  "new_filter_callback cfg =
     \<lparr>fcb_cb = pointer_at ''PacketFilter_Callback::filter_packet'' cfg,
      fcb_cb_setup = pointer_at ''PacketFilter_Callback::filter_setup_packet'' cfg\<rparr>"

text \<open>The other constructor takes the two functions.\<close>

definition filter_callback_with :: "'f option \<Rightarrow> 'f option \<Rightarrow> 'f filter_callback" where
  "filter_callback_with cb cb_setup = \<lparr>fcb_cb = cb, fcb_cb_setup = cb_setup\<rparr>"

definition fcb_filter_packet ::
  "('f, 'd) foreign \<Rightarrow> 'f filter_callback \<Rightarrow> packet \<Rightarrow> 'd \<Rightarrow> (packet \<times> 'd) res" where
  "fcb_filter_packet fo fc p d =
     Inr (case fcb_cb fc of None \<Rightarrow> (p, d) | Some f \<Rightarrow> fo_filter_packet fo f p d)"

definition fcb_filter_setup_packet ::
  "('f, 'd) foreign \<Rightarrow> 'f filter_callback \<Rightarrow> setup_packet \<Rightarrow> bool \<Rightarrow> 'd \<Rightarrow> (setup_packet \<times> 'd) res" where
  "fcb_filter_setup_packet fo fc p direction_out d =
     Inr (case fcb_cb_setup fc of None \<Rightarrow> (p, d)
          | Some f \<Rightarrow> fo_filter_setup_packet fo f p direction_out d)"

definition callback_filter :: "('f, 'd) foreign \<Rightarrow> 'f filter_callback \<Rightarrow> 'd pfilter" where
  "callback_filter fo fc =
     \<lparr>fl_base = new_filter_base, fl_packet = fcb_filter_packet fo fc,
      fl_setup = fcb_filter_setup_packet fo fc\<rparr>"

section \<open>The functions of the library\<close>

text \<open>The calls that change the settings, with their arguments (\<open>stderr\<close> is an address like the others).\<close>

datatype 'f api =
    ApiSetConfig string string
  | ApiEnableLogging 'f
  | ApiRegisterDevice "'f option" "'f option" "'f option" "'f option" "'f option" "'f option" "'f option"
  | ApiRegisterFilter "'f option"

fun api_call :: "'f api \<Rightarrow> 'f option config_parser \<Rightarrow> 'f option config_parser" where
  "api_call (ApiSetConfig key value) cfg = cp_set key value cfg"
| "api_call (ApiEnableLogging err) cfg =
     add_pointer ''PacketFilter_StreamLog::file'' (Some err)
       (add_to_vector ''Plugins'' ''PacketFilter_StreamLog'' cfg)"
| "api_call (ApiRegisterDevice connect disconnect reset control send receive_cb to_string) cfg =
     add_pointer ''DeviceProxy_Callback::toString'' to_string
       (add_pointer ''DeviceProxy_Callback::receive_data'' receive_cb
         (add_pointer ''DeviceProxy_Callback::send_data'' send
           (add_pointer ''DeviceProxy_Callback::control_request'' control
             (add_pointer ''DeviceProxy_Callback::reset'' reset
               (add_pointer ''DeviceProxy_Callback::disconnect'' disconnect
                 (add_pointer ''DeviceProxy_Callback::connect'' connect
                   (cp_set ''DeviceProxy'' ''DeviceProxy_Callback'' cfg)))))))"
| "api_call (ApiRegisterFilter cb) cfg =
     add_pointer ''PacketFilter_Callback::filter_setup_packet'' None
       (add_pointer ''PacketFilter_Callback::filter_packet'' cb
         (add_to_vector ''Plugins'' ''PacketFilter_Callback'' cfg))"

text \<open>\<open>usbproxy_init\<close> and the calls before \<open>load_plugins\<close>; the filter objects that loading the plugins
  creates from the settings, one for each time the plugin is named.\<close>

definition api_settings :: "'f api list \<Rightarrow> 'f option config_parser" where
  "api_settings calls = fold api_call calls new_config_parser"

definition loaded_callback_filters :: "'f option config_parser \<Rightarrow> 'f filter_callback list" where
  "loaded_callback_filters cfg =
     map (\<lambda>_. new_filter_callback cfg)
       (filter (\<lambda>name. name = ''PacketFilter_Callback'') (get_vector ''Plugins'' cfg))"

definition api_start :: "nat \<Rightarrow> start_env \<Rightarrow> ('s, 'i) manager \<Rightarrow> ('s, 'i) manager res" where
  "api_start fuel env m = start_control_relaying fuel env m"

definition api_get_status :: "('s, 'i) manager \<Rightarrow> manager_status" where
  "api_get_status m = mg_status m"

definition api_shutdown :: "('s, 'i) manager \<Rightarrow> ('i list \<times> 's pfilter list) res" where
  "api_shutdown m =
     and_then (stop_relaying m) (\<lambda>m1. and_then (manager_cleanup m1) (\<lambda>(deleted, m2).
       and_then (delete_manager m2) (\<lambda>_. Inr deleted)))"

section \<open>Lemmas\<close>

lemma pointer_at_simps [simp]:
  "pointer_at k (cp_set k' v c) = pointer_at k c"
  "pointer_at k (add_to_vector k' v c) = pointer_at k c"
  "pointer_at k (add_pointer k' p c) = (if k = k' then p else pointer_at k c)"
  by (simp_all add: pointer_at_def get_pointer_def cp_set_def add_to_vector_def add_pointer_def
      split: option.split)

text \<open>The last call that registers a device, or a filter.\<close>

fun device_callbacks :: "'f api \<Rightarrow> 'f device_callback option" where
  "device_callbacks (ApiRegisterDevice connect disconnect reset control send receive_cb to_string) =
     Some \<lparr>dcb_connect = connect, dcb_disconnect = disconnect, dcb_reset = reset,
       dcb_control_request = control, dcb_send_data = send, dcb_receive_data = receive_cb,
       dcb_toString = to_string, dcb_is_connected = False\<rparr>"
| "device_callbacks _ = None"

fun filter_callback_of :: "'f api \<Rightarrow> 'f option option" where
  "filter_callback_of (ApiRegisterFilter cb) = Some cb"
| "filter_callback_of _ = None"

fun names_plugin :: "'f api \<Rightarrow> bool" where
  "names_plugin (ApiSetConfig key value) \<longleftrightarrow> key = ''DeviceProxy''"
| "names_plugin _ \<longleftrightarrow> False"

lemma api_call_device:
  "new_device_callback (api_call c cfg) =
     (case device_callbacks c of None \<Rightarrow> new_device_callback cfg | Some dp \<Rightarrow> dp)"
  by (cases c) (simp_all add: new_device_callback_def)

lemma api_call_name:
  "\<not> names_plugin c \<Longrightarrow> cp_get ''DeviceProxy'' (api_call c cfg) =
     (if device_callbacks c = None then cp_get ''DeviceProxy'' cfg else ''DeviceProxy_Callback'')"
  by (cases c) simp_all

lemma api_call_filter:
  "new_filter_callback (api_call c cfg) =
     (case filter_callback_of c of None \<Rightarrow> new_filter_callback cfg
      | Some cb \<Rightarrow> \<lparr>fcb_cb = cb, fcb_cb_setup = None\<rparr>)"
  by (cases c) (simp_all add: new_filter_callback_def)

lemma api_call_plugins:
  "get_vector ''Plugins'' (api_call c cfg) = get_vector ''Plugins'' cfg @
     (case c of ApiEnableLogging _ \<Rightarrow> [''PacketFilter_StreamLog'']
      | ApiRegisterFilter _ \<Rightarrow> [''PacketFilter_Callback''] | _ \<Rightarrow> [])"
  by (cases c) simp_all

lemma fold_device:
  "new_device_callback (fold api_call cs cfg) =
     (case last_some device_callbacks cs of None \<Rightarrow> new_device_callback cfg | Some dp \<Rightarrow> dp)"
  by (induction cs arbitrary: cfg) (simp_all add: api_call_device split: option.split)

lemma fold_name:
  "list_all (\<lambda>c. \<not> names_plugin c) cs \<Longrightarrow> cp_get ''DeviceProxy'' (fold api_call cs cfg) =
     (if last_some device_callbacks cs = None then cp_get ''DeviceProxy'' cfg else ''DeviceProxy_Callback'')"
  by (induction cs arbitrary: cfg) (auto simp: api_call_name split: option.split)

lemma fold_filter:
  "new_filter_callback (fold api_call cs cfg) =
     (case last_some filter_callback_of cs of None \<Rightarrow> new_filter_callback cfg
      | Some cb \<Rightarrow> \<lparr>fcb_cb = cb, fcb_cb_setup = None\<rparr>)"
  by (induction cs arbitrary: cfg) (simp_all add: api_call_filter split: option.split)

lemma fold_filters:
  "filter (\<lambda>name. name = ''PacketFilter_Callback'') (get_vector ''Plugins'' (fold api_call cs cfg)) =
     filter (\<lambda>name. name = ''PacketFilter_Callback'') (get_vector ''Plugins'' cfg) @
     map (\<lambda>_. ''PacketFilter_Callback'') (filter (\<lambda>c. filter_callback_of c \<noteq> None) cs)"
proof (induction cs arbitrary: cfg)
  case (Cons c cs)
  show ?case by (cases c) (simp_all add: Cons.IH)
qed simp

section \<open>Properties\<close>

text \<open>C30: the other program gets back what it registered: the device proxy that is loaded has the seven
  functions of the last registration (unless the settings name another proxy), and there is one packet
  filter for each registration. But all of these filters call the function that was registered last,
  since each registration stores its function under the same key, and none of them sees setup
  packets.\<close>

theorem callbacks_registered:
  assumes "list_all (\<lambda>c. \<not> names_plugin c) calls" "last_some device_callbacks calls = Some dp"
  shows "cp_get ''DeviceProxy'' (api_settings calls) = ''DeviceProxy_Callback'' \<and>
    new_device_callback (api_settings calls) = dp \<and>
    length (loaded_callback_filters (api_settings calls)) =
      length (filter (\<lambda>c. filter_callback_of c \<noteq> None) calls) \<and>
    set (loaded_callback_filters (api_settings calls)) \<subseteq>
      (case last_some filter_callback_of calls of None \<Rightarrow> {}
       | Some cb \<Rightarrow> {\<lparr>fcb_cb = cb, fcb_cb_setup = None\<rparr>})"
proof -
  have none: "\<forall>c\<in>set calls. filter_callback_of c = None"
    if "last_some filter_callback_of calls = None"
    using that by (induction calls) (auto split: option.splits)
  show ?thesis
    using assms none
    by (auto simp: api_settings_def loaded_callback_filters_def fold_device fold_name fold_filter fold_filters
        split: option.split)
qed

definition sample_calls :: "nat api list" where
  "sample_calls = [ApiRegisterDevice (Some 10) None None (Some 20) None None None,
     ApiRegisterFilter (Some 30), ApiRegisterFilter (Some 40)]"

theorem callbacks_registered_witness:
  "length (loaded_callback_filters (api_settings sample_calls)) = 2 \<and>
   set (loaded_callback_filters (api_settings sample_calls)) \<subseteq> {\<lparr>fcb_cb = Some 40, fcb_cb_setup = None\<rparr>}"
proof -
  have "list_all (\<lambda>c. \<not> names_plugin c) sample_calls"
    "last_some device_callbacks sample_calls =
      Some (new_device_callback (api_settings [hd sample_calls]))"
    "last_some filter_callback_of sample_calls = Some (Some 40)"
    "length (filter (\<lambda>c. filter_callback_of c \<noteq> None) sample_calls) = 2"
    by (simp_all add: sample_calls_def api_settings_def new_device_callback_def)
  with callbacks_registered [OF this(1,2)] show ?thesis by simp
qed

text \<open>Each filter of a chain is such a filter, so the function that was registered last sees every packet
  as often as there were registrations.\<close>

lemma filters_call_last:
  assumes "last_some filter_callback_of calls = Some (Some f)"
  shows "apply_filters (map (callback_filter fo) (loaded_callback_filters (api_settings calls))) p d =
    apply_filters (replicate (length (filter (\<lambda>c. filter_callback_of c \<noteq> None) calls))
      (callback_filter fo \<lparr>fcb_cb = Some f, fcb_cb_setup = None\<rparr>)) p d"
  using assms
  by (simp add: api_settings_def loaded_callback_filters_def fold_filter fold_filters map_replicate_const)

text \<open>The proxy stays connected after \<open>disconnect\<close>: nothing clears the flag.\<close>

lemma connected_for_good:
  "dcb_do_connect fo timeout dp d = (0, dp', d') \<Longrightarrow> dcb_is_connected dp'"
  by (auto simp: dcb_do_connect_def Let_def split: prod.splits option.splits if_splits)

text \<open>A session that is shut down by the other program ends like the tool.\<close>

lemma api_shutdown_ends:
  assumes "settled p q m" "holds p fs" "holds q is'" "stop_relaying m = Inr m'"
  shows "api_shutdown m = Inr (rev is', rev fs)"
proof -
  have "settled p q m'" "mg_status m' = USBM_IDLE"
    using stop_settled [OF assms(4)] stop_in_order(2) [OF assms(4)] assms(1) by (auto simp: settled_def)
  from end_of_manager [OF this assms(2,3)] assms(4) show ?thesis by (auto simp: api_shutdown_def)
qed

end
