(* ===== verification/Gadget_Mount.thy ===== *)
theory Gadget_Mount
  imports GadgetFS_Model
begin

text \<open>
  The directory in which the GadgetFS proxy mounts its file system
  (\<open>src/Plugins/Hosts/GadgetFS_helpers.c\<close>). The table of mounts and the directory \<open>/tmp\<close> are the state;
  which of the system calls succeed is a parameter.
\<close>

section \<open>State\<close>

record mount =
  mt_fsname :: string
  mt_dir :: string
  mt_type :: string

text \<open>\<open>gs_tmp\<close> are the entries of \<open>/tmp\<close>, \<open>gs_path\<close> is the static variable \<open>gadgetfs_path\<close>.\<close>

record gadget_system =
  gs_mounts :: "mount list"
  gs_tmp :: "string list"
  gs_path :: "string option"

text \<open>The results of the calls: \<open>ge_suffix\<close> is what \<open>mkdtemp\<close> puts in place of the six X, \<open>ge_entries\<close> what
  reading the directory that is mounted returns, \<open>ge_open\<close> the descriptor for a file.\<close>

record gadget_env =
  ge_umount :: "string \<Rightarrow> bool"
  ge_mount :: "string \<Rightarrow> string \<Rightarrow> bool"
  ge_rmdir :: "string \<Rightarrow> bool"
  ge_opendir_tmp :: bool
  ge_suffix :: "string option"
  ge_entries :: "string \<Rightarrow> string list option"
  ge_open :: "string \<Rightarrow> int"

section \<open>System calls\<close>

text \<open>\<open>umount2\<close> removes what was mounted last on a directory; \<open>rmdir\<close> fails for one on which something is
  mounted.\<close>

fun drop_first :: "('a \<Rightarrow> bool) \<Rightarrow> 'a list \<Rightarrow> 'a list" where
  "drop_first P [] = []"
| "drop_first P (x # xs) = (if P x then xs else x # drop_first P xs)"

definition sys_umount :: "gadget_env \<Rightarrow> string \<Rightarrow> gadget_system \<Rightarrow> gadget_system" where
  "sys_umount env dir s =
     (if ge_umount env dir then s\<lparr>gs_mounts := rev (drop_first (\<lambda>m. mt_dir m = dir) (rev (gs_mounts s)))\<rparr>
      else s)"

definition sys_mount :: "gadget_env \<Rightarrow> string \<Rightarrow> string \<Rightarrow> gadget_system \<Rightarrow> gadget_system" where
  "sys_mount env name dir s =
     (if ge_mount env name dir
      then s\<lparr>gs_mounts := gs_mounts s @ [\<lparr>mt_fsname = name, mt_dir = dir, mt_type = ''gadgetfs''\<rparr>]\<rparr>
      else s)"

definition sys_rmdir_tmp :: "gadget_env \<Rightarrow> string \<Rightarrow> gadget_system \<Rightarrow> gadget_system" where
  "sys_rmdir_tmp env name s =
     (if ge_rmdir env (''/tmp/'' @ name) \<and> ''/tmp/'' @ name \<notin> set (map mt_dir (gs_mounts s))
      then s\<lparr>gs_tmp := remove1 name (gs_tmp s)\<rparr> else s)"

section \<open>Mounting\<close>

definition gadget_name :: "string \<Rightarrow> bool" where
  "gadget_name name \<longleftrightarrow> length name = 13 \<and> take 7 name = ''gadget-''"

text \<open>\<open>clean_tmp\<close> builds each path in a buffer of 20 characters.\<close>

fun rmdirs :: "gadget_env \<Rightarrow> string list \<Rightarrow> gadget_system \<Rightarrow> gadget_system res" where
  "rmdirs env [] s = Inr s"
| "rmdirs env (name # names) s =
     (if 20 < length (''/tmp/'' @ name) + 1 then Inl OutOfBounds
      else rmdirs env names (sys_rmdir_tmp env name s))"

definition clean_tmp :: "gadget_env \<Rightarrow> gadget_system \<Rightarrow> gadget_system res" where
  "clean_tmp env s =
     (if \<not> ge_opendir_tmp env then Inr s else rmdirs env (filter gadget_name (gs_tmp s)) s)"

definition remount :: "gadget_env \<Rightarrow> mount \<Rightarrow> gadget_system \<Rightarrow> gadget_system" where
  "remount env m s = (if mt_fsname m \<noteq> ''USBProxy'' then sys_mount env (mt_fsname m) (mt_dir m) s else s)"

text \<open>When \<open>mkdtemp\<close> fails the path is NULL, and mounting there fails.\<close>

definition mount_gadget :: "gadget_env \<Rightarrow> gadget_system \<Rightarrow> (int \<times> gadget_system) res" where
  "mount_gadget env s =
     (let old = filter (\<lambda>m. mt_type m = ''gadgetfs'') (gs_mounts s);
          s1 = fold (\<lambda>m. sys_umount env (mt_dir m)) old s;
          s2 = fold (remount env) old s1 in
      and_then (clean_tmp env s2) (\<lambda>s3.
        case ge_suffix env of
          None \<Rightarrow> Inr (1, s3\<lparr>gs_path := None\<rparr>)
        | Some x \<Rightarrow>
            let path = ''/tmp/gadget-'' @ x;
                s4 = s3\<lparr>gs_path := Some path, gs_tmp := gs_tmp s3 @ [''gadget-'' @ x]\<rparr> in
            Inr (if ge_mount env ''USBProxy'' path then 0 else 1, sys_mount env ''USBProxy'' path s4)))"

definition unmount_gadget :: "gadget_env \<Rightarrow> gadget_system \<Rightarrow> int \<times> gadget_system" where
  "unmount_gadget env s =
     (case gs_path s of
        None \<Rightarrow> (0, s)
      | Some path \<Rightarrow> (0, (sys_rmdir_tmp env (drop 5 path) (sys_umount env path s))\<lparr>gs_path := None\<rparr>))"

section \<open>The device file\<close>

definition gadget_devices :: "string list" where
  "gadget_devices =
     [''12480000.hsotg'', ''2184000.usb'', ''at91_udc'', ''atmel_usba_udc'', ''dummy_udc'', ''dwc_otg_pcd'',
      ''gfs_udc'', ''goku_udc'', ''lh740x_udc'', ''musb-hdrc'', ''musb_hdrc'', ''net2280'', ''omap_udc'',
      ''pxa2xx_udc'', ''sh_udc'', ''sw_usb_udc'', ''usb20_otg'']"

text \<open>The first entry of the directory that is one of the names; the path is mounted when there is none, and
  \<open>opendir\<close> is called whatever became of that.\<close>

definition find_gadget_filename ::
  "gadget_env \<Rightarrow> gadget_system \<Rightarrow> (string option \<times> gadget_system) res" where
  "find_gadget_filename env s =
     and_then (if gs_path s = None then and_then (mount_gadget env s) (\<lambda>(_, s1). Inr s1) else Inr s) (\<lambda>s1.
       and_then (deref (gs_path s1)) (\<lambda>path.
         Inr (case ge_entries env path of None \<Rightarrow> None
              | Some names \<Rightarrow> find (\<lambda>name. name \<in> set gadget_devices) names, s1)))"

text \<open>The path is cut after 255 characters.\<close>

definition open_gadget :: "gadget_env \<Rightarrow> gadget_system \<Rightarrow> string option \<Rightarrow> int res" where
  "open_gadget env s filename =
     (case filename of
        None \<Rightarrow> Inr (-1)
      | Some name \<Rightarrow> and_then (deref (gs_path s)) (\<lambda>path.
          Inr (ge_open env (take 255 (path @ ''/'' @ name)))))"

section \<open>Lemmas\<close>

lemma drop_first_unique:
  "distinct (map f xs) \<Longrightarrow> drop_first (\<lambda>x. f x = d) xs = filter (\<lambda>x. f x \<noteq> d) xs"
proof (induction xs)
  case (Cons x xs)
  then have "f x \<notin> f ` set xs" by simp
  then have "f x = d \<Longrightarrow> filter (\<lambda>x. f x \<noteq> d) xs = xs" by (auto simp: filter_id_conv image_iff)
  with Cons show ?case by auto
qed simp

definition all_succeed :: "gadget_env \<Rightarrow> bool" where
  "all_succeed env \<longleftrightarrow> ge_umount env = (\<lambda>_. True) \<and> ge_mount env = (\<lambda>_ _. True) \<and>
     ge_rmdir env = (\<lambda>_. True) \<and> ge_opendir_tmp env"

lemma umount_unique:
  assumes "all_succeed env" "distinct (map mt_dir (gs_mounts s))"
  shows "sys_umount env d s = s\<lparr>gs_mounts := filter (\<lambda>m. mt_dir m \<noteq> d) (gs_mounts s)\<rparr>"
proof -
  have "drop_first (\<lambda>m. mt_dir m = d) (rev (gs_mounts s)) = filter (\<lambda>m. mt_dir m \<noteq> d) (rev (gs_mounts s))"
    using assms(2) by (intro drop_first_unique) (simp add: rev_map [symmetric])
  with assms(1) show ?thesis by (simp add: sys_umount_def all_succeed_def rev_filter [symmetric])
qed

lemma umount_all:
  assumes "all_succeed env" "distinct (map mt_dir (gs_mounts s))"
  shows "fold (\<lambda>m. sys_umount env (mt_dir m)) ms s =
    s\<lparr>gs_mounts := filter (\<lambda>m. mt_dir m \<notin> set (map mt_dir ms)) (gs_mounts s)\<rparr>"
  using assms(2)
proof (induction ms arbitrary: s)
  case (Cons m ms)
  have "distinct (map mt_dir (filter (\<lambda>k. mt_dir k \<noteq> mt_dir m) (gs_mounts s)))"
    using Cons.prems by (simp add: distinct_map_filter)
  with Cons.IH show ?case
    by (simp add: umount_unique [OF assms(1) Cons.prems] conj_commute)
qed simp

lemma remount_all:
  assumes "all_succeed env" "list_all (\<lambda>m. mt_type m = ''gadgetfs'') ms"
  shows "fold (remount env) ms s =
    s\<lparr>gs_mounts := gs_mounts s @ filter (\<lambda>m. mt_fsname m \<noteq> ''USBProxy'') ms\<rparr>"
  using assms(2)
proof (induction ms arbitrary: s)
  case (Cons m ms)
  then have "\<lparr>mt_fsname = mt_fsname m, mt_dir = mt_dir m, mt_type = ''gadgetfs''\<rparr> = m"
    by (cases m) simp
  with Cons assms(1) show ?case by (simp add: remount_def sys_mount_def all_succeed_def)
qed simp

text \<open>The directories that are left.\<close>

definition busy :: "gadget_system \<Rightarrow> string \<Rightarrow> bool" where
  "busy s name \<longleftrightarrow> ''/tmp/'' @ name \<in> set (map mt_dir (gs_mounts s))"

lemma rmdirs_all:
  assumes "all_succeed env" "list_all gadget_name names" "distinct (gs_tmp s)"
  shows "rmdirs env names s =
    Inr (s\<lparr>gs_tmp := filter (\<lambda>n. n \<in> set names \<longrightarrow> busy s n) (gs_tmp s)\<rparr>)"
  using assms(2,3)
proof (induction names arbitrary: s)
  case (Cons n names)
  let ?s = "sys_rmdir_tmp env n s"
  have s: "gs_tmp ?s = filter (\<lambda>k. k = n \<longrightarrow> busy s k) (gs_tmp s)" "?s\<lparr>gs_tmp := t\<rparr> = s\<lparr>gs_tmp := t\<rparr>"
    "busy ?s k = busy s k" "distinct (gs_tmp ?s)" for t k
    using assms(1) Cons.prems
    by (auto simp: sys_rmdir_tmp_def busy_def all_succeed_def distinct_remove1_removeAll
        removeAll_filter_not_eq intro!: filter_cong)
  show ?case
    using Cons.IH [OF _ s(4)] Cons.prems
    by (auto simp: s gadget_name_def intro!: arg_cong [where f = "\<lambda>t. s\<lparr>gs_tmp := t\<rparr>"] filter_cong)
qed simp

section \<open>Properties\<close>

text \<open>C40: when the calls succeed, mounting leaves exactly one file system of the program mounted, in the new
  directory, whatever earlier runs left behind; those of other programs are mounted as before (behind
  all others), and the directories of earlier runs are removed unless something else is mounted on them.
  Unmounting undoes the rest: the mounts of the others and their directories stay.\<close>

theorem mount_leaves_one:
  assumes "all_succeed env" "ge_suffix env = Some x"
    and "distinct (map mt_dir (gs_mounts s))" "distinct (gs_tmp s)"
    and "''gadget-'' @ x \<notin> set (gs_tmp s)" "''/tmp/gadget-'' @ x \<notin> set (map mt_dir (gs_mounts s))"
  shows "\<exists>s1 others dirs. mount_gadget env s = Inr (0, s1) \<and>
    others = filter (\<lambda>m. mt_type m \<noteq> ''gadgetfs'') (gs_mounts s)
      @ filter (\<lambda>m. mt_type m = ''gadgetfs'' \<and> mt_fsname m \<noteq> ''USBProxy'') (gs_mounts s) \<and>
    dirs = filter (\<lambda>n. gadget_name n \<longrightarrow> ''/tmp/'' @ n \<in> set (map mt_dir others)) (gs_tmp s) \<and>
    gs_mounts s1 = others @ [\<lparr>mt_fsname = ''USBProxy'', mt_dir = ''/tmp/gadget-'' @ x, mt_type = ''gadgetfs''\<rparr>] \<and>
    gs_tmp s1 = dirs @ [''gadget-'' @ x] \<and> gs_path s1 = Some (''/tmp/gadget-'' @ x) \<and>
    unmount_gadget env s1 = (0, \<lparr>gs_mounts = others, gs_tmp = dirs, gs_path = None\<rparr>)"
proof -
  define old where "old = filter (\<lambda>m. mt_type m = ''gadgetfs'') (gs_mounts s)"
  define kept where "kept = filter (\<lambda>m. mt_type m \<noteq> ''gadgetfs'') (gs_mounts s)"
  define others where "others = kept @ filter (\<lambda>m. mt_fsname m \<noteq> ''USBProxy'') old"
  define dirs where "dirs = filter (\<lambda>n. gadget_name n \<longrightarrow> ''/tmp/'' @ n \<in> set (map mt_dir others)) (gs_tmp s)"
  let ?path = "''/tmp/gadget-'' @ x"
  let ?new = "\<lparr>mt_fsname = ''USBProxy'', mt_dir = ?path, mt_type = ''gadgetfs''\<rparr>"
  have "mt_dir m \<notin> set (map mt_dir old) \<longleftrightarrow> mt_type m \<noteq> ''gadgetfs''" if "m \<in> set (gs_mounts s)" for m
    using that assms(3) by (auto simp: old_def distinct_map inj_on_def)
  then have "filter (\<lambda>m. mt_dir m \<notin> set (map mt_dir old)) (gs_mounts s) = kept"
    unfolding kept_def by (rule filter_cong [OF refl])
  then have s2: "fold (remount env) old (fold (\<lambda>m. sys_umount env (mt_dir m)) old s) = s\<lparr>gs_mounts := others\<rparr>"
    using remount_all [OF assms(1), of old] umount_all [OF assms(1,3), of old]
    by (simp add: others_def old_def list_all_iff)
  have "rmdirs env (filter gadget_name (gs_tmp s)) (s\<lparr>gs_mounts := others\<rparr>) =
      Inr (s\<lparr>gs_mounts := others, gs_tmp := dirs\<rparr>)"
    using rmdirs_all [OF assms(1), of "filter gadget_name (gs_tmp s)" "s\<lparr>gs_mounts := others\<rparr>"] assms(4)
    by (auto simp: list_all_iff dirs_def busy_def intro!: arg_cong [where f = "\<lambda>t. s\<lparr>gs_mounts := others, gs_tmp := t\<rparr>"]
        filter_cong)
  then have clean: "clean_tmp env (s\<lparr>gs_mounts := others\<rparr>) = Inr (s\<lparr>gs_mounts := others, gs_tmp := dirs\<rparr>)"
    using assms(1) by (simp add: clean_tmp_def all_succeed_def)
  let ?s1 = "\<lparr>gs_mounts = others @ [?new], gs_tmp = dirs @ [''gadget-'' @ x], gs_path = Some ?path\<rparr>"
  have "mount_gadget env s = Inr (0, s\<lparr>gs_path := Some ?path, gs_tmp := dirs @ [''gadget-'' @ x],
      gs_mounts := others @ [?new]\<rparr>)"
    using assms(1,2)
    by (simp add: mount_gadget_def Let_def old_def [symmetric] s2 clean sys_mount_def all_succeed_def)
  then have mount: "mount_gadget env s = Inr (0, ?s1)" by (cases s) simp
  have fresh: "?path \<notin> mt_dir ` set others" "''gadget-'' @ x \<notin> set dirs"
    using assms(5,6) by (auto simp: others_def kept_def old_def dirs_def)
  have "sys_umount env ?path ?s1 = ?s1\<lparr>gs_mounts := others\<rparr>"
    using assms(1) by (simp add: sys_umount_def all_succeed_def)
  then have "unmount_gadget env ?s1 = (0, \<lparr>gs_mounts = others, gs_tmp = dirs, gs_path = None\<rparr>)"
    using assms(1) fresh
    by (simp add: unmount_gadget_def sys_rmdir_tmp_def all_succeed_def remove1_append)
  with mount show ?thesis
    by (intro exI [of _ ?s1] exI [of _ others] exI [of _ dirs])
      (simp add: others_def kept_def old_def dirs_def)
qed

definition sample_gadget_env :: gadget_env where
  "sample_gadget_env =
     \<lparr>ge_umount = (\<lambda>_. True), ge_mount = (\<lambda>_ _. True), ge_rmdir = (\<lambda>_. True), ge_opendir_tmp = True,
      ge_suffix = Some ''abcdef'', ge_entries = (\<lambda>_. Some [''.'', ''dummy_udc'']), ge_open = (\<lambda>_. 7)\<rparr>"

text \<open>A run after one that ended without unmounting.\<close>

definition stale_system :: gadget_system where
  "stale_system =
     \<lparr>gs_mounts = [\<lparr>mt_fsname = ''proc'', mt_dir = ''/proc'', mt_type = ''proc''\<rparr>,
        \<lparr>mt_fsname = ''USBProxy'', mt_dir = ''/tmp/gadget-UVWXYZ'', mt_type = ''gadgetfs''\<rparr>],
      gs_tmp = [''gadget-UVWXYZ'', ''x''], gs_path = None\<rparr>"

theorem mount_leaves_one_witness:
  "\<exists>s1. mount_gadget sample_gadget_env stale_system = Inr (0, s1) \<and>
    gs_mounts s1 = [\<lparr>mt_fsname = ''proc'', mt_dir = ''/proc'', mt_type = ''proc''\<rparr>,
      \<lparr>mt_fsname = ''USBProxy'', mt_dir = ''/tmp/gadget-abcdef'', mt_type = ''gadgetfs''\<rparr>] \<and>
    gs_tmp s1 = [''x'', ''gadget-abcdef'']"
proof -
  have "all_succeed sample_gadget_env" "ge_suffix sample_gadget_env = Some ''abcdef''"
    by (simp_all add: all_succeed_def sample_gadget_env_def)
  from mount_leaves_one [OF this, of stale_system] show ?thesis
    by (auto simp: stale_system_def gadget_name_def)
qed

text \<open>The path of the device file is never cut, and the file that is opened is that of a known
  controller.\<close>

lemma device_file_opened:
  assumes "gs_path s = Some (''/tmp/gadget-'' @ x)" "length x = 6"
    and "find_gadget_filename env s = Inr (Some name, s')"
  shows "s' = s \<and> name \<in> set gadget_devices \<and>
    open_gadget env s' (Some name) = Inr (ge_open env (''/tmp/gadget-'' @ x @ ''/'' @ name))"
proof -
  from assms have s: "s' = s" and name: "name \<in> set gadget_devices"
    by (auto simp: find_gadget_filename_def find_Some_iff split: option.splits)
  have "list_all (\<lambda>n. length n \<le> 14) gadget_devices" by code_simp
  with name have "length name \<le> 14" by (simp add: list_all_iff)
  with assms(1,2) s name show ?thesis by (simp add: open_gadget_def)
qed

text \<open>When no directory could be made, looking for the device file follows a NULL path.\<close>

lemma no_directory_no_path:
  assumes "gs_path s = None" "mount_gadget env s = Inr (rc, s1)" "ge_suffix env = None"
  shows "find_gadget_filename env s = Inl NullDeref"
proof -
  from assms(2,3) have "gs_path s1 = None"
    by (auto simp: mount_gadget_def and_then_eq_Inr Let_def)
  with assms(1,2) show ?thesis by (simp add: find_gadget_filename_def)
qed

end
