(* ===== verification/Tcp_Proxies.thy ===== *)
theory Tcp_Proxies
  imports Tcp_Model Config_Parser
begin

text \<open>
  The objects of the two TCP proxies (\<open>DeviceProxy_TCP.cpp\<close> and \<open>HostProxy_TCP.cpp\<close> under
  \<open>src/Plugins\<close>) around their \<open>TCP_Helper\<close>, and the two together: what is written on one side is read
  on the other from a stream of bytes for each endpoint. The device's side is the server, since it gives
  its helper no address; the host's side is the client.
\<close>

section \<open>Objects\<close>

text \<open>\<open>tp_network\<close> is \<open>None\<close> when the pointer has no value.\<close>

record tcp_proxy =
  tp_is_connected :: bool
  tp_network :: "tcp_helper option"

definition device_tcp_new :: tcp_proxy where
  "device_tcp_new = \<lparr>tp_is_connected = False, tp_network = Some (new_tcp_helper False)\<rparr>"

text \<open>The constructor that takes an address assigns only the flag.\<close>

definition device_tcp_with_address :: tcp_proxy where
  "device_tcp_with_address = \<lparr>tp_is_connected = False, tp_network = None\<rparr>"

text \<open>The proxy, and the address to which its helper connects.\<close>

definition host_tcp_new :: "'p config_parser \<Rightarrow> string \<times> tcp_proxy" where
  "host_tcp_new cfg =
     (cp_get ''HostProxy_TCP::TCPAddress'' cfg,
      \<lparr>tp_is_connected = False, tp_network = Some (new_tcp_helper True)\<rparr>)"

definition the_network :: "tcp_proxy \<Rightarrow> tcp_helper res" where
  "the_network px = (case tp_network px of None \<Rightarrow> Inl Uninit | Some tc \<Rightarrow> Inr tc)"

definition proxy_connect :: "net_env \<Rightarrow> tcp_proxy \<Rightarrow> (int \<times> tcp_proxy) res" where
  "proxy_connect env px =
     and_then (the_network px) (\<lambda>tc. and_then (tcp_connect env tc) (\<lambda>(rc, tc1).
       Inr (rc, \<lparr>tp_is_connected = (rc = 0), tp_network = Some tc1\<rparr>)))"

definition proxy_disconnect :: "tcp_proxy \<Rightarrow> tcp_proxy" where
  "proxy_disconnect px = px\<lparr>tp_is_connected := False\<rparr>"

text \<open>The destructor of the helper looks at \<open>p_address\<close>, to which a server has given no value.\<close>

definition delete_tcp_helper :: "tcp_helper \<Rightarrow> tcp_helper res" where
  "delete_tcp_helper tc = (let tc1 = tcp_disconnect tc in if tc_server tc1 then Inl Uninit else Inr tc1)"

definition delete_tcp_proxy :: "tcp_proxy \<Rightarrow> tcp_proxy res" where
  "delete_tcp_proxy px =
     and_then (the_network px) (\<lambda>tc. and_then (delete_tcp_helper tc) (\<lambda>_. Inr (px\<lparr>tp_network := None\<rparr>)))"

section \<open>Streams\<close>

text \<open>For each file descriptor the bytes that have arrived and have not been read. \<open>peer\<close> is the
  descriptor at the other end; \<open>accepted\<close> is how many bytes \<open>write\<close> takes (the client's sockets do not
  block), whose result is ignored. A \<open>read\<close> takes what is there, up to the size of the block.\<close>

type_synonym wire = "int \<Rightarrow> bytes"

definition tcp_send_data ::
  "(int \<Rightarrow> int) \<Rightarrow> nat \<Rightarrow> tcp_helper \<Rightarrow> u8 \<Rightarrow> bytes \<Rightarrow> wire \<Rightarrow> wire res" where
  "tcp_send_data peer accepted tc ep bs w =
     and_then (index (tc_socket tc) (endpoint_port ep)) (\<lambda>fd.
       Inr (w(peer fd := w (peer fd) @ take accepted bs)))"

definition wait_readable :: "tcp_helper \<Rightarrow> u8 \<Rightarrow> wire \<Rightarrow> (read_result \<times> wire) res" where
  "wait_readable tc ep w =
     and_then (index (tc_socket tc) (endpoint_port ep)) (\<lambda>fd.
       Inr (if w fd = [] then (NotReady, w)
            else (Readable (w fd), w(fd := drop TCP_BUFFER_SIZE (w fd)))))"

text \<open>The operations of both proxies on the endpoints other than 0.\<close>

definition proxy_send_data ::
  "(int \<Rightarrow> int) \<Rightarrow> nat \<Rightarrow> tcp_proxy \<Rightarrow> u8 \<Rightarrow> bytes \<Rightarrow> wire \<Rightarrow> wire res" where
  "proxy_send_data peer accepted px ep bs w =
     and_then (the_network px) (\<lambda>tc. tcp_send_data peer accepted tc ep bs w)"

definition proxy_receive_data ::
  "tcp_proxy \<Rightarrow> u8 \<Rightarrow> bytes option \<times> int \<Rightarrow> wire \<Rightarrow> ((bytes option \<times> int) \<times> wire) res" where
  "proxy_receive_data px ep old w =
     and_then (the_network px) (\<lambda>tc. and_then (wait_readable tc ep w) (\<lambda>(r, w1).
       Inr (tcp_receive_data r old, w1)))"

text \<open>Packets that are sent one after the other, each whole; and what a reader gets which receives until
  nothing is left.\<close>

fun send_packets ::
  "(int \<Rightarrow> int) \<Rightarrow> tcp_proxy \<Rightarrow> (u8 \<times> bytes) list \<Rightarrow> wire \<Rightarrow> wire res" where
  "send_packets peer px [] w = Inr w"
| "send_packets peer px ((ep, bs) # ps) w =
     and_then (proxy_send_data peer (length bs) px ep bs w) (send_packets peer px ps)"

fun receive_packets :: "nat \<Rightarrow> tcp_proxy \<Rightarrow> u8 \<Rightarrow> wire \<Rightarrow> (bytes list \<times> wire) res" where
  "receive_packets 0 px ep w = Inl OutOfFuel"
| "receive_packets (Suc fuel) px ep w =
     and_then (proxy_receive_data px ep (None, 0) w) (\<lambda>((dat, len), w1).
       case dat of None \<Rightarrow> Inr ([], w1)
       | Some b \<Rightarrow> and_then (receive_packets fuel px ep w1) (\<lambda>(bs, w2). Inr (b # bs, w2)))"

section \<open>Lemmas\<close>

text \<open>Two helpers whose connections lead to each other.\<close>

definition linked :: "(int \<Rightarrow> int) \<Rightarrow> tcp_helper \<Rightarrow> tcp_helper \<Rightarrow> bool" where
  "linked peer a b \<longleftrightarrow> length (tc_socket a) = 32 \<and> length (tc_socket b) = 32 \<and>
     map peer (tc_socket a) = tc_socket b \<and> distinct (tc_socket b)"

definition usb_address :: "u8 \<Rightarrow> bool" where
  "usb_address ep \<longleftrightarrow> ep AND 0x70 = 0"

definition sent_to :: "u8 \<Rightarrow> (u8 \<times> bytes) list \<Rightarrow> bytes" where
  "sent_to ep ps = concat (map snd (filter (\<lambda>p. fst p = ep) ps))"

lemma usb_ports:
  assumes "usb_address ep"
  shows "endpoint_port ep < 32" "usb_address ep' \<Longrightarrow> endpoint_port ep = endpoint_port ep' \<longleftrightarrow> ep = ep'"
  using endpoint_ports_bijective assms by (auto simp: usb_address_def bij_betw_def inj_on_def)

lemma send_packets_streams:
  assumes "linked peer a b" "tp_network px = Some a" "list_all (\<lambda>p. usb_address (fst p)) ps"
  shows "\<exists>w'. send_packets peer px ps w = Inr w' \<and>
    (\<forall>ep. usb_address ep \<longrightarrow>
       w' (tc_socket b ! endpoint_port ep) = w (tc_socket b ! endpoint_port ep) @ sent_to ep ps)"
  using assms(3)
proof (induction ps arbitrary: w)
  case (Cons p ps)
  obtain ep bs where p: "p = (ep, bs)" by (cases p)
  let ?fd = "\<lambda>ep. tc_socket b ! endpoint_port ep"
  have ep: "usb_address ep" using Cons.prems by (simp add: p)
  have len: "endpoint_port ep < length (tc_socket a)" "endpoint_port ep < length (tc_socket b)"
    using assms(1) usb_ports(1) [OF ep] by (simp_all add: linked_def)
  have peer: "peer (tc_socket a ! endpoint_port ep) = ?fd ep"
    using assms(1) len(1) unfolding linked_def by (metis nth_map)
  let ?w = "w(?fd ep := w (?fd ep) @ bs)"
  have step: "proxy_send_data peer (length bs) px ep bs w = Inr ?w"
    using assms(2) len by (simp add: proxy_send_data_def the_network_def tcp_send_data_def peer)
  have other: "?fd ep' = ?fd ep \<longleftrightarrow> ep' = ep" if "usb_address ep'" for ep'
    using assms(1) usb_ports [OF that] usb_ports [OF ep] ep
    by (auto simp: linked_def nth_eq_iff_index_eq)
  obtain w' where w': "send_packets peer px ps ?w = Inr w'"
    "\<And>ep'. usb_address ep' \<Longrightarrow> w' (?fd ep') = ?w (?fd ep') @ sent_to ep' ps"
    using Cons.IH [of ?w] Cons.prems by (auto simp del: fun_upd_apply)
  have "w' (?fd ep') = w (?fd ep') @ sent_to ep' (p # ps)" if "usb_address ep'" for ep'
    using w'(2) [OF that] other [OF that] by (simp add: p sent_to_def)
  with w'(1) show ?case by (simp add: p step)
qed (simp add: sent_to_def)

lemma receive_packets_stream:
  assumes "tp_network px = Some b" "endpoint_port ep < length (tc_socket b)"
    and "length (w (tc_socket b ! endpoint_port ep)) < fuel"
  shows "\<exists>bs w'. receive_packets fuel px ep w = Inr (bs, w') \<and>
    concat bs = w (tc_socket b ! endpoint_port ep) \<and> w' = w(tc_socket b ! endpoint_port ep := []) \<and>
    list_all (\<lambda>x. 0 < length x \<and> length x \<le> TCP_BUFFER_SIZE) bs \<and>
    (w (tc_socket b ! endpoint_port ep) \<noteq> [] \<longrightarrow>
       hd bs = take TCP_BUFFER_SIZE (w (tc_socket b ! endpoint_port ep)))"
  using assms(3)
proof (induction fuel arbitrary: w)
  case (Suc fuel)
  let ?fd = "tc_socket b ! endpoint_port ep"
  have n: "TCP_BUFFER_SIZE = Suc 1455" by (simp add: TCP_BUFFER_SIZE_def)
  show ?case
  proof (cases "w ?fd = []")
    case True
    with assms(1,2) have "receive_packets (Suc fuel) px ep w = Inr ([], w)"
      by (simp add: proxy_receive_data_def the_network_def wait_readable_def tcp_receive_data_def)
    with True show ?thesis by auto
  next
    case False
    let ?w = "w(?fd := drop TCP_BUFFER_SIZE (w ?fd))"
    have step: "proxy_receive_data px ep (None, 0) w =
        Inr ((Some (take TCP_BUFFER_SIZE (w ?fd)), int (length (take TCP_BUFFER_SIZE (w ?fd)))), ?w)"
      using assms(1,2) False
      by (simp add: proxy_receive_data_def the_network_def wait_readable_def tcp_receive_data_def Let_def n)
    have "length (?w ?fd) < fuel" using Suc.prems False by (simp add: n, cases "w ?fd", simp_all)
    from Suc.IH [of ?w] this obtain bs where rest: "receive_packets fuel px ep ?w = Inr (bs, ?w(?fd := []))"
      "concat bs = drop TCP_BUFFER_SIZE (w ?fd)"
      "list_all (\<lambda>x. 0 < length x \<and> length x \<le> TCP_BUFFER_SIZE) bs"
      unfolding fun_upd_same by blast
    have "receive_packets (Suc fuel) px ep w = Inr (take TCP_BUFFER_SIZE (w ?fd) # bs, w(?fd := []))"
      using rest(1) by (simp add: step del: fun_upd_apply)
    with rest(2,3) False show ?thesis by (simp add: n del: receive_packets.simps fun_upd_apply)
  qed
qed simp

section \<open>Properties\<close>


text \<open>Two helpers of 32 connections.\<close>

definition sample_pair :: "tcp_helper \<times> tcp_helper" where
  "sample_pair =
     ((new_tcp_helper True)\<lparr>tc_socket := map int [5..<37]\<rparr>,
      (new_tcp_helper False)\<lparr>tc_socket := map int [45..<77]\<rparr>)"


text \<open>After \<open>disconnect\<close>, which only clears the flag, connecting again succeeds at once on the host's side,
  over the old connection; the device's side waits for a new one, which does not come.\<close>

lemma host_reconnects_at_once:
  assumes "proxy_connect env (snd (host_tcp_new cfg)) = Inr (0, px)" "ne_socket env \<noteq> 0"
  shows "proxy_connect env' (proxy_disconnect px) = Inr (0, px)"
proof -
  obtain tc where tc: "tcp_connect env (new_tcp_helper True) = Inr (0, tc)"
    and px: "px = \<lparr>tp_is_connected = True, tp_network = Some tc\<rparr>"
    using assms(1) by (auto simp: proxy_connect_def host_tcp_new_def the_network_def and_then_eq_Inr)
  from tc obtain tc1 where c: "client_connect env 0 (new_tcp_helper True) = Inr (0, tc1)"
    and tc1: "tc = tc1\<lparr>tc_is_connected := True, tc_buf := (tc_buf tc1)[0 := True]\<rparr>"
    by (auto simp: tcp_connect_def new_tcp_helper_def and_then_eq_Inr)
  have zero: "tc_connect (new_tcp_helper True) ! 0 = False" "tc_socket (new_tcp_helper True) ! 0 = 0"
    "length (tc_connect (new_tcp_helper True)) = 32" "length (tc_socket (new_tcp_helper True)) = 32"
    "\<not> tc_server (new_tcp_helper True)"
    by (simp_all add: new_tcp_helper_def)
  from c zero assms(2) have s: "tc_connect tc1 ! 0" "tc_socket tc1 ! 0 \<noteq> 0" "\<not> tc_server tc1"
    "length (tc_connect tc1) = 32" "length (tc_socket tc1) = 32"
    by (auto simp: client_connect_def await_connect_def ETIMEDOUT_def split: if_splits connect_result.splits option.splits)
  then have "client_connect env' 0 tc = Inr (0, tc)" "\<not> tc_server tc" "tc_is_connected tc"
    "(tc_buf tc)[0 := True] = tc_buf tc"
    by (simp_all add: tc1 client_connect_def)
  then have "tcp_connect env' tc = Inr (0, tc)" by (simp add: tcp_connect_def)
  then show ?thesis by (simp add: px proxy_disconnect_def proxy_connect_def the_network_def)
qed

lemma device_waits_for_new_connection:
  assumes "proxy_connect env device_tcp_new = Inr (0, px)" "ne_poll env' \<noteq> Some POLLIN"
  shows "\<exists>px'. proxy_connect env' (proxy_disconnect px) = Inr (ETIMEDOUT, px') \<and> \<not> tp_is_connected px'"
proof -
  obtain tc where tc: "tcp_connect env (new_tcp_helper False) = Inr (0, tc)"
    and px: "px = \<lparr>tp_is_connected = True, tp_network = Some tc\<rparr>"
    using assms(1) by (auto simp: proxy_connect_def device_tcp_new_def the_network_def and_then_eq_Inr)
  from tc have s: "tc_server tc" "length (tc_listener tc) = 32" "tc_listener tc ! 0 \<noteq> 0"
    by (auto simp: tcp_connect_def new_tcp_helper_def server_listen_def server_connect_def and_then_eq_Inr
        ETIMEDOUT_def split: if_splits)
  with assms(2) show ?thesis
    by (simp add: px proxy_disconnect_def proxy_connect_def the_network_def tcp_connect_def server_listen_def
        server_connect_def ETIMEDOUT_def)
qed

text \<open>The end of the device's proxy looks at a pointer without a value.\<close>

lemma delete_device_tcp:
  assumes "proxy_connect env device_tcp_new = Inr (rc, px)"
  shows "delete_tcp_proxy px = Inl Uninit"
  using assms
  by (auto simp: proxy_connect_def device_tcp_new_def the_network_def and_then_eq_Inr tcp_connect_def
      new_tcp_helper_def server_listen_def server_connect_def delete_tcp_proxy_def delete_tcp_helper_def
      tcp_disconnect_def split: if_splits)

end
