(* ===== verification/Storage_Diff.thy ===== *)
theory Storage_Diff
  imports Mass_Storage Log_Filters
begin

text \<open>
  The comparison of a block with the one that is cached, which the mass storage filter prints
  (\<open>print_block_diff\<close> in \<open>PacketFilter_MassStorage.cpp\<close>). The result is the text; a byte that differs is
  red on the old side and blue on the new one.
\<close>

section \<open>Code\<close>

definition STORAGE_RED :: nat where "STORAGE_RED = 31"
definition STORAGE_BLUE :: nat where "STORAGE_BLUE = 34"

text \<open>\<open>fmt_colour\<close> and \<open>fmt_colour_chr\<close>: the escape sequence, the text and the end of the colour.\<close>

definition coloured :: "nat \<Rightarrow> bytes \<Rightarrow> bytes" where
  "coloured c t = [0x1B] @ ascii ''[0;'' @ decimal c @ ascii ''m'' @ t @ [0x1B] @ ascii ''[0m''"

definition printable :: "u8 \<Rightarrow> u8" where
  "printable x = (if 0x20 \<le> x \<and> x < 0x7f then x else of_char CHR ''.'')"

text \<open>One column of a line: 16 bytes, a blank after every second one. \<open>diff\<close> says which of them are
  coloured.\<close>

definition diff_column :: "nat \<Rightarrow> (u8 \<Rightarrow> bytes) \<Rightarrow> (nat \<Rightarrow> bool) \<Rightarrow> bytes \<Rightarrow> bytes" where
  "diff_column c show_byte diff bs =
     concat (map (\<lambda>(j, b). (if diff j then coloured c (show_byte b) else show_byte b)
         @ (if j mod 2 = 1 then ascii '' '' else []))
       (enumerate 0 bs))"

definition diff_line :: "bytes option \<Rightarrow> bytes \<Rightarrow> bytes" where
  "diff_line olddata newdata =
     (case olddata of
        None \<Rightarrow>
          diff_column STORAGE_BLUE hex2 (\<lambda>_. True) newdata
          @ diff_column STORAGE_BLUE (\<lambda>b. [printable b]) (\<lambda>_. True) newdata
      | Some old \<Rightarrow>
          (let diff = (\<lambda>j. old ! j \<noteq> newdata ! j) in
           diff_column STORAGE_RED hex2 diff old @ ascii ''| ''
           @ diff_column STORAGE_BLUE hex2 diff newdata
           @ diff_column STORAGE_RED (\<lambda>b. [printable b]) diff old @ ascii ''| ''
           @ diff_column STORAGE_BLUE (\<lambda>b. [printable b]) diff newdata))
     @ [0x0A]"

fun diff_lines :: "nat \<Rightarrow> bytes option \<Rightarrow> bytes \<Rightarrow> bytes" where
  "diff_lines 0 olddata newdata = []"
| "diff_lines (Suc n) olddata newdata =
     diff_line (map_option (take 16) olddata) (take 16 newdata)
     @ diff_lines n (map_option (drop 16) olddata) (drop 16 newdata)"

text \<open>Both blocks are read as 512 bytes.\<close>

definition print_block_diff :: "bytes option \<Rightarrow> bytes \<Rightarrow> bytes res" where
  "print_block_diff olddata newdata =
     and_then (first_n newdata BLOCK_SIZE) (\<lambda>new.
       and_then (case olddata of None \<Rightarrow> Inr None
                 | Some old \<Rightarrow> and_then (first_n old BLOCK_SIZE) (\<lambda>old. Inr (Some old))) (\<lambda>old.
         Inr (diff_lines (BLOCK_SIZE div 16) old new)))"

section \<open>Lemmas\<close>

text \<open>The listing has colours exactly where the blocks differ.\<close>

lemma plain_bytes:
  "0x1B \<notin> set (hex2 b)" "printable b \<noteq> 0x1B" "0x1B \<notin> set (ascii ''| '')" "0x1B \<notin> set (ascii '' '')"
proof -
  have "list_all (\<lambda>n. 0x1B \<notin> set (hex2 (of_nat n))) [0..<256]" by code_simp
  then have "\<And>n. n < 256 \<Longrightarrow> 0x1B \<notin> set (hex2 (of_nat n))" by (simp add: list_all_iff)
  from this [OF unat_u8_less [of b]] show "0x1B \<notin> set (hex2 b)" by simp
  show "printable b \<noteq> 0x1B" by (auto simp: printable_def word_le_nat_alt)
  show "0x1B \<notin> set (ascii ''| '')" "0x1B \<notin> set (ascii '' '')" by code_simp+
qed

lemma column_coloured:
  assumes "\<And>b. 0x1B \<notin> set (show_byte b)"
  shows "0x1B \<in> set (diff_column c show_byte diff bs) \<longleftrightarrow> (\<exists>j<length bs. diff j)"
proof -
  define F where "F = (\<lambda>(j, b). (if diff j then coloured c (show_byte b) else show_byte b)
      @ (if j mod 2 = 1 then ascii '' '' else []))"
  have F: "0x1B \<in> set (F (j, b)) \<longleftrightarrow> diff j" for j b
    using assms [of b] plain_bytes(4) by (simp add: F_def coloured_def)
  have "0x1B \<in> set (concat (map F (enumerate i bs))) \<longleftrightarrow> (\<exists>j<length bs. diff (i + j))" for i
  proof (induction bs arbitrary: i)
    case (Cons b bs)
    have "0x1B \<in> set (concat (map F (enumerate i (b # bs)))) \<longleftrightarrow>
        diff i \<or> 0x1B \<in> set (concat (map F (enumerate (Suc i) bs)))"
      by (simp add: F)
    then show ?case unfolding Cons.IH by (auto simp: less_Suc_eq_0_disj)
  qed simp
  from this [of 0] show ?thesis by (simp add: diff_column_def F_def)
qed

lemma line_coloured:
  assumes "length old = length new"
  shows "0x1B \<in> set (diff_line (Some old) new) \<longleftrightarrow> old \<noteq> new"
proof -
  have "0x1B \<in> set (diff_line (Some old) new) \<longleftrightarrow> (\<exists>j<length new. old ! j \<noteq> new ! j)"
    using column_coloured [of hex2, OF plain_bytes(1)]
      column_coloured [of "\<lambda>b. [printable b]"] plain_bytes(2) [THEN not_sym] plain_bytes(3) assms
    by (simp add: diff_line_def Let_def)
  then show ?thesis using assms by (auto simp: list_eq_iff_nth_eq)
qed

lemma lines_coloured:
  "length old = 16 * n \<Longrightarrow> length new = 16 * n \<Longrightarrow>
   0x1B \<in> set (diff_lines n (Some old) new) \<longleftrightarrow> old \<noteq> new"
proof (induction n arbitrary: old new)
  case (Suc n)
  have "old \<noteq> new \<longleftrightarrow> take 16 old \<noteq> take 16 new \<or> drop 16 old \<noteq> drop 16 new"
    by (metis append_take_drop_id)
  moreover have "0x1B \<in> set (diff_line (Some (take 16 old)) (take 16 new)) \<longleftrightarrow> take 16 old \<noteq> take 16 new"
    using Suc.prems by (intro line_coloured) simp
  ultimately show ?case using Suc.IH [of "drop 16 old" "drop 16 new"] Suc.prems by simp
qed simp

lemma diff_marks_changes:
  assumes "length old = BLOCK_SIZE" "length new = BLOCK_SIZE"
  shows "\<exists>t. print_block_diff (Some old) new = Inr t \<and> (0x1B \<in> set t \<longleftrightarrow> old \<noteq> new)"
  using assms lines_coloured [of old 32 new] by (simp add: print_block_diff_def BLOCK_SIZE_def)

end
