(* ===== verification/Relay_Objects.thy ===== *)
theory Relay_Objects
  imports Relay Filters
begin

text \<open>
  The objects of the relay threads (\<open>RelayReader.cpp\<close>, \<open>RelayWriter.cpp\<close>): what their constructors assign
  and which of the two loops each object runs. A reader and a writer of endpoint 0 have a proxy of their
  side and both queues; those of a data endpoint have a proxy and one queue. \<open>'q\<close> are queues.
\<close>

record 'q relay_reader =
  rr_please_stop :: bool
  rr_sendQueue :: "'q option"
  rr_recvQueue :: "'q option"
  rr_has_proxy :: bool
  rr_has_hostProxy :: bool
  rr_endpoint :: u8
  rr_attributes :: u8
  rr_maxPacketSize :: u16

record ('q, 's) relay_writer =
  rw_please_stop :: bool
  rw_recvQueue :: "'q option"
  rw_sendQueue :: "'q option"
  rw_endpoint :: u8
  rw_attributes :: u8
  rw_maxPacketSize :: u16
  rw_has_proxy :: bool
  rw_has_deviceProxy :: bool
  rw_has_manager :: bool
  rw_filters :: "'s pfilter list"

section \<open>Constructors\<close>

definition new_data_reader :: "endpoint_descriptor \<Rightarrow> bool \<Rightarrow> 'q \<Rightarrow> 'q relay_reader" where
  "new_data_reader e has_proxy sendQueue =
     \<lparr>rr_please_stop = False, rr_sendQueue = Some sendQueue, rr_recvQueue = None, rr_has_proxy = has_proxy,
      rr_has_hostProxy = False, rr_endpoint = ep_bEndpointAddress e, rr_attributes = ep_bmAttributes e,
      rr_maxPacketSize = ep_wMaxPacketSize e\<rparr>"

definition new_setup_reader :: "endpoint_descriptor \<Rightarrow> bool \<Rightarrow> 'q \<Rightarrow> 'q \<Rightarrow> 'q relay_reader" where
  "new_setup_reader e has_hostProxy sendQueue recvQueue =
     \<lparr>rr_please_stop = False, rr_sendQueue = Some sendQueue, rr_recvQueue = Some recvQueue,
      rr_has_proxy = False, rr_has_hostProxy = has_hostProxy, rr_endpoint = ep_bEndpointAddress e,
      rr_attributes = ep_bmAttributes e, rr_maxPacketSize = ep_wMaxPacketSize e\<rparr>"

definition new_data_writer :: "endpoint_descriptor \<Rightarrow> bool \<Rightarrow> 'q \<Rightarrow> ('q, 's) relay_writer" where
  "new_data_writer e has_proxy recvQueue =
     \<lparr>rw_please_stop = False, rw_recvQueue = Some recvQueue, rw_sendQueue = None,
      rw_endpoint = ep_bEndpointAddress e, rw_attributes = ep_bmAttributes e,
      rw_maxPacketSize = ep_wMaxPacketSize e, rw_has_proxy = has_proxy, rw_has_deviceProxy = False,
      rw_has_manager = False, rw_filters = []\<rparr>"

definition new_setup_writer ::
  "endpoint_descriptor \<Rightarrow> bool \<Rightarrow> bool \<Rightarrow> 'q \<Rightarrow> 'q \<Rightarrow> ('q, 's) relay_writer" where
  "new_setup_writer e has_deviceProxy has_manager recvQueue sendQueue =
     \<lparr>rw_please_stop = False, rw_recvQueue = Some recvQueue, rw_sendQueue = Some sendQueue,
      rw_endpoint = ep_bEndpointAddress e, rw_attributes = ep_bmAttributes e,
      rw_maxPacketSize = ep_wMaxPacketSize e, rw_has_proxy = False, rw_has_deviceProxy = has_deviceProxy,
      rw_has_manager = has_manager, rw_filters = []\<rparr>"

text \<open>The destructor of the writer forgets its filters, which belong to the manager.\<close>

definition delete_writer :: "('q, 's) relay_writer \<Rightarrow> ('q, 's) relay_writer" where
  "delete_writer w = w\<lparr>rw_filters := []\<rparr>"

definition writer_add_filter :: "'s pfilter \<Rightarrow> ('q, 's) relay_writer \<Rightarrow> ('q, 's) relay_writer" where
  "writer_add_filter f w = w\<lparr>rw_filters := rw_filters w @ [f]\<rparr>"

section \<open>Entering the loops\<close>

text \<open>What \<open>relay_read\<close> and \<open>relay_write\<close> do first: address 0 goes to the loop of endpoint 0, which
  returns when a part is missing; a data loop uses its proxy without a check.\<close>

datatype relay_loop = SetupLoop | DataLoop | ReturnsAtOnce

definition reader_loop :: "'q relay_reader \<Rightarrow> relay_loop res" where
  "reader_loop rr =
     (if rr_endpoint rr = 0 then
        Inr (if \<not> rr_has_hostProxy rr \<or> rr_recvQueue rr = None then ReturnsAtOnce else SetupLoop)
      else if \<not> rr_has_proxy rr then Inl NullDeref else Inr DataLoop)"

definition writer_loop :: "('q, 's) relay_writer \<Rightarrow> relay_loop res" where
  "writer_loop rw =
     (if rw_endpoint rw = 0 then
        Inr (if \<not> rw_has_deviceProxy rw \<or> rw_sendQueue rw = None \<or> rw_recvQueue rw = None
             then ReturnsAtOnce else SetupLoop)
      else if \<not> rw_has_proxy rw then Inl NullDeref else Inr DataLoop)"

section \<open>Lemmas\<close>

text \<open>The objects that the manager makes run the loop they are made for; those for endpoint 0 do so on
  address 0 only, and a data object on address 0 does nothing.\<close>

lemma setup_objects_run:
  "reader_loop (new_setup_reader e True q q') =
     (if ep_bEndpointAddress e = 0 then Inr SetupLoop else Inl NullDeref)"
  "writer_loop (new_setup_writer e True manager q q') =
     (if ep_bEndpointAddress e = 0 then Inr SetupLoop else Inl NullDeref)"
  by (simp_all add: reader_loop_def writer_loop_def new_setup_reader_def new_setup_writer_def)

lemma data_objects_run:
  "reader_loop (new_data_reader e True q) =
     Inr (if ep_bEndpointAddress e = 0 then ReturnsAtOnce else DataLoop)"
  "writer_loop (new_data_writer e True q) =
     Inr (if ep_bEndpointAddress e = 0 then ReturnsAtOnce else DataLoop)"
  by (simp_all add: reader_loop_def writer_loop_def new_data_reader_def new_data_writer_def)

lemma filters_in_order:
  "rw_filters (fold writer_add_filter fs w) = rw_filters w @ fs"
  by (induction fs arbitrary: w) (simp_all add: writer_add_filter_def)

end
