(* ===== verification/LibUSB_Device.thy ===== *)
theory LibUSB_Device
  imports LibUSB_Model Log_Filters Mitm_Loop
begin

text \<open>
  What \<open>DeviceProxy_LibUSB.cpp\<close> asks libusb about the device that is open: its speed, its address and the
  line that describes it; the end of the proxy; and the hotplug callback, which sends the signal that ends
  the tool's wait.
\<close>

section \<open>Parameters\<close>

text \<open>\<open>li_string\<close> is what \<open>libusb_get_string_descriptor_ascii\<close> writes for an index: the characters before
  the zero, or nothing after an error.\<close>

record libusb_info =
  li_speed :: int
  li_address :: u8
  li_descriptor :: "device_descriptor option"
  li_string :: "u8 \<Rightarrow> bytes option"

definition LIBUSB_SPEED_HIGH :: int where "LIBUSB_SPEED_HIGH = 3"
definition LIBUSB_SPEED_SUPER :: int where "LIBUSB_SPEED_SUPER = 4"

text \<open>\<open>libusb_get_device\<close> follows the handle.\<close>

definition open_device :: "libusb \<Rightarrow> device_descriptor res" where
  "open_device lu = deref (lu_handle lu)"

section \<open>Code\<close>

definition libusb_is_highspeed :: "libusb_info \<Rightarrow> libusb \<Rightarrow> bool res" where
  "libusb_is_highspeed li lu =
     and_then (open_device lu) (\<lambda>_. Inr (li_speed li = LIBUSB_SPEED_HIGH \<or> li_speed li = LIBUSB_SPEED_SUPER))"

definition libusb_get_address :: "libusb_info \<Rightarrow> libusb \<Rightarrow> u8 res" where
  "libusb_get_address li lu = and_then (open_device lu) (\<lambda>_. Inr (li_address li))"

text \<open>The macros \<open>hex2\<close> and \<open>hex4\<close> of the file print two and four digits.\<close>

definition hex4 :: "u16 \<Rightarrow> bytes" where
  "hex4 w = hex2 (hi8 w) @ hex2 (lo8 w)"

definition name_of :: "libusb_info \<Rightarrow> u8 \<Rightarrow> bytes" where
  "name_of li i =
     (if i = 0 then ascii ''N/A''
      else case li_string li i of None \<Rightarrow> ascii ''N/A'' | Some s \<Rightarrow> take 127 s)"

text \<open>When the descriptor cannot be read, the fields of a variable without a value are used.\<close>

definition libusb_toString :: "libusb_info \<Rightarrow> libusb \<Rightarrow> bytes res" where
  "libusb_toString li lu =
     and_then (open_device lu) (\<lambda>_. case li_descriptor li of
         None \<Rightarrow> Inl Uninit
       | Some d \<Rightarrow> Inr (hex4 (dd_idVendor d) @ ascii '':'' @ hex4 (dd_idProduct d) @ ascii ''@'' @
           hex2 (li_address li) @ ascii '' '' @ name_of li (dd_iManufacturer d) @ ascii '' - '' @
           name_of li (dd_iProduct d) @ [0x0A]))"

text \<open>The destructor releases the same as \<open>disconnect\<close>.\<close>

definition delete_libusb :: "libusb \<Rightarrow> unit res" where
  "delete_libusb lu =
     and_then (use_context (lu_context lu \<noteq> NoContext \<and> lu_callback lu) lu) (\<lambda>lu.
       and_then (use_context (lu_privateDevice lu \<and> lu_handle lu \<noteq> None) lu) (\<lambda>lu.
         and_then (use_context (lu_privateContext lu \<and> lu_context lu \<noteq> NoContext) lu) (\<lambda>_. Inr ())))"

text \<open>\<open>hotplug_callback\<close>: \<open>kill(0, SIGHUP)\<close> reaches every process of the group.\<close>

definition hotplug_callback :: "signal" where
  "hotplug_callback = SIGHUP"

section \<open>Lemmas\<close>

lemma hex2_inj: "hex2 a = hex2 b \<longleftrightarrow> a = b"
proof
  have "list_all (\<lambda>n. list_all (\<lambda>k. hex_digit n = hex_digit k \<longrightarrow> n = k) [0..<16]) [0..<16]" by code_simp
  then have inj: "\<And>n k. n < 16 \<Longrightarrow> k < 16 \<Longrightarrow> hex_digit n = hex_digit k \<Longrightarrow> n = k"
    by (simp add: list_all_iff)
  assume "hex2 a = hex2 b"
  moreover have "unat a div 16 < 16" "unat b div 16 < 16"
    using unat_u8_less [of a] unat_u8_less [of b] by (simp_all add: less_mult_imp_div_less)
  ultimately have "unat a div 16 = unat b div 16" "unat a mod 16 = unat b mod 16"
    by (auto simp: hex2_def intro: inj)
  then have "unat a = unat b" by (metis div_mult_mod_eq)
  then show "a = b" by (rule unsigned_word_eqI)
qed simp

lemma hex4_inj: "hex4 v = hex4 w \<longleftrightarrow> v = w"
proof
  assume "hex4 v = hex4 w"
  then have "hi8 v = hi8 w" "lo8 v = lo8 w" by (simp_all add: hex4_def hex2_inj)
  then show "v = w" by (metis le16_lo8_hi8)
qed simp

text \<open>The first twelve characters of the line tell devices apart by their identifiers and addresses.\<close>

lemma description_identifies:
  assumes "libusb_toString li lu = Inr t" "libusb_toString li' lu' = Inr t'" "take 12 t = take 12 t'"
    and "li_descriptor li = Some d" "li_descriptor li' = Some d'"
  shows "dd_idVendor d = dd_idVendor d' \<and> dd_idProduct d = dd_idProduct d' \<and> li_address li = li_address li'"
proof -
  have "length (hex4 w) = 4" for w by (simp add: hex4_def)
  moreover have "length (ascii '':'') = 1" "length (ascii ''@'') = 1" by (simp_all add: ascii_def)
  ultimately have "hex4 (dd_idVendor d) = hex4 (dd_idVendor d')" "hex4 (dd_idProduct d) = hex4 (dd_idProduct d')"
    "hex2 (li_address li) = hex2 (li_address li')"
    using assms by (auto simp: libusb_toString_def and_then_eq_Inr ascii_def take_Cons')
  then show ?thesis by (simp add: hex4_inj hex2_inj)
qed

text \<open>After \<open>disconnect\<close> the destructor has nothing left to release; after a registration that failed both
  use the context that \<open>libusb_exit\<close> has released.\<close>

lemma delete_after_disconnect:
  "libusb_disconnect lu = Inr lu' \<Longrightarrow> delete_libusb lu' = Inr ()"
  by (auto simp: libusb_disconnect_def use_context_def delete_libusb_def split: if_splits)

lemma delete_like_disconnect:
  "delete_libusb lu = Inl e \<longleftrightarrow> libusb_disconnect lu = Inl e"
  by (auto simp: libusb_disconnect_def use_context_def delete_libusb_def and_then_eq_Inl)

end
