(* ===== verification/Fd_Info.thy ===== *)
theory Fd_Info
  imports Log_Filters
begin

text \<open>
  The listing of file descriptors for debugging (\<open>src/lib/FDInfo.c\<close>). What the calls of the system answer
  for a descriptor is a parameter; the result is the text.
\<close>

section \<open>Parameters\<close>

text \<open>\<open>fd_flags\<close> and \<open>fl_flags\<close> are the results of \<open>fcntl\<close> (-1 for an error), \<open>fd_link\<close> is what
  \<open>readlink\<close> writes, at most 256 bytes; \<open>fd_lock\<close> is the type of the lock and the process that holds it.\<close>

record fd_env =
  fd_flags :: int
  fl_flags :: int
  fd_link :: "bytes option"
  fd_lock :: "int \<times> nat"

text \<open>The constants of Linux.\<close>

definition fl_names :: "(int \<times> string) list" where
  "fl_names = [(0x400, ''append ''), (0x800, ''nonblock ''), (0, ''read-only ''), (2, ''read-write ''),
     (1, ''write-only ''), (0x1000, ''dsync ''), (0x101000, ''rsync ''), (0x101000, ''sync '')]"

definition FD_CLOEXEC :: int where "FD_CLOEXEC = 1"
definition F_WRLCK :: int where "F_WRLCK = 1"
definition F_UNLCK :: int where "F_UNLCK = 2"

section \<open>Code\<close>

definition fl_text :: "int \<Rightarrow> bytes" where
  "fl_text flags = concat (map (\<lambda>(f, name). if flags AND f \<noteq> 0 then ascii name else []) fl_names)"

text \<open>The buffer of 256 bytes is cleared, so that a shorter link is a string; one of 256 bytes is not
  ended.\<close>

definition link_text :: "bytes \<Rightarrow> bytes res" where
  "link_text link =
     c_string (map Some (take 256 link) @ replicate (256 - length link) (Some 0))"

definition lock_text :: "int \<times> nat \<Rightarrow> bytes" where
  "lock_text l =
     (if fst l \<noteq> F_UNLCK then
        (if fst l = F_WRLCK then ascii ''write-locked'' else ascii ''read-locked'')
        @ ascii ''(pid:'' @ decimal (snd l) @ ascii '') ''
      else [])"

definition showFDDetail :: "(nat \<Rightarrow> fd_env) \<Rightarrow> nat \<Rightarrow> bytes res" where
  "showFDDetail env fd =
     (let e = env fd; path = ascii ''/proc/self/fd/'' @ decimal fd in
      if fd_flags e = -1 \<or> fl_flags e = -1 then Inr []
      else (case fd_link e of
          None \<Rightarrow> Inr (ascii '' ('' @ path @ ascii ''): not available'' @ [0x0A])
        | Some link \<Rightarrow>
            and_then (link_text link) (\<lambda>s.
              Inr (decimal fd @ ascii '' ('' @ s @ ascii ''): ''
                @ (if fd_flags e AND FD_CLOEXEC \<noteq> 0 then ascii ''cloexec '' else [])
                @ fl_text (fl_flags e) @ lock_text (fd_lock e) @ [0x0A]))))"

definition showFDInfo :: "(nat \<Rightarrow> fd_env) \<Rightarrow> nat \<Rightarrow> bytes res" where
  "showFDInfo env numHandles =
     concat_of (\<lambda>fd. if fd_flags (env fd) = -1 then Inr [] else showFDDetail env fd) [0..<numHandles]"

section \<open>Lemmas\<close>

text \<open>A file that is open for reading is never called read-only, since \<open>O_RDONLY\<close> is no bit; one that is
  opened with \<open>O_DSYNC\<close> is called synchronous in all three ways.\<close>

lemma read_only_not_shown: "fl_text 0 = []"
  by (simp add: fl_text_def fl_names_def)

lemma dsync_shown_as_sync: "fl_text 0x1000 = ascii ''dsync rsync sync ''"
  by code_simp

lemma long_link_overruns:
  assumes "length link = 256" "0 \<notin> set link" "fd_flags (env fd) \<noteq> -1" "fl_flags (env fd) \<noteq> -1"
    and "fd_link (env fd) = Some link"
  shows "showFDDetail env fd = Inl OutOfBounds"
proof -
  have "c_string (map Some bs) = Inl OutOfBounds" if "0 \<notin> set bs" for bs
    using that by (induction bs) auto
  then have "link_text link = Inl OutOfBounds" using assms(1,2) by (simp add: link_text_def)
  with assms(3-5) show ?thesis by (simp add: showFDDetail_def Let_def)
qed

end
