(* ===== verification/Injector_Objects.thy ===== *)
theory Injector_Objects
  imports Settings_Model Mass_Storage
begin

text \<open>
  The injectors as objects with file descriptors: \<open>Injector_UDPHID.cpp\<close>, whose socket is opened by
  \<open>start_injector\<close>, and the pipe of \<open>PacketFilter_MassStorage.cpp\<close>, which the constructor opens and
  \<open>stop_injector\<close> closes; and the end and the second start of \<open>Injector::listen\<close>. \<open>fds\<close> are the descriptors
  of the process that are open.
\<close>

section \<open>The UDPHID injector\<close>

record udphid_injector =
  uh_port :: int
  uh_socket :: udp_socket
  uh_report :: bytes

definition close_fd :: "int \<Rightarrow> int list \<Rightarrow> int list" where
  "close_fd fd fds = remove1 fd fds"

text \<open>\<open>fd\<close> and \<open>rc\<close> are the results of \<open>socket\<close> and \<open>bind\<close>.\<close>

definition udphid_start ::
  "int \<Rightarrow> int \<Rightarrow> bytes \<Rightarrow> udphid_injector \<times> int list \<Rightarrow> udphid_injector \<times> int list" where
  "udphid_start fd rc content = (\<lambda>(u, fds).
     (u\<lparr>uh_socket := udp_start fd rc content (uh_socket u)\<rparr>, if fd < 0 then fds else fd # fds))"

definition udphid_pollable_fds :: "udphid_injector \<Rightarrow> int list" where
  "udphid_pollable_fds u = udp_pollable_fds (uh_socket u)"

definition udphid_stop :: "udphid_injector \<times> int list \<Rightarrow> udphid_injector \<times> int list" where
  "udphid_stop = (\<lambda>(u, fds).
     (u\<lparr>uh_socket := udp_stop (uh_socket u)\<rparr>,
      if us_sck (uh_socket u) \<noteq> 0 then close_fd (us_sck (uh_socket u)) fds else fds))"

definition delete_udphid :: "udphid_injector \<times> int list \<Rightarrow> int list" where
  "delete_udphid = (\<lambda>(u, fds).
     if us_sck (uh_socket u) \<noteq> 0 then close_fd (us_sck (uh_socket u)) fds else fds)"

section \<open>The pipe of the mass storage filter\<close>

record storage_injector =
  si_pipe_in :: int
  si_pipe_out :: int
  si_filter :: mass_storage

text \<open>The constructor ends the process when there is no pipe.\<close>

definition new_storage_injector ::
  "(int \<times> int) option \<Rightarrow> mass_storage \<Rightarrow> int list \<Rightarrow> (storage_injector \<times> int list) res" where
  "new_storage_injector pipe ms fds =
     (case pipe of None \<Rightarrow> Inl Exits
      | Some (r, w) \<Rightarrow> Inr (\<lparr>si_pipe_in = r, si_pipe_out = w, si_filter = ms\<rparr>, w # r # fds))"

definition storage_start :: "storage_injector \<Rightarrow> storage_injector" where
  "storage_start si = si"

definition storage_pollable_fds :: "storage_injector \<Rightarrow> int list" where
  "storage_pollable_fds si = takeWhile (\<lambda>fd. fd \<noteq> 0) [si_pipe_in si, 0]"

definition storage_stop :: "storage_injector \<Rightarrow> int list \<Rightarrow> int list" where
  "storage_stop si fds = close_fd (si_pipe_out si) (close_fd (si_pipe_in si) fds)"

text \<open>\<open>queue_packet\<close> writes the tag into the pipe; the number of a closed descriptor may belong to
  another file by then.\<close>

definition storage_queue_packet :: "int list \<Rightarrow> storage_injector \<Rightarrow> storage_injector res" where
  "storage_queue_packet fds si =
     (if si_pipe_out si \<in> set fds then Inr (si\<lparr>si_filter := queue_packet (si_filter si)\<rparr>)
      else Inl UseAfterFree)"

section \<open>Stopping and starting a listener\<close>

text \<open>The end of \<open>listen\<close>: the packets that are still buffered are deleted; what remains is the member tables
  of indices, which only the constructor of the injector clears. The next \<open>listen\<close> starts with these and
  with an array for its readable descriptors only.\<close>

definition listen_end :: "listener \<Rightarrow> packet list" where
  "listen_end li = somes (map ps_packet (li_slots li))"

definition listen_again :: "int list \<Rightarrow> listener \<Rightarrow> listener" where
  "listen_again fdlist li =
     (new_listener fdlist)\<lparr>li_inPollIndex := li_inPollIndex li, li_outPollIndex := li_outPollIndex li\<rparr>"

section \<open>Lemmas\<close>

text \<open>A packet for an endpoint that an earlier run has buffered for is then written past the end of the
  array (as soon as the program gives the injectors queues, which is marked as to be done).\<close>

lemma stale_index_overruns:
  assumes "queue \<noteq> 0" "pk_bEndpoint p AND 0x80 \<noteq> 0"
    and "li_readcount li + length (li_slots li) = k" "0 < length fds" "length fds \<le> k"
    and "length (li_inPollIndex li) = 16" "li_inPollIndex li ! unat (pk_bEndpoint p AND 0x0f) = 0"
    and "buffer_packet queue p li = Inr (acts, li')"
  shows "listen_end li' = listen_end li @ [p]"
    and "buffer_packet queue p (listen_again fds li') = Inl OutOfBounds"
proof -
  have n: "unat (pk_bEndpoint p AND 0x0f) < 16"
  proof -
    have "pk_bEndpoint p AND 0x0f \<le> 0x0f" by (rule word_and_le1)
    then show ?thesis by (simp add: word_le_nat_alt)
  qed
  have li': "li' = li\<lparr>li_slots := li_slots li @ [\<lparr>ps_queue = queue, ps_packet = Some p, ps_pollout = True, ps_revents = None\<rparr>],
      li_inPollIndex := (li_inPollIndex li)[unat (pk_bEndpoint p AND 0x0f) := k]\<rparr>"
    using assms by (simp add: buffer_packet_def Let_def)
  then show "listen_end li' = listen_end li @ [p]" by (simp add: listen_end_def)
  have "0 < k" using assms(4,5) by linarith
  then show "buffer_packet queue p (listen_again fds li') = Inl OutOfBounds"
    using assms(2,5,6) n
    by (simp add: li' listen_again_def buffer_packet_def new_listener_def Let_def index_def)
qed


text \<open>Stopping gives back the socket that starting took, unless \<open>bind\<close> had failed: then its number has
  been overwritten and it stays open.\<close>

lemma udphid_descriptors:
  assumes "0 < fd" "us_sck (uh_socket u) = 0" "udphid_start fd rc content (u, fds) = s"
  shows "snd (udphid_stop s) = (if rc < 0 then fd # fds else fds)"
    and "udphid_pollable_fds (fst s) = (if rc < 0 then [] else [fd])"
    and "delete_udphid (udphid_stop s) = snd (udphid_stop s)"
  using assms
  by (auto simp: udphid_start_def udphid_stop_def udp_start_def udp_stop_def close_fd_def delete_udphid_def
      udphid_pollable_fds_def udp_pollable_fds_def split: if_splits)

text \<open>The pipe works for one run: after \<open>stop_injector\<close>, starting again does not open it, and the next
  blocked write ends in a descriptor that is closed.\<close>

lemma storage_runs_once:
  assumes "new_storage_injector (Some (r, w)) ms fds = Inr (si, fds1)" "w \<noteq> r" "w \<notin> set fds"
  shows "storage_queue_packet fds1 (storage_start si) =
      Inr (si\<lparr>si_filter := queue_packet ms\<rparr>)"
    and "storage_stop si fds1 = fds"
    and "storage_queue_packet (storage_stop si fds1) (storage_start si) = Inl UseAfterFree"
  using assms
  by (auto simp: new_storage_injector_def storage_queue_packet_def storage_start_def storage_stop_def
      close_fd_def)

end
