(* ===== verification/Pcap_File.thy ===== *)
theory Pcap_File
  imports Log_Filters Config_Parser
begin

text \<open>
  The capture file of \<open>PacketFilter_PcapLogger.cpp\<close>: its constructor and destructor over \<open>fopen\<close> and
  libpcap, of which a parameter says what succeeds. A function of libpcap that is given a pointer which an
  earlier call has not delivered follows NULL.
\<close>

definition SNAP_LEN :: nat where "SNAP_LEN = 112"

record pcap_env =
  pe_fopen :: "string \<Rightarrow> bool"
  pe_open_dead :: bool
  pe_dump_fopen :: bool

record pcap_logger =
  pl_file :: bool
  pl_pcap_file :: bool
  pl_pcap_writer :: bool
  pl_pkt_count :: nat

text \<open>A pointer that is used.\<close>

definition use_pointer :: "bool \<Rightarrow> unit res" where
  "use_pointer valid = (if valid then Inr () else Inl NullDeref)"

text \<open>The writer is flushed before it is compared with NULL.\<close>

definition new_pcap_logger :: "pcap_env \<Rightarrow> 'p config_parser \<Rightarrow> pcap_logger res" where
  "new_pcap_logger env cfg =
     (let filename = cp_get ''PacketFilter_PcapLogger::Filename'' cfg;
          file = pe_fopen env filename; pcap_file = pe_open_dead env in
      and_then (use_pointer pcap_file) (\<lambda>_. and_then (use_pointer file) (\<lambda>_.
        let pcap_writer = pe_dump_fopen env in
        and_then (use_pointer pcap_writer) (\<lambda>_.
          Inr \<lparr>pl_file = file, pl_pcap_file = pcap_file, pl_pcap_writer = pcap_writer, pl_pkt_count = 0\<rparr>))))"

text \<open>\<open>pcap_dump_flush\<close>, \<open>pcap_close\<close> and \<open>fclose\<close>.\<close>

definition delete_pcap_logger :: "pcap_logger \<Rightarrow> unit res" where
  "delete_pcap_logger pl =
     and_then (use_pointer (pl_pcap_writer pl)) (\<lambda>_. and_then (use_pointer (pl_pcap_file pl)) (\<lambda>_.
       use_pointer (pl_file pl)))"

text \<open>The logger with its counter: both filter functions write one record.\<close>

definition pcap_logger_packet ::
  "nat \<times> nat \<Rightarrow> packet \<Rightarrow> pcap_logger \<Rightarrow> (pcap_record \<times> pcap_logger) res" where
  "pcap_logger_packet ts p pl =
     and_then (pcap_filter_packet ts p (pl_pkt_count pl)) (\<lambda>(r, n). Inr (r, pl\<lparr>pl_pkt_count := n\<rparr>))"

text \<open>The constructor returns exactly when every call succeeds, and then the end of the logger is fine; the
  messages for the failures are never seen.\<close>

lemma pcap_logger_all_or_fault:
  "(\<exists>pl. new_pcap_logger env cfg = Inr pl \<and> delete_pcap_logger pl = Inr ()) \<longleftrightarrow>
     pe_fopen env (cp_get ''PacketFilter_PcapLogger::Filename'' cfg) \<and> pe_open_dead env \<and> pe_dump_fopen env"
  "new_pcap_logger env cfg = Inr pl \<Longrightarrow> delete_pcap_logger pl = Inr ()"
  by (auto simp: new_pcap_logger_def delete_pcap_logger_def use_pointer_def Let_def split: if_splits)

end
