(* ===== verification/Print_Model.thy ===== *)
theory Print_Model
  imports Device_Model Log_Filters
begin

text \<open>
  The listing of a device (the \<open>print\<close> functions of \<open>src/lib/Device.cpp\<close>, \<open>DeviceQualifier.cpp\<close>,
  \<open>Configuration.cpp\<close>, \<open>InterfaceGroup.cpp\<close>, \<open>Interface.cpp\<close>, \<open>HID.cpp\<close> and \<open>Endpoint.cpp\<close>), which
  the manager writes whenever it starts. A function is the text that it writes. The device to which the
  objects point is an argument, NULL for a configuration that stands alone.
\<close>

section \<open>Lines\<close>

text \<open>\<open>TABPADDING\<close> has 20 tabulators, of which at most \<open>tabs\<close> are printed.\<close>

definition tab_pad :: "u8 \<Rightarrow> bytes" where
  "tab_pad tabs = replicate (min (unat tabs) 20) 0x09"

definition hex_line :: "u8 \<Rightarrow> bytes \<Rightarrow> bytes \<Rightarrow> bytes res" where
  "hex_line tabs label bs = and_then (dump bs) (\<lambda>hex. Inr (tab_pad tabs @ label @ hex @ [0x0A]))"

text \<open>The line with the name of an object; \<open>%s\<close> stops at the first zero.\<close>

definition name_line :: "u8 \<Rightarrow> string \<Rightarrow> usb_string option \<Rightarrow> bytes res" where
  "name_line tabs label s =
     (case s of None \<Rightarrow> Inr []
      | Some s \<Rightarrow> and_then (get_ascii s) (\<lambda>name.
          Inr (tab_pad tabs @ ascii label @ takeWhile (\<lambda>c. c \<noteq> 0) name @ [0x0A])))"

definition mark :: "bool \<Rightarrow> bytes" where
  "mark active = (if active then ascii ''*'' else ascii '' '')"

section \<open>Objects\<close>

definition endpoint_print :: "u8 \<Rightarrow> endpoint_descriptor \<Rightarrow> bytes res" where
  "endpoint_print tabs d =
     and_then (endpoint_full d) (\<lambda>bs.
       hex_line tabs (ascii ''EP('' @ hex2 (ep_bEndpointAddress d) @ ascii ''): '') bs)"

definition hid_print :: "u8 \<Rightarrow> bytes \<Rightarrow> bytes res" where
  "hid_print tabs h = and_then (block_full h) (hex_line tabs (ascii ''HID: ''))"

definition generic_print :: "u8 \<Rightarrow> bytes \<Rightarrow> bytes res" where
  "generic_print tabs g =
     and_then (block_full g) (\<lambda>bs. and_then (index g 1) (\<lambda>ty.
       hex_line tabs (ascii ''Other('' @ hex2 ty @ ascii ''): '') bs))"

definition get_interface_string :: "device option \<Rightarrow> iface \<Rightarrow> u16 \<Rightarrow> usb_string option res" where
  "get_interface_string dvo ic l =
     (if if_iInterface (if_descriptor ic) = 0 then Inr None
      else and_then (deref dvo) (\<lambda>dv. get_string dv (if_iInterface (if_descriptor ic)) l))"

definition iface_print :: "device option \<Rightarrow> u8 \<Rightarrow> bool \<Rightarrow> iface \<Rightarrow> bytes res" where
  "iface_print dvo tabs active ic =
     (let d = if_descriptor ic in
      and_then (hex_line tabs (mark active @ ascii ''Alt('' @ decimal (unat (if_bAlternateSetting d)) @ ascii ''): '')
          (interface_struct d)) (\<lambda>head.
        and_then (and_then (get_interface_string dvo ic 0) (name_line tabs ''   Name: '')) (\<lambda>name.
          and_then (case if_hid ic of None \<Rightarrow> Inr [] | Some h \<Rightarrow> hid_print (tabs + 1) h) (\<lambda>hid.
            and_then (concat_of (generic_print tabs) (if_generics ic)) (\<lambda>others.
              and_then (and_then (the_endpoints ic) (concat_of
                  (\<lambda>e. case e of None \<Rightarrow> Inr [] | Some e \<Rightarrow> endpoint_print (tabs + 1) e))) (\<lambda>eps.
                Inr (head @ name @ hid @ others @ eps)))))))"

definition igroup_print :: "device option \<Rightarrow> u8 \<Rightarrow> igroup \<Rightarrow> bytes res" where
  "igroup_print dvo tabs g =
     and_then (and_then (the_interfaces g) (\<lambda>is. concat_of
         (\<lambda>(i, ic). case ic of None \<Rightarrow> Inr []
            | Some ic \<Rightarrow> iface_print dvo (tabs + 1) (int i = ig_activeAlternateIndex g) ic)
         (enumerate 0 is))) (\<lambda>settings.
       Inr (tab_pad tabs @ ascii ''Interface('' @ decimal (unat (ig_number g)) @ ascii ''):'' @ [0x0A] @ settings))"

definition get_config_string :: "device option \<Rightarrow> config \<Rightarrow> u16 \<Rightarrow> usb_string option res" where
  "get_config_string dvo c l =
     (case dvo of None \<Rightarrow> Inr None
      | Some dv \<Rightarrow> if cf_iConfiguration (cf_descriptor c) = 0 then Inr None
                   else get_string dv (cf_iConfiguration (cf_descriptor c)) l)"

definition config_print :: "device option \<Rightarrow> u8 \<Rightarrow> bool \<Rightarrow> config \<Rightarrow> bytes res" where
  "config_print dvo tabs active c =
     (let d = cf_descriptor c in
      and_then (hex_line tabs (mark active @ ascii ''Config('' @ decimal (unat (cf_bConfigurationValue d)) @ ascii ''): '')
          (config_struct d)) (\<lambda>head.
        and_then (if cf_iConfiguration d = 0 then Inr []
                  else and_then (get_config_string dvo c 0) (name_line tabs ''   Name: '')) (\<lambda>name.
          and_then (and_then (the_groups c) (concat_of
              (\<lambda>g. case g of None \<Rightarrow> Inr [] | Some g \<Rightarrow> igroup_print dvo (tabs + 1) g))) (\<lambda>groups.
            Inr (head @ name @ groups)))))"

definition qualifier_struct :: "qualifier_descriptor \<Rightarrow> bytes" where
  "qualifier_struct d =
     [dq_bLength d, dq_bDescriptorType d, lo8 (dq_bcdUSB d), hi8 (dq_bcdUSB d), dq_bDeviceClass d,
      dq_bDeviceSubClass d, dq_bDeviceProtocol d, dq_bMaxPacketSize0 d, dq_bNumConfigurations d,
      dq_bRESERVED d]"

text \<open>The configurations of the qualifier are compared with the device's active one, which is an object of
  another array: none of them is ever marked.\<close>

definition qualifier_print :: "device option \<Rightarrow> u8 \<Rightarrow> qualifier \<Rightarrow> bytes res" where
  "qualifier_print dvo tabs q =
     and_then (hex_line tabs (ascii ''HS Qualifier: '') (qualifier_struct (q_descriptor q))) (\<lambda>head.
       and_then (and_then (first_n (q_configurations q) (unat (dq_bNumConfigurations (q_descriptor q))))
           (concat_of (\<lambda>c. case c of None \<Rightarrow> Inr []
              | Some c \<Rightarrow> and_then (deref dvo) (\<lambda>dv. and_then (get_active_configuration dv) (\<lambda>_.
                  config_print dvo (tabs + 1) False c))))) (\<lambda>configs.
         Inr (head @ configs)))"

text \<open>Whether the configuration in an entry of the array is the object that \<open>get_active_configuration\<close>
  returns.\<close>

definition is_active :: "device \<Rightarrow> nat \<Rightarrow> bool" where
  "is_active dv i \<longleftrightarrow>
     (let n = of_int (dv_deviceConfigurationIndex dv) :: u8 in
      0 \<le> dv_deviceConfigurationIndex dv \<and> 1 \<le> n \<and> n \<le> dd_bNumConfigurations (dv_descriptor dv) \<and>
      i = unat n - 1)"

definition device_print :: "u8 \<Rightarrow> device \<Rightarrow> bytes res" where
  "device_print tabs dv =
     (let d = dv_descriptor dv;
          name = (\<lambda>i label. if i = 0 then Inr []
                   else and_then (get_descriptor_string dv i 0) (name_line tabs label)) in
      and_then (hex_line tabs (ascii ''Device: '') (device_struct d)) (\<lambda>head.
        and_then (name (dd_iManufacturer d) ''  Manufacturer: '') (\<lambda>m.
          and_then (name (dd_iProduct d) ''  Product:      '') (\<lambda>p.
            and_then (name (dd_iSerialNumber d) ''  Serial:       '') (\<lambda>s.
              and_then (and_then (first_n (dv_configurations dv) (unat (dd_bNumConfigurations d)))
                  (\<lambda>cs. concat_of (\<lambda>(i, c). case c of None \<Rightarrow> Inr []
                     | Some c \<Rightarrow> and_then (get_active_configuration dv) (\<lambda>_.
                         config_print (Some dv) (tabs + 1) (is_active dv i) c)) (enumerate 0 cs))) (\<lambda>configs.
                and_then (case dv_qualifier dv of None \<Rightarrow> Inr []
                          | Some q \<Rightarrow> qualifier_print (Some dv) tabs q) (\<lambda>q.
                  Inr (head @ m @ p @ s @ configs @ q))))))))"

section \<open>What can be printed\<close>

text \<open>A dump of more than 32 bytes whose number is a multiple of 32 has a character that nothing
  writes; of an endpoint only seven bytes have been read from the device.\<close>

definition dumpable :: "nat \<Rightarrow> bool" where
  "dumpable n \<longleftrightarrow> n \<le> 32 \<or> n mod 32 \<noteq> 0"

definition iface_printable :: "iface \<Rightarrow> bool" where
  "iface_printable ic \<longleftrightarrow>
     (\<forall>h. if_hid ic = Some h \<longrightarrow> dumpable (length h)) \<and>
     (\<forall>g\<in>set (if_generics ic). dumpable (length g)) \<and>
     (\<forall>e. Some e \<in> set (if_endpoints ic) \<longrightarrow> ep_bLength e \<le> 7)"

definition config_printable :: "config \<Rightarrow> bool" where
  "config_printable c \<longleftrightarrow>
     (\<forall>g. Some g \<in> set (cf_groups c) \<longrightarrow> (\<forall>ic. Some ic \<in> set (ig_interfaces g) \<longrightarrow> iface_printable ic))"

text \<open>What the parser leaves: blocks with their lengths, endpoints of seven bytes.\<close>

definition iface_read :: "iface \<Rightarrow> bool" where
  "iface_read ic \<longleftrightarrow> iface_wf ic \<and> (\<forall>h. if_hid ic = Some h \<longrightarrow> block_ok h) \<and>
     (\<forall>g\<in>set (if_generics ic). block_ok g) \<and>
     (\<forall>e. Some e \<in> set (if_endpoints ic) \<longrightarrow> ep_bRefresh e = None \<and> ep_bSynchAddress e = None)"

definition config_read :: "config \<Rightarrow> bool" where
  "config_read c \<longleftrightarrow> config_wf c \<and>
     (\<forall>g. Some g \<in> set (cf_groups c) \<longrightarrow> (\<forall>ic. Some ic \<in> set (ig_interfaces g) \<longrightarrow> iface_read ic))"

text \<open>An operation that ends without a fault.\<close>

definition returns :: "'a res \<Rightarrow> bool" where
  "returns r \<longleftrightarrow> (\<exists>x. r = Inr x)"

text \<open>All names can be looked up and written.\<close>

definition nameable :: "device \<Rightarrow> bool" where
  "nameable dv \<longleftrightarrow> returns (and_then (zero_string dv) (\<lambda>z. w_data z 0)) \<and>
     (\<forall>i l. \<exists>s. get_string dv i l = Inr s \<and> (\<forall>s'. s = Some s' \<longrightarrow> returns (get_ascii s')))"

section \<open>Lemmas\<close>

lemma returns_result [simp]: "returns (Inr x)" "\<not> returns (Inl e)"
  by (simp_all add: returns_def)

lemma returns_and_then: "returns (and_then r f) \<longleftrightarrow> (\<exists>x. r = Inr x \<and> returns (f x))"
  by (cases r) simp_all

lemma returns_map [simp]: "returns (and_then r (\<lambda>x. Inr (f x))) \<longleftrightarrow> returns r"
  by (cases r) simp_all

lemma returns_name_line:
  "returns (name_line tabs label s) \<longleftrightarrow> (\<forall>s'. s = Some s' \<longrightarrow> returns (get_ascii s'))"
  by (cases s) (simp_all add: name_line_def)

lemma returns_seq:
  "(\<And>x. returns (f x) \<longleftrightarrow> Q) \<Longrightarrow> returns (and_then r f) \<longleftrightarrow> returns r \<and> Q"
  by (cases r) simp_all

lemma returns_concat_of: "returns (concat_of f xs) \<longleftrightarrow> (\<forall>x\<in>set xs. returns (f x))"
  by (induction xs) (auto simp: returns_def and_then_eq_Inr)

lemma returns_dump: "returns (dump bs) \<longleftrightarrow> dumpable (length bs)"
  by (cases "bs = []") (auto simp: dump_eq dumpable_def, simp add: dump_def hex_string_def)

lemma returns_hex_line: "returns (hex_line tabs label bs) \<longleftrightarrow> dumpable (length bs)"
  using returns_dump [of bs] by (auto simp: hex_line_def returns_def and_then_eq_Inr)

lemmas returns_simps = returns_and_then returns_concat_of returns_hex_line

lemma struct_lines [simp]: "dumpable 9" "dumpable 10" "dumpable 18"
  by (simp_all add: dumpable_def)

lemma endpoint_struct_split:
  assumes "ep_bRefresh e = None" "ep_bSynchAddress e = None"
  shows "endpoint_struct e = map Some (endpoint_bytes e) @ [None, None]"
  by (simp add: endpoint_struct_def endpoint_bytes_def assms)

lemma returns_endpoint_print:
  assumes "ep_bRefresh e = None" "ep_bSynchAddress e = None"
  shows "returns (endpoint_print tabs e) \<longleftrightarrow> ep_bLength e \<le> 7"
proof (cases "ep_bLength e \<le> 7")
  case True
  then have n: "unat (ep_bLength e) \<le> 7" by (simp add: word_le_nat_alt)
  then have "endpoint_full e = Inr (take (unat (ep_bLength e)) (endpoint_bytes e))"
    by (simp add: endpoint_full_def endpoint_struct_split [OF assms] take_map)
  with True n show ?thesis by (simp add: endpoint_print_def returns_hex_line dumpable_def)
next
  case False
  then have n: "7 < unat (ep_bLength e)" by (simp add: word_le_nat_alt)
  have "take (unat (ep_bLength e)) (endpoint_struct e) \<noteq> map Some bs" for bs
  proof
    assume *: "take (unat (ep_bLength e)) (endpoint_struct e) = map Some bs"
    from n have "None \<in> set (take (unat (ep_bLength e)) (endpoint_struct e))"
      by (auto simp: endpoint_struct_split [OF assms] take_Cons' split: if_splits)
    with * show False by auto
  qed
  then have "\<not> returns (endpoint_full e)"
    by (auto simp: returns_def endpoint_full_def and_then_eq_Inr first_n_def written_eq_Inr)
  with False show ?thesis by (auto simp: endpoint_print_def returns_def and_then_eq_Inr)
qed

lemma returns_blocks:
  assumes "block_ok b"
  shows "returns (hid_print tabs b) \<longleftrightarrow> dumpable (length b)"
    and "returns (generic_print tabs b) \<longleftrightarrow> dumpable (length b)"
  using assms block_full_ok [OF assms] returns_hex_line
  by (auto simp: hid_print_def generic_print_def block_ok_def)

lemma returns_iface_print:
  assumes "iface_read ic" "nameable dv"
  shows "returns (iface_print (Some dv) tabs active ic) \<longleftrightarrow> iface_printable ic"
proof -
  have name: "returns (and_then (get_interface_string (Some dv) ic 0) (name_line tabs label))" for label
  proof -
    obtain s where "get_string dv (if_iInterface (if_descriptor ic)) 0 = Inr s"
      "\<forall>s'. s = Some s' \<longrightarrow> returns (get_ascii s')"
      using assms(2) unfolding nameable_def by blast
    then show ?thesis
      by (auto simp: get_interface_string_def returns_name_line returns_and_then)
  qed
  have eps: "returns (case e of None \<Rightarrow> Inr [] | Some e \<Rightarrow> endpoint_print (tabs + 1) e) \<longleftrightarrow>
      (\<forall>d. e = Some d \<longrightarrow> ep_bLength d \<le> 7)" if "e \<in> set (if_endpoints ic)" for e
  proof (cases e)
    case (Some d)
    with that assms(1) have "ep_bRefresh d = None" "ep_bSynchAddress d = None"
      by (auto simp: iface_read_def)
    from returns_endpoint_print [OF this] Some show ?thesis by simp
  qed simp
  have hid: "returns (case if_hid ic of None \<Rightarrow> Inr [] | Some h \<Rightarrow> hid_print (tabs + 1) h) \<longleftrightarrow>
      (\<forall>h. if_hid ic = Some h \<longrightarrow> dumpable (length h))"
    using assms(1) returns_blocks(1) by (cases "if_hid ic") (simp_all add: iface_read_def)
  have wf: "the_endpoints ic = Inr (if_endpoints ic)" using assms(1) by (simp add: iface_read_def)
  have "returns (iface_print (Some dv) tabs active ic) \<longleftrightarrow>
      returns (hex_line tabs (mark active @ ascii ''Alt('' @ decimal (unat (if_bAlternateSetting (if_descriptor ic)))
        @ ascii ''): '') (interface_struct (if_descriptor ic))) \<and>
      returns (and_then (get_interface_string (Some dv) ic 0) (name_line tabs ''   Name: '')) \<and>
      returns (case if_hid ic of None \<Rightarrow> Inr [] | Some h \<Rightarrow> hid_print (tabs + 1) h) \<and>
      returns (concat_of (generic_print tabs) (if_generics ic)) \<and>
      returns (and_then (the_endpoints ic) (concat_of
        (\<lambda>e. case e of None \<Rightarrow> Inr [] | Some e \<Rightarrow> endpoint_print (tabs + 1) e)))"
    unfolding iface_print_def Let_def by (rule returns_seq)+ (rule returns_map)
  also have "\<dots> \<longleftrightarrow> iface_printable ic"
    using assms(1) returns_blocks(2) eps
    by (simp add: returns_hex_line name wf returns_concat_of hid iface_printable_def iface_read_def cong: ball_cong)
      blast
  finally show ?thesis .
qed

lemma returns_igroup_print:
  assumes "igroup_wf g" "\<forall>ic. Some ic \<in> set (ig_interfaces g) \<longrightarrow> iface_read ic" "nameable dv"
  shows "returns (igroup_print (Some dv) tabs g) \<longleftrightarrow>
    (\<forall>ic. Some ic \<in> set (ig_interfaces g) \<longrightarrow> iface_printable ic)"
proof -
  have "returns (igroup_print (Some dv) tabs g) \<longleftrightarrow>
      (\<forall>(i, x)\<in>set (enumerate 0 (ig_interfaces g)). \<forall>ic. x = Some ic \<longrightarrow>
        returns (iface_print (Some dv) (tabs + 1) (int i = ig_activeAlternateIndex g) ic))"
    using assms(1)
    by (auto simp: igroup_print_def returns_concat_of split: option.splits prod.splits)
  also have "\<dots> \<longleftrightarrow> (\<forall>(i, x)\<in>set (enumerate 0 (ig_interfaces g)). \<forall>ic. x = Some ic \<longrightarrow> iface_printable ic)"
  proof (intro ball_cong refl, clarify)
    fix i x
    assume "(i, x) \<in> set (enumerate 0 (ig_interfaces g))"
    then have x: "x \<in> set (ig_interfaces g)" by (auto simp: in_set_enumerate_eq)
    show "(\<forall>ic. x = Some ic \<longrightarrow>
          returns (iface_print (Some dv) (tabs + 1) (int i = ig_activeAlternateIndex g) ic)) \<longleftrightarrow>
        (\<forall>ic. x = Some ic \<longrightarrow> iface_printable ic)"
    proof (cases x)
      case (Some ic)
      with x assms(2) returns_iface_print [OF _ assms(3)] show ?thesis by simp
    qed simp
  qed
  also have "\<dots> \<longleftrightarrow> (\<forall>ic. Some ic \<in> set (ig_interfaces g) \<longrightarrow> iface_printable ic)"
    by (subst ball_enumerate_snd) auto
  finally show ?thesis .
qed

lemma config_print_returns:
  assumes "config_read c" "nameable dv"
  shows "returns (config_print (Some dv) tabs active c) \<longleftrightarrow> config_printable c"
proof -
  have name: "returns (and_then (get_config_string (Some dv) c 0) (name_line tabs label))"
    if "cf_iConfiguration (cf_descriptor c) \<noteq> 0" for label
  proof -
    obtain s where "get_string dv (cf_iConfiguration (cf_descriptor c)) 0 = Inr s"
      "\<forall>s'. s = Some s' \<longrightarrow> returns (get_ascii s')"
      using assms(2) unfolding nameable_def by blast
    with that show ?thesis
      by (auto simp: get_config_string_def returns_name_line returns_and_then)
  qed
  have wf: "the_groups c = Inr (cf_groups c)" using assms(1) by (simp add: config_read_def)
  have g: "returns (case g of None \<Rightarrow> Inr [] | Some g \<Rightarrow> igroup_print (Some dv) (tabs + 1) g) \<longleftrightarrow>
      (\<forall>h. g = Some h \<longrightarrow> (\<forall>ic. Some ic \<in> set (ig_interfaces h) \<longrightarrow> iface_printable ic))"
    if "g \<in> set (cf_groups c)" for g
  proof (cases g)
    case (Some h)
    with that assms(1) have "igroup_wf h" "\<forall>ic. Some ic \<in> set (ig_interfaces h) \<longrightarrow> iface_read ic"
      by (auto simp: config_read_def config_wf_def)
    from returns_igroup_print [OF this assms(2)] Some show ?thesis by simp
  qed simp
  have "returns (config_print (Some dv) tabs active c) \<longleftrightarrow>
      returns (hex_line tabs (mark active @ ascii ''Config('' @
        decimal (unat (cf_bConfigurationValue (cf_descriptor c))) @ ascii ''): '') (config_struct (cf_descriptor c))) \<and>
      returns (if cf_iConfiguration (cf_descriptor c) = 0 then Inr []
        else and_then (get_config_string (Some dv) c 0) (name_line tabs ''   Name: '')) \<and>
      returns (and_then (the_groups c) (concat_of
        (\<lambda>g. case g of None \<Rightarrow> Inr [] | Some g \<Rightarrow> igroup_print (Some dv) (tabs + 1) g)))"
    unfolding config_print_def Let_def by (rule returns_seq)+ (rule returns_map)
  also have "\<dots> \<longleftrightarrow> config_printable c"
    using name [of "''   Name: ''"] g
    by (simp add: returns_hex_line wf returns_concat_of config_printable_def cong: ball_cong) blast
  finally show ?thesis .
qed

text \<open>A device as the constructor leaves it.\<close>

definition configs_read :: "device \<Rightarrow> bool" where
  "configs_read dv \<longleftrightarrow>
     length (dv_configurations dv) = unat (dd_bNumConfigurations (dv_descriptor dv)) \<and>
     (\<forall>c. Some c \<in> set (dv_configurations dv) \<longrightarrow> config_read c) \<and>
     (\<forall>q. dv_qualifier dv = Some q \<longrightarrow>
        length (q_configurations q) = unat (dq_bNumConfigurations (q_descriptor q)) \<and>
        (\<forall>c. Some c \<in> set (q_configurations q) \<longrightarrow> config_read c))"

definition all_configs :: "device \<Rightarrow> config list" where
  "all_configs dv = somes (dv_configurations dv) @
     (case dv_qualifier dv of None \<Rightarrow> [] | Some q \<Rightarrow> somes (q_configurations q))"

lemma returns_active:
  "configs_read dv \<Longrightarrow> returns (get_active_configuration dv)"
  by (auto simp: get_active_configuration_def get_configuration_def configs_read_def index_def word_le_nat_alt
      word_less_nat_alt)

lemma returns_then_const: "returns r \<Longrightarrow> returns (and_then r (\<lambda>_. s)) \<longleftrightarrow> returns s"
  by (cases r) simp_all

lemma returns_configs:
  assumes "configs_read dv" "nameable dv" "\<forall>c. Some c \<in> set cs \<longrightarrow> config_read c"
  shows "returns (concat_of (\<lambda>(i, c). case c of None \<Rightarrow> Inr []
      | Some c \<Rightarrow> and_then (get_active_configuration dv) (\<lambda>_. config_print (Some dv) tabs (act i) c))
      (enumerate 0 cs)) \<longleftrightarrow> (\<forall>c. Some c \<in> set cs \<longrightarrow> config_printable c)"
    (is "returns (concat_of ?f _) \<longleftrightarrow> _")
proof -
  have "returns (?f (i, x)) \<longleftrightarrow> (\<forall>c. x = Some c \<longrightarrow> config_printable c)"
    if "(i, x) \<in> set (enumerate 0 cs)" for i x
  proof (cases x)
    case (Some c)
    with that assms(3) have "config_read c" by (auto simp: in_set_enumerate_eq) (metis nth_mem)
    with Some show ?thesis
      by (simp add: returns_then_const [OF returns_active [OF assms(1)]] config_print_returns [OF _ assms(2)])
  qed simp
  then have "returns (concat_of ?f (enumerate 0 cs)) \<longleftrightarrow>
      (\<forall>(i, x)\<in>set (enumerate 0 cs). \<forall>c. x = Some c \<longrightarrow> config_printable c)"
    unfolding returns_concat_of by (intro ball_cong refl) auto
  also have "\<dots> \<longleftrightarrow> (\<forall>c. Some c \<in> set cs \<longrightarrow> config_printable c)"
    by (subst ball_enumerate_snd) auto
  finally show ?thesis .
qed

lemma returns_qualifier_print:
  assumes "configs_read dv" "nameable dv" "dv_qualifier dv = Some q"
  shows "returns (qualifier_print (Some dv) tabs q) \<longleftrightarrow>
    (\<forall>c. Some c \<in> set (q_configurations q) \<longrightarrow> config_printable c)"
proof -
  let ?f = "\<lambda>c. case c of None \<Rightarrow> Inr [] | Some c \<Rightarrow>
      and_then (get_active_configuration dv) (\<lambda>_. config_print (Some dv) (tabs + 1) False c)"
  have read: "config_read c" if "Some c \<in> set (q_configurations q)" for c
    using that assms(1,3) by (auto simp: configs_read_def)
  have "returns (?f x) \<longleftrightarrow> (\<forall>c. x = Some c \<longrightarrow> config_printable c)" if "x \<in> set (q_configurations q)" for x
  proof (cases x)
    case (Some c)
    with that read show ?thesis
      by (simp add: returns_then_const [OF returns_active [OF assms(1)]] config_print_returns [OF _ assms(2)])
  qed simp
  then have "returns (concat_of ?f (q_configurations q)) \<longleftrightarrow>
      (\<forall>c. Some c \<in> set (q_configurations q) \<longrightarrow> config_printable c)"
    unfolding returns_concat_of by auto
  moreover have "first_n (q_configurations q) (unat (dq_bNumConfigurations (q_descriptor q))) =
      Inr (q_configurations q)"
    using assms(1,3) by (simp add: configs_read_def)
  moreover have "length (qualifier_struct (q_descriptor q)) = 10" by (simp add: qualifier_struct_def)
  ultimately show ?thesis
    unfolding qualifier_print_def by (subst returns_seq [OF returns_map]) (simp add: returns_hex_line)
qed

lemma device_print_returns:
  assumes "configs_read dv" "nameable dv"
  shows "returns (device_print tabs dv) \<longleftrightarrow> list_all config_printable (all_configs dv)"
proof -
  let ?d = "dv_descriptor dv"
  define name where "name = (\<lambda>i label. if i = 0 then Inr []
      else and_then (get_descriptor_string dv i 0) (name_line tabs label))"
  have name: "returns (name i label)" for i label
  proof -
    obtain l where l: "and_then (zero_string dv) (\<lambda>z. w_data z 0) = Inr l"
      using assms(2) by (auto simp: nameable_def returns_def)
    obtain s where "get_string dv i l = Inr s" "\<forall>s'. s = Some s' \<longrightarrow> returns (get_ascii s')"
      using assms(2) unfolding nameable_def by blast
    with l show ?thesis by (simp add: name_def get_descriptor_string_def returns_name_line)
  qed
  let ?configs = "and_then (first_n (dv_configurations dv) (unat (dd_bNumConfigurations ?d)))
      (\<lambda>cs. concat_of (\<lambda>(i, c). case c of None \<Rightarrow> Inr []
         | Some c \<Rightarrow> and_then (get_active_configuration dv) (\<lambda>_.
             config_print (Some dv) (tabs + 1) (is_active dv i) c)) (enumerate 0 cs))"
  let ?q = "case dv_qualifier dv of None \<Rightarrow> Inr [] | Some q \<Rightarrow> qualifier_print (Some dv) tabs q"
  have n: "length (dv_configurations dv) = unat (dd_bNumConfigurations ?d)"
    and read: "\<forall>c. Some c \<in> set (dv_configurations dv) \<longrightarrow> config_read c"
    using assms(1) by (simp_all add: configs_read_def)
  have "returns (device_print tabs dv) \<longleftrightarrow>
      returns (hex_line tabs (ascii ''Device: '') (device_struct ?d)) \<and>
      returns (name (dd_iManufacturer ?d) ''  Manufacturer: '') \<and>
      returns (name (dd_iProduct ?d) ''  Product:      '') \<and>
      returns (name (dd_iSerialNumber ?d) ''  Serial:       '') \<and> returns ?configs \<and> returns ?q"
    unfolding device_print_def Let_def name_def by (rule returns_seq)+ (rule returns_map)
  also have "\<dots> \<longleftrightarrow> returns ?configs \<and> returns ?q"
    by (simp add: returns_hex_line name)
  also have "returns ?configs \<longleftrightarrow> (\<forall>c. Some c \<in> set (dv_configurations dv) \<longrightarrow> config_printable c)"
    using returns_configs [OF assms read] by (simp add: n)
  also have "returns ?q \<longleftrightarrow>
      (\<forall>q. dv_qualifier dv = Some q \<longrightarrow> (\<forall>c. Some c \<in> set (q_configurations q) \<longrightarrow> config_printable c))"
    using returns_qualifier_print [OF assms] by (cases "dv_qualifier dv") simp_all
  finally show ?thesis
    by (cases "dv_qualifier dv") (auto simp: all_configs_def list_all_iff set_somes)
qed

section \<open>Properties\<close>


text \<open>Two devices with one interface and one endpoint: its descriptor has seven bytes, or the nine of an
  audio endpoint.\<close>

definition one_endpoint :: "u8 \<Rightarrow> device" where
  "one_endpoint len =
     (device_of_descriptor
        \<lparr>dd_bLength = 18, dd_bDescriptorType = USB_DT_DEVICE, dd_bcdUSB = 0x200, dd_bDeviceClass = 0,
         dd_bDeviceSubClass = 0, dd_bDeviceProtocol = 0, dd_bMaxPacketSize0 = 64, dd_idVendor = 1,
         dd_idProduct = 2, dd_bcdDevice = 0, dd_iManufacturer = 0, dd_iProduct = 0, dd_iSerialNumber = 0,
         dd_bNumConfigurations = 1\<rparr>)
     \<lparr>dv_configurations :=
        [Some ((new_config 25 1 1 0 0x80 50 False)
           \<lparr>cf_groups := [Some \<lparr>ig_number = 0, ig_alternateCount = 1, ig_activeAlternateIndex = 0,
              ig_interfaces = [Some ((new_iface 0 0 1 1 2 0 0)
                \<lparr>if_endpoints := [Some ((new_endpoint 1 1 192 1)\<lparr>ep_bLength := len\<rparr>)]\<rparr>)]\<rparr>]\<rparr>)]\<rparr>"

lemma one_endpoint_read: "configs_read (one_endpoint len)" "nameable (one_endpoint len)"
proof -
  show "configs_read (one_endpoint len)"
    by (simp add: configs_read_def one_endpoint_def device_of_descriptor_def config_read_def config_wf_def
        igroup_wf_def iface_read_def iface_wf_def new_iface_def iface_of_descriptor_def new_endpoint_def
        new_config_def config_of_descriptor_def)
  have z: "get_ascii (string_of_units 0 [0x0409] 0 0) = Inr [0x3f]" "w_data (string_of_units 0 [0x0409] 0 0) 0 = Inr 0x0409"
    by code_simp+
  then show "nameable (one_endpoint len)"
    by (auto simp: nameable_def one_endpoint_def device_of_descriptor_def zero_string_def get_string_def
        word_less_nat_alt unat_eq_0)
qed


text \<open>The listing of the first of them.\<close>

lemma listing_text:
  "device_print 0 (one_endpoint 7) = Inr (concat (map (\<lambda>(t, l). replicate t 9 @ ascii l @ [10])
     [(0, ''Device: 12 01 00 02 00 00 00 40 01 00 02 00 00 00 00 00 00 01''),
      (1, '' Config(1): 09 02 19 00 01 01 00 80 32''),
      (2, ''Interface(0):''),
      (3, ''*Alt(0): 09 04 00 00 01 01 02 00 00''),
      (4, ''EP(01): 07 05 01 01 c0 00 01'')]))"
  by code_simp

end
