(* ===== verification/Teardown.thy ===== *)
theory Teardown
  imports Device_Model
begin

text \<open>
  The destructors of the object model (\<open>Interface.cpp\<close>, \<open>InterfaceGroup.cpp\<close>, \<open>Configuration.cpp\<close>,
  \<open>DeviceQualifier.cpp\<close>, \<open>Device.cpp\<close>): which objects they release, in which order; and the
  constructor of a device from given fields.
\<close>

section \<open>Objects\<close>

text \<open>A released object, by what it holds; a string by its identity.\<close>

datatype part =
    PEndpoint endpoint_descriptor | PHid bytes | PGeneric bytes | PInterface interface_descriptor
  | PGroup u8 | PConfig config_descriptor | PQualifier qualifier_descriptor | PString nat

text \<open>\<open>delete\<close> of a pointer that may be NULL: first the destructor, then the object itself.\<close>

definition delete_part :: "('a \<Rightarrow> part list res) \<Rightarrow> ('a \<Rightarrow> part) \<Rightarrow> 'a option \<Rightarrow> part list res" where
  "delete_part destructor part p =
     (case p of None \<Rightarrow> Inr [] | Some x \<Rightarrow> and_then (destructor x) (\<lambda>ps. Inr (ps @ [part x])))"

section \<open>Destructors\<close>

definition delete_iface :: "iface \<Rightarrow> part list res" where
  "delete_iface ic =
     and_then (and_then (the_endpoints ic) (concat_of (delete_part (\<lambda>_. Inr []) PEndpoint))) (\<lambda>eps.
       and_then (delete_part (\<lambda>_. Inr []) PHid (if_hid ic)) (\<lambda>hid.
         Inr (eps @ hid @ map PGeneric (if_generics ic))))"

definition delete_igroup :: "igroup \<Rightarrow> part list res" where
  "delete_igroup g =
     and_then (the_interfaces g) (concat_of (delete_part delete_iface (\<lambda>ic. PInterface (if_descriptor ic))))"

definition delete_config :: "config \<Rightarrow> part list res" where
  "delete_config c =
     and_then (the_groups c) (concat_of (delete_part delete_igroup (\<lambda>g. PGroup (ig_number g))))"

definition delete_qualifier :: "qualifier \<Rightarrow> part list res" where
  "delete_qualifier q =
     and_then (first_n (q_configurations q) (unat (dq_bNumConfigurations (q_descriptor q))))
       (concat_of (delete_part delete_config (\<lambda>c. PConfig (cf_descriptor c))))"

text \<open>A string that is in the table twice is deleted twice.\<close>

definition delete_device :: "device \<Rightarrow> part list res" where
  "delete_device dv =
     and_then (delete_part delete_qualifier (\<lambda>q. PQualifier (q_descriptor q)) (dv_qualifier dv)) (\<lambda>q.
       and_then (and_then (first_n (dv_configurations dv) (unat (dd_bNumConfigurations (dv_descriptor dv))))
           (concat_of (delete_part delete_config (\<lambda>c. PConfig (cf_descriptor c))))) (\<lambda>cs.
         if distinct (deleted_strings dv) then Inr (q @ cs @ map PString (deleted_strings dv))
         else Inl UseAfterFree))"

definition set_device_qualifier :: "device \<Rightarrow> qualifier option \<Rightarrow> (part list \<times> device) res" where
  "set_device_qualifier dv q =
     and_then (delete_part delete_qualifier (\<lambda>q. PQualifier (q_descriptor q)) (dv_qualifier dv)) (\<lambda>ps.
       Inr (ps, dv\<lparr>dv_qualifier := q\<rparr>))"

section \<open>A device from fields\<close>

definition new_device ::
  "u16 \<Rightarrow> u8 \<Rightarrow> u8 \<Rightarrow> u8 \<Rightarrow> u8 \<Rightarrow> u16 \<Rightarrow> u16 \<Rightarrow> u16 \<Rightarrow> u8 \<Rightarrow> u8 \<Rightarrow> u8 \<Rightarrow> u8 \<Rightarrow> device" where
  "new_device bcdUSB bDeviceClass bDeviceSubClass bDeviceProtocol bMaxPacketSize0 idVendor idProduct
     bcdDevice iManufacturer iProduct iSerialNumber bNumConfigurations =
     \<lparr>dv_descriptor =
        \<lparr>dd_bLength = 18, dd_bDescriptorType = USB_DT_DEVICE, dd_bcdUSB = bcdUSB, dd_bDeviceClass = bDeviceClass,
         dd_bDeviceSubClass = bDeviceSubClass, dd_bDeviceProtocol = bDeviceProtocol,
         dd_bMaxPacketSize0 = bMaxPacketSize0, dd_idVendor = idVendor, dd_idProduct = idProduct,
         dd_bcdDevice = bcdDevice, dd_iManufacturer = iManufacturer, dd_iProduct = iProduct,
         dd_iSerialNumber = iSerialNumber, dd_bNumConfigurations = bNumConfigurations\<rparr>,
      dv_configurations = replicate (unat bNumConfigurations) None,
      dv_strings = [Some [string_of_units 0 [0x0409] 0 0]], dv_maxStringIdx = 0, dv_qualifier = None,
      dv_deviceConfigurationIndex = -1, dv_deviceAddress = 0, dv_highspeed = False, dv_next_id = 1\<rparr>"

section \<open>Everything is released\<close>

text \<open>What hangs on each object.\<close>

definition iface_objects :: "iface \<Rightarrow> part list" where
  "iface_objects ic =
     map PEndpoint (somes (if_endpoints ic)) @ (case if_hid ic of None \<Rightarrow> [] | Some h \<Rightarrow> [PHid h])
     @ map PGeneric (if_generics ic)"

definition igroup_objects :: "igroup \<Rightarrow> part list" where
  "igroup_objects g = concat (map (\<lambda>ic. iface_objects ic @ [PInterface (if_descriptor ic)]) (somes (ig_interfaces g)))"

definition config_objects :: "config \<Rightarrow> part list" where
  "config_objects c = concat (map (\<lambda>g. igroup_objects g @ [PGroup (ig_number g)]) (somes (cf_groups c)))"

definition configs_objects :: "config option list \<Rightarrow> part list" where
  "configs_objects cs = concat (map (\<lambda>c. config_objects c @ [PConfig (cf_descriptor c)]) (somes cs))"

lemma delete_parts:
  assumes "\<And>x. Some x \<in> set ps \<Longrightarrow> destructor x = Inr (parts x)"
  shows "concat_of (delete_part destructor part) ps =
    Inr (concat (map (\<lambda>x. parts x @ [part x]) (somes ps)))"
  using assms
  by (induction ps) (auto simp: delete_part_def somes_def split: option.split)

lemma delete_iface_wf: "iface_wf ic \<Longrightarrow> delete_iface ic = Inr (iface_objects ic)"
  using delete_parts [of "if_endpoints ic" "\<lambda>_. Inr []" "\<lambda>_. []" PEndpoint]
  by (simp add: delete_iface_def iface_objects_def delete_part_def split: option.split)

lemma delete_igroup_wf: "igroup_wf g \<Longrightarrow> delete_igroup g = Inr (igroup_objects g)"
  using delete_parts [of "ig_interfaces g" delete_iface iface_objects "\<lambda>ic. PInterface (if_descriptor ic)"]
  by (simp add: delete_igroup_def igroup_objects_def igroup_wf_def delete_iface_wf)

lemma delete_config_wf: "config_wf c \<Longrightarrow> delete_config c = Inr (config_objects c)"
  using delete_parts [of "cf_groups c" delete_igroup igroup_objects "\<lambda>g. PGroup (ig_number g)"]
  by (simp add: delete_config_def config_objects_def config_wf_def delete_igroup_wf)

lemma delete_configs_wf:
  "\<forall>c. Some c \<in> set cs \<longrightarrow> config_wf c \<Longrightarrow>
   concat_of (delete_part delete_config (\<lambda>c. PConfig (cf_descriptor c))) cs = Inr (configs_objects cs)"
  using delete_parts [of cs delete_config config_objects "\<lambda>c. PConfig (cf_descriptor c)"]
  by (simp add: configs_objects_def delete_config_wf)

definition configurations_wf :: "config option list \<Rightarrow> u8 \<Rightarrow> bool" where
  "configurations_wf cs n \<longleftrightarrow> length cs = unat n \<and> (\<forall>c. Some c \<in> set cs \<longrightarrow> config_wf c)"

lemma device_teardown:
  assumes "configurations_wf (dv_configurations dv) (dd_bNumConfigurations (dv_descriptor dv))"
    and "\<And>q. dv_qualifier dv = Some q \<Longrightarrow>
      configurations_wf (q_configurations q) (dq_bNumConfigurations (q_descriptor q))"
  shows "delete_device dv =
    (if distinct (deleted_strings dv) then
       Inr ((case dv_qualifier dv of None \<Rightarrow> []
             | Some q \<Rightarrow> configs_objects (q_configurations q) @ [PQualifier (q_descriptor q)])
            @ configs_objects (dv_configurations dv) @ map PString (deleted_strings dv))
     else Inl UseAfterFree)"
proof -
  have "delete_part delete_qualifier (\<lambda>q. PQualifier (q_descriptor q)) (dv_qualifier dv) =
      Inr (case dv_qualifier dv of None \<Rightarrow> []
           | Some q \<Rightarrow> configs_objects (q_configurations q) @ [PQualifier (q_descriptor q)])"
    using assms(2)
    by (cases "dv_qualifier dv")
      (simp_all add: delete_part_def delete_qualifier_def configurations_wf_def delete_configs_wf)
  with assms(1) show ?thesis
    by (simp add: delete_device_def configurations_wf_def delete_configs_wf)
qed

text \<open>A device from fields, and one from a descriptor, start alike.\<close>

lemma new_device_of_descriptor:
  "new_device (dd_bcdUSB d) (dd_bDeviceClass d) (dd_bDeviceSubClass d) (dd_bDeviceProtocol d)
     (dd_bMaxPacketSize0 d) (dd_idVendor d) (dd_idProduct d) (dd_bcdDevice d) (dd_iManufacturer d)
     (dd_iProduct d) (dd_iSerialNumber d) (dd_bNumConfigurations d) =
   device_of_descriptor (d\<lparr>dd_bLength := 18, dd_bDescriptorType := USB_DT_DEVICE\<rparr>)"
  by (simp add: new_device_def device_of_descriptor_def)

end
