(* ===== verification/Builtin_Device.thy ===== *)
theory Builtin_Device
  imports Enumeration Print_Model Teardown
begin

text \<open>
  A run with the loopback proxy: the device that the manager reads from it, the listing that it prints,
  and the end of the device.
\<close>

definition loopback_device :: "device res" where
  "loopback_device =
     and_then (device_from_proxy 512 lb_creq (\<lambda>_. 1) (\<lambda>_. False) loopback_of_config) (\<lambda>(dv, d). Inr dv)"

definition listing_lines :: "(nat \<times> string) list \<Rightarrow> u8 list" where
  "listing_lines ls = concat (map (\<lambda>(t, l). replicate t 9 @ ascii l @ [10]) ls)"


text \<open>The destructor of the device deletes each entry of its string table. The loopback proxy gives its
  configuration and its interface the same string number, for which the table is filled twice with one
  object, so that the end of the device deletes that object again.\<close>
lemma loopback_device_deleted_twice: "and_then loopback_device delete_device = Inl UseAfterFree"
  by code_simp

end
