(* ===== verification/Log_Files.thy ===== *)
theory Log_Files
  imports Mitm Log_Filters
begin

text \<open>
  The files of the two logging filters (\<open>PacketFilter_StreamLog.cpp\<close>, \<open>PacketFilter_KeyLogger.cpp\<close>): their
  constructors take a pointer from the settings, which the options \<open>-l\<close> and \<open>-k\<close> of \<open>usb-mitm.cpp\<close> put
  there. \<open>'p\<close> are files; NULL is \<open>None\<close>.
\<close>

section \<open>Code\<close>

definition new_stream_log :: "'p config_parser \<Rightarrow> 'p option" where
  "new_stream_log cfg = get_pointer ''PacketFilter_StreamLog::file'' cfg"

definition key_logger_file :: "'p config_parser \<Rightarrow> 'p option" where
  "key_logger_file cfg = get_pointer ''PacketFilter_KeyLogger::file'' cfg"

text \<open>\<open>fprintf\<close> to a file.\<close>

definition write_to :: "'p option \<Rightarrow> bytes \<Rightarrow> ('p \<times> bytes) res" where
  "write_to file t = and_then (deref file) (\<lambda>f. Inr (f, t))"

definition stream_log_write :: "'p option \<Rightarrow> packet \<Rightarrow> ('p \<times> bytes) option res" where
  "stream_log_write file p =
     (if unat (pk_wLength p) \<le> 64 then
        and_then (stream_log_packet p) (\<lambda>t. and_then (write_to file t) (\<lambda>w. Inr (Some w)))
      else Inr None)"

definition stream_log_write_setup :: "'p option \<Rightarrow> setup_packet \<Rightarrow> ('p \<times> bytes) res" where
  "stream_log_write_setup file p = and_then (stream_log_setup p) (write_to file)"

section \<open>The pointers that the options leave\<close>

fun key_file :: "'p mitm_env \<Rightarrow> mitm_opt \<Rightarrow> 'p option \<Rightarrow> 'p option" where
  "key_file env (OptKeyLogger None) f = Some (me_stderr env)"
| "key_file env (OptKeyLogger (Some arg)) f = me_fopen env arg"
| "key_file env x f = f"

lemma pointer_other [simp]:
  "get_pointer k (cp_set key v c) = get_pointer k c"
  "get_pointer k (add_to_vector key v c) = get_pointer k c"
  "get_pointer k (add_pointer key p c) = (if k = key then Some p else get_pointer k c)"
  by (simp_all add: get_pointer_def cp_set_def add_to_vector_def add_pointer_def split: option.split)

lemma parse_file_pointers [simp]: "get_pointer k (parse_file file c) = get_pointer k c"
proof -
  have "get_pointer k (parse_lines ls c) = get_pointer k c" for ls
    by (induction ls arbitrary: c) (auto split: option.split)
  then show ?thesis by (simp add: parse_file_def split: option.split)
qed

lemma option_pointers:
  assumes "mitm_option env x mi = Some mi'"
  shows "get_pointer ''PacketFilter_StreamLog::file'' (mi_cfg mi') =
      (if x = OptLog then Some (me_stderr env) else get_pointer ''PacketFilter_StreamLog::file'' (mi_cfg mi))"
    and "get_pointer ''PacketFilter_KeyLogger::file'' (mi_cfg mi') =
      key_file env x (get_pointer ''PacketFilter_KeyLogger::file'' (mi_cfg mi))"
  using assms by (cases "(env, x, mi)" rule: mitm_option.cases; auto split: option.splits)+

lemma options_pointers:
  "mitm_options env opts mi = Some mi' \<Longrightarrow>
   get_pointer ''PacketFilter_StreamLog::file'' (mi_cfg mi') =
     (if OptLog \<in> set opts then Some (me_stderr env) else get_pointer ''PacketFilter_StreamLog::file'' (mi_cfg mi)) \<and>
   get_pointer ''PacketFilter_KeyLogger::file'' (mi_cfg mi') =
     fold (key_file env) opts (get_pointer ''PacketFilter_KeyLogger::file'' (mi_cfg mi))"
  by (induction opts arbitrary: mi) (auto simp: option_pointers split: option.splits)

lemma settings_pointers:
  assumes "mitm_settings env opts = Some cfg"
  shows "new_stream_log cfg = (if OptLog \<in> set opts then Some (me_stderr env) else None)"
    and "key_logger_file cfg = fold (key_file env) opts None"
proof -
  obtain mi where mi: "mitm_options env opts new_mitm = Some mi" "cfg = mitm_proxies mi"
    using assms by (auto simp: mitm_settings_def)
  have p: "get_pointer k cfg = get_pointer k (mi_cfg mi)" for k
    by (simp add: mi(2) mitm_proxies_def Let_def)
  have "get_pointer k (mi_cfg (new_mitm :: 'a mitm)) = None" for k
    by (simp add: new_mitm_def new_config_parser_def get_pointer_def)
  with options_pointers [OF mi(1)] p
  show "new_stream_log cfg = (if OptLog \<in> set opts then Some (me_stderr env) else None)"
    "key_logger_file cfg = fold (key_file env) opts None"
    by (simp_all add: new_stream_log_def key_logger_file_def)
qed

section \<open>Properties\<close>

text \<open>The stream log that the option \<open>-l\<close> loads writes its lines to the standard error; loaded by its
  name (\<open>-P PacketFilter_StreamLog\<close>, whatever else is asked for, files of settings included) it has no
  file, and the first packet of at most 64 bytes follows a null pointer.\<close>

theorem stream_log_needs_option:
  assumes "mitm_settings env opts = Some cfg" "unat (pk_wLength p) \<le> 64" "stream_log_packet p = Inr t"
  shows "stream_log_write (new_stream_log cfg) p =
    (if OptLog \<in> set opts then Inr (Some (me_stderr env, t)) else Inl NullDeref)"
  using settings_pointers(1) [OF assms(1)] assms(2,3) by (simp add: stream_log_write_def write_to_def)

theorem stream_log_needs_option_witness:
  "\<exists>cfg cfg'. mitm_settings sample_env [OptPlugin ''PacketFilter_StreamLog''] = Some cfg \<and>
    stream_log_write (new_stream_log cfg) (new_packet 1 (Some [5]) 1) = Inl NullDeref \<and>
    mitm_settings sample_env [OptLog] = Some cfg' \<and>
    stream_log_write (new_stream_log cfg') (new_packet 1 (Some [5]) 1) =
      Inr (Some (me_stderr sample_env, ascii ''01[1]: 05'' @ [10]))"
proof -
  obtain cfg where 1: "mitm_settings sample_env [OptPlugin ''PacketFilter_StreamLog''] = Some cfg"
    by (simp add: mitm_settings_def)
  obtain cfg' where 2: "mitm_settings sample_env [OptLog] = Some cfg'"
    by (simp add: mitm_settings_def)
  have p: "unat (pk_wLength (new_packet 1 (Some [5]) 1)) \<le> 64"
    "stream_log_packet (new_packet 1 (Some [5]) 1) = Inr (ascii ''01[1]: 05'' @ [10])"
    by code_simp+
  show ?thesis
    using 1 2 stream_log_needs_option [OF 1 p] stream_log_needs_option [OF 2 p] by simp
qed

end
