(* ===== verification/Proxy_Life.thy ===== *)
theory Proxy_Life
  imports Loopback GadgetFS_Model Injector_Model
begin

text \<open>
  The ends of a device proxy, a host proxy and an injector: the destructors of
  \<open>DeviceProxy_Loopback.cpp\<close>, \<open>HostProxy_GadgetFS.cpp\<close> and \<open>Injector_UDP.cpp\<close>.
\<close>

section \<open>Loopback\<close>

text \<open>The strings are in a static table with the index of the last; the destructor deletes those before
  that index and then the table. The result is the strings that it leaves on the heap.\<close>

definition stringMaxIndex :: nat where
  "stringMaxIndex = unat STRING_LOOPBACK"

definition delete_loopback :: "loopback \<Rightarrow> usb_string list \<times> loopback" where
  "delete_loopback lb =
     (drop stringMaxIndex (lb_strings lb), (lb_disconnect lb)\<lparr>lb_strings := []\<rparr>)"

lemma last_string_leaks:
  "map us_index (fst (delete_loopback loopback_of_config)) = [STRING_LOOPBACK]"
  by code_simp

lemma delete_loopback_releases:
  "delete_loopback lb = (left, lb') \<Longrightarrow> lb_buffer lb' = None \<and> \<not> lb_is_connected lb'"
  by (auto simp: delete_loopback_def lb_disconnect_def)

section \<open>GadgetFS\<close>

definition delete_gadget :: "gadget \<Rightarrow> gadget" where
  "delete_gadget g =
     (let g1 = if g_connected g then gadget_disconnect g else g in g1\<lparr>g_descriptor := None\<rparr>)"

text \<open>All control blocks of a connected proxy are released; one that has not been connected keeps none
  when it had none.\<close>

lemma delete_gadget_releases:
  assumes "g_connected g \<or> (g_in g = replicate 16 None \<and> g_out g = replicate 16 None \<and> g_file g = 0)"
  shows "g_descriptor (delete_gadget g) = None \<and> g_in (delete_gadget g) = replicate 16 None \<and>
    g_out (delete_gadget g) = replicate 16 None \<and> g_file (delete_gadget g) = 0"
  using assms by (auto simp: delete_gadget_def gadget_disconnect_def Let_def)

section \<open>UDP injector\<close>

definition delete_udp :: "udp_socket \<Rightarrow> udp_socket" where
  "delete_udp us =
     (let us1 = if us_sck us \<noteq> 0 then us\<lparr>us_sck := 0\<rparr> else us in
      if us_buf us1 \<noteq> None then us1\<lparr>us_buf := None\<rparr> else us1)"

lemma delete_udp_stops: "delete_udp us = udp_stop us"
  by (simp add: delete_udp_def udp_stop_def Let_def)

end
