(* ===== verification/Terminal.thy ===== *)
theory Terminal
  imports Mitm Log_Filters "HOL-Library.List_Lexorder" "HOL-Library.Char_ord"
begin

text \<open>
  What the tool and the manager write to a terminal for its own sake: the help of \<open>usb-mitm.cpp\<close>, the
  listing of the settings (\<open>ConfigParser::print_config\<close>), and the spinner of \<open>Manager.cpp\<close>.
\<close>

section \<open>Help\<close>

text \<open>The argument of \<open>getopt\<close>, and the lines that \<open>usage\<close> prints (\<open>\\t\<close> before each of the options).\<close>

definition getopt_options :: string where
  "getopt_options = ''v:p:P:D:H:dsc:C:lmik::w:hx''"

definition usage_options :: "string list" where
  "usage_options =
     [''-v <vendorId> VendorID of target device'',
      ''-p <productId> ProductID of target device'',
      ''-P <PluginName> Use PluginName (order is preserved)'',
      ''-D <DeviceProxy> Use DeviceProxy'',
      ''-H <HostProxy> Use HostProxy'',
      ''-d Enable debug messages (-dd for increased verbosity)'',
      ''-s Server mode, listen on port 10400'',
      ''-c <hostname | address> Client mode, connect to server at hostname or address'',
      ''-l Enable stream logger (logs to stderr)'',
      ''-i Enable UDP injector'',
      ''-x Enable Xbox360 UDPHID injector & filter'',
      ''-k Keylogger with ROT13 filter (for demo), specify optional filename to output to instead of stderr'',
      ''-w <filename> Write to pcap file for viewing in Wireshark'',
      ''-h Display this message'']"

definition mitm_usage :: "string \<Rightarrow> bytes" where
  "mitm_usage arg =
     ascii ''usb-mitm - command line tool for controlling USBProxy'' @ [0x0A]
     @ ascii ''Usage: '' @ ascii arg @ ascii '' [OPTIONS]'' @ [0x0A]
     @ ascii ''Options:'' @ [0x0A]
     @ concat (map (\<lambda>l. [0x09] @ ascii l @ [0x0A]) usage_options)"

text \<open>The letters that \<open>getopt\<close> knows, and those of the help.\<close>

definition known_letters :: "char list" where
  "known_letters = filter (\<lambda>c. c \<noteq> CHR '':'') getopt_options"

definition documented_letters :: "char list" where
  "documented_letters = map (\<lambda>l. l ! 1) usage_options"

lemma undocumented_options:
  "distinct known_letters \<and> distinct documented_letters \<and> set documented_letters \<subseteq> set known_letters \<and>
   filter (\<lambda>c. c \<notin> set documented_letters) known_letters = [CHR ''C'', CHR ''m'']"
  by code_simp

section \<open>Settings\<close>

text \<open>A map is printed in the order of its keys; a pointer is an address, which \<open>show_pointer\<close> writes.\<close>

definition keys :: "(string \<Rightarrow> 'a option) \<Rightarrow> string list" where
  "keys m = sorted_list_of_set (dom m)"

definition print_map :: "(string \<Rightarrow> 'a option) \<Rightarrow> (string \<Rightarrow> 'a \<Rightarrow> bytes) \<Rightarrow> bytes" where
  "print_map m entry = concat (map (\<lambda>k. entry k (the (m k))) (keys m))"

definition print_config :: "('p \<Rightarrow> bytes) \<Rightarrow> 'p config_parser \<Rightarrow> bytes" where
  "print_config show_pointer c =
     ascii ''Printing Config data'' @ [0x0A]
     @ [0x09] @ ascii ''Strings: '' @ decimal (length (keys (cp_strings c))) @ [0x0A]
     @ print_map (cp_strings c) (\<lambda>k v. [0x09, 0x09] @ ascii k @ ascii '': '' @ ascii v @ [0x0A])
     @ [0x09] @ ascii ''Vectors: '' @ decimal (length (keys (cp_vectors c))) @ [0x0A]
     @ print_map (cp_vectors c) (\<lambda>k vs. [0x09, 0x09] @ ascii k @ ascii '':'' @ [0x0A]
         @ concat (map (\<lambda>v. [0x09, 0x09, 0x09] @ ascii v @ [0x0A]) vs))
     @ ascii ''Pointer: '' @ decimal (length (keys (cp_pointers c))) @ [0x0A]
     @ print_map (cp_pointers c) (\<lambda>k p. [0x09, 0x09] @ ascii k @ ascii '': '' @ show_pointer p @ [0x0A])"

text \<open>A new key appears at its place, and every key once.\<close>

lemma keys_upd:
  assumes "finite (dom m)"
  shows "keys (m(k \<mapsto> v)) = (if k \<in> dom m then keys m else insort k (keys m))"
proof (cases "k \<in> dom m")
  case True
  then have "dom (m(k \<mapsto> v)) = dom m" by auto
  with True show ?thesis by (simp add: keys_def)
next
  case False
  with assms show ?thesis by (simp add: keys_def)
qed

lemma keys_distinct: "distinct (keys m)"
  by (simp add: keys_def)

lemma keys_empty [simp]: "keys Map.empty = []"
  by (simp add: keys_def)

text \<open>The settings of a plain start.\<close>

lemma plain_settings_listing:
  "map_option (\<lambda>cfg. print_config (\<lambda>_. []) cfg) (mitm_settings env [OptVendor ''1d50'', OptLog]) =
     Some (concat (map (\<lambda>(t, l). replicate t 9 @ ascii l @ [10])
       [(0, ''Printing Config data''),
        (1, ''Strings: 3''),
        (2, ''DeviceProxy: DeviceProxy_LibUSB''),
        (2, ''HostProxy: HostProxy_GadgetFS''),
        (2, ''vendorId: 1d50''),
        (1, ''Vectors: 1''),
        (2, ''Plugins:''),
        (3, ''PacketFilter_StreamLog''),
        (0, ''Pointer: 1''),
        (2, ''PacketFilter_StreamLog::file: '')]))"
proof -
  have "map_option (\<lambda>cfg. (keys (cp_strings cfg), keys (cp_vectors cfg), keys (cp_pointers cfg)))
      (mitm_settings env [OptVendor ''1d50'', OptLog]) =
    Some ([''DeviceProxy'', ''HostProxy'', ''vendorId''], [''Plugins''], [''PacketFilter_StreamLog::file''])"
    by (simp add: mitm_settings_def mitm_proxies_def new_mitm_def new_config_parser_def cp_set_def
        add_to_vector_def add_pointer_def upd_cfg_def keys_upd)
  moreover have tabs: "replicate 2 (9::u8) = [9, 9]" "replicate 3 (9::u8) = [9, 9, 9]"
    by (simp_all add: numeral_eq_Suc)
  ultimately show ?thesis
    by (auto simp: mitm_settings_def mitm_proxies_def new_mitm_def new_config_parser_def cp_set_def
        add_to_vector_def add_pointer_def upd_cfg_def print_config_def print_map_def ascii_def tabs)
qed

section \<open>Spinner\<close>

text \<open>The static variable is -1 before the first character and then the index of the next one.\<close>

definition spinner :: "int \<Rightarrow> int \<Rightarrow> (bytes \<times> int) res" where
  "spinner dir i =
     (if dir = 0 then Inr ([], -1)
      else
        let (out, i) = (if i = -1 then ([], 0) else ([0x08], i)) in
        if i < 0 then Inl OutOfBounds
        else and_then (index (ascii ''|/-'' @ [0x5C]) (nat i)) (\<lambda>c.
          let i = i + dir; i = (if i < 0 then 3 else i) in Inr (out @ [c], if i > 3 then 0 else i)))"

lemma spinner_in_bounds:
  assumes "-1 \<le> i" "i \<le> 3"
  shows "\<exists>out j. spinner dir i = Inr (out, j) \<and> -1 \<le> j \<and> j \<le> 3"
proof -
  have "nat i < 4" "length (ascii ''|/-'' @ [0x5C]) = 4" using assms by (simp_all add: ascii_def)
  then show ?thesis using assms by (auto simp: spinner_def Let_def)
qed

end
