(* ===== verification/Tcp_Control.thy ===== *)
theory Tcp_Control
  imports Tcp_Proxies
begin

text \<open>
  Control transfers between the two TCP proxies (\<open>control_request\<close> of \<open>DeviceProxy_TCP.cpp\<close> and
  \<open>HostProxy_TCP.cpp\<close>, with \<open>send_data\<close>, \<open>control_ack\<close> and \<open>stall_ep\<close> of the latter) over the stream of
  endpoint 0: the device's side sends the request, the host's side polls for it and answers, the device's
  side waits for the answer. Neither side numbers its messages.
\<close>

section \<open>Code\<close>

text \<open>\<open>DeviceProxy_TCP::control_request\<close> up to the sending, and from the reading on.\<close>

definition control_send ::
  "(int \<Rightarrow> int) \<Rightarrow> tcp_proxy \<Rightarrow> usb_ctrlrequest \<Rightarrow> bytes option \<Rightarrow> wire \<Rightarrow> wire res" where
  "control_send peer px r dataptr w =
     and_then (tcp_request r dataptr) (\<lambda>buf. proxy_send_data peer (length buf) px 0 buf w)"

definition control_finish ::
  "tcp_proxy \<Rightarrow> usb_ctrlrequest \<Rightarrow> wire \<Rightarrow> ((int \<times> int option \<times> bytes) \<times> wire) res" where
  "control_finish px r w =
     and_then (the_network px) (\<lambda>tc. and_then (wait_readable tc 0 w) (\<lambda>(buf, w1).
       and_then (tcp_reply r buf) (\<lambda>result. Inr (result, w1))))"

definition host_control ::
  "tcp_proxy \<Rightarrow> wire \<Rightarrow> ((int \<times> (usb_ctrlrequest \<times> host_data \<times> int) option) \<times> wire) res" where
  "host_control px w =
     and_then (the_network px) (\<lambda>tc. and_then (wait_readable tc 0 w) (\<lambda>(buf, w1).
       and_then (host_control_request buf) (\<lambda>request. Inr (request, w1))))"

text \<open>The three ways in which the relay answers a request on the host's side.\<close>

datatype answer = SendData bytes | ControlAck | Stall

fun framed_answer :: "answer \<Rightarrow> bytes" where
  "framed_answer (SendData d) = host_send_data 0 d"
| "framed_answer ControlAck = host_control_ack"
| "framed_answer Stall = host_stall_ep 0"

definition host_answer :: "(int \<Rightarrow> int) \<Rightarrow> tcp_proxy \<Rightarrow> answer \<Rightarrow> wire \<Rightarrow> wire res" where
  "host_answer peer px a = proxy_send_data peer (length (framed_answer a)) px 0 (framed_answer a)"

text \<open>One transfer; \<open>None\<close> when the host's side does not answer before the device's side gives up.\<close>

definition control_transfer where
  "control_transfer peer peer' dp hp r ans w =
     and_then (control_send peer dp r None w) (\<lambda>w1. and_then (host_control hp w1) (\<lambda>(request, w2).
       and_then (case ans of None \<Rightarrow> Inr w2 | Some a \<Rightarrow> host_answer peer' hp a w2) (\<lambda>w3.
         and_then (control_finish dp r w3) (\<lambda>(result, w4). Inr (request, result, w4)))))"

section \<open>Specification\<close>

text \<open>What an answer means for a request: return code, \<open>nbytes\<close> and the bytes.\<close>

fun answer_result :: "usb_ctrlrequest \<Rightarrow> answer \<Rightarrow> int \<times> int option \<times> bytes" where
  "answer_result r (SendData d) = (0, Some (int (min (length d) (unat (cr_wLength r)))), take (unat (cr_wLength r)) d)"
| "answer_result r ControlAck = (0, Some 0, [])"
| "answer_result r Stall = (-1, None, [])"

section \<open>Lemmas\<close>

lemma reply_prefix:
  assumes "length (framed_answer a @ rest) \<le> TCP_BUFFER_SIZE"
  shows "tcp_reply r (Readable (framed_answer a @ rest)) = Inr (answer_result r a)"
proof -
  have "framed_answer a \<noteq> []" by (cases a) (simp_all add: host_send_data_def host_control_ack_def host_stall_ep_def)
  then have recv: "tcp_receive_data (Readable (framed_answer a @ rest)) (None, 0) =
      (Some (framed_answer a @ rest), int (length (framed_answer a @ rest)))"
    using assms by (intro tcp_receive_whole) simp_all
  show ?thesis
  proof (cases a)
    case (SendData d)
    then have n: "length d < 65536" using assms by (simp add: TCP_BUFFER_SIZE_def host_send_data_def)
    show ?thesis
      using recv SendData le16_of_nat [OF n] unat_of_nat_u16 [OF n] uint_of_nat_u16 [OF n]
      by (simp add: tcp_reply_def host_send_data_def word_less_nat_alt Let_def min_def)
  next
    case ControlAck
    with recv show ?thesis
      by (simp add: tcp_reply_def host_control_ack_def le16_def Let_def)
  next
    case Stall
    with recv show ?thesis by (simp add: tcp_reply_def host_stall_ep_def Let_def)
  qed
qed

text \<open>The two ends of endpoint 0.\<close>

definition fd0 :: "tcp_helper \<Rightarrow> int" where
  "fd0 tc = tc_socket tc ! endpoint_port 0"

lemma linked_index0:
  assumes "linked peer a b"
  shows "index (tc_socket a) (endpoint_port 0) = Inr (fd0 a)" "index (tc_socket b) (endpoint_port 0) = Inr (fd0 b)"
    "peer (fd0 a) = fd0 b"
proof -
  have "endpoint_port 0 < 32" by (simp add: endpoint_port_def)
  then show "index (tc_socket a) (endpoint_port 0) = Inr (fd0 a)" "index (tc_socket b) (endpoint_port 0) = Inr (fd0 b)"
    using assms by (simp_all add: linked_def fd0_def)
  have "peer (fd0 a) = map peer (tc_socket a) ! endpoint_port 0"
    using nth_map [of "endpoint_port 0" "tc_socket a" peer] assms \<open>endpoint_port 0 < 32\<close>
    by (simp only: linked_def fd0_def)
  also have "\<dots> = fd0 b" using assms by (simp only: linked_def fd0_def)
  finally show "peer (fd0 a) = fd0 b" .
qed

lemma host_control_in:
  assumes "is_in r"
  shows "host_control_request (Readable (ctrl_bytes r)) = Inr (1, Some (r, NoData, 0))"
proof -
  have "tcp_receive_data (Readable (ctrl_bytes r)) (None, 0) = (Some (ctrl_bytes r), 8)"
    using tcp_receive_whole [of "ctrl_bytes r"] by (simp add: TCP_BUFFER_SIZE_def ctrl_bytes_def)
  then show ?thesis
    using assms ctrl_of_bytes_inverse [of r "[]"] by (simp add: host_control_request_def is_in_def Let_def)
qed

lemma proxy_send0:
  "linked peer a b \<Longrightarrow> tp_network px = Some a \<Longrightarrow>
   proxy_send_data peer (length bs) px 0 bs w = Inr (w(fd0 b := w (fd0 b) @ bs))"
  by (simp add: proxy_send_data_def the_network_def tcp_send_data_def linked_index0)

lemma wait0:
  "linked peer a b \<Longrightarrow>
   wait_readable a 0 w =
     Inr (if w (fd0 a) = [] then (NotReady, w) else (Readable (w (fd0 a)), w(fd0 a := drop TCP_BUFFER_SIZE (w (fd0 a)))))"
  by (simp add: wait_readable_def linked_index0)

text \<open>A connection between the proxies, and what waits at its ends on endpoint 0.\<close>

definition tcp_link :: "(int \<Rightarrow> int) \<Rightarrow> (int \<Rightarrow> int) \<Rightarrow> tcp_proxy \<Rightarrow> tcp_proxy \<Rightarrow> tcp_helper \<Rightarrow> tcp_helper \<Rightarrow> bool" where
  "tcp_link peer peer' dp hp a b \<longleftrightarrow>
     linked peer a b \<and> linked peer' b a \<and> tp_network dp = Some a \<and> tp_network hp = Some b \<and> fd0 a \<noteq> fd0 b"

definition waiting :: "answer option \<Rightarrow> bytes" where
  "waiting late = (case late of None \<Rightarrow> [] | Some a \<Rightarrow> framed_answer a)"

lemma transfer_request:
  assumes "tcp_link peer peer' dp hp a b" "is_in r" "w (fd0 b) = []"
  shows "control_transfer peer peer' dp hp r ans w =
    and_then (case ans of None \<Rightarrow> Inr w | Some x \<Rightarrow> host_answer peer' hp x w) (\<lambda>w3.
      and_then (control_finish dp r w3) (\<lambda>(result, w4). Inr ((1, Some (r, NoData, 0)), result, w4)))"
proof -
  have l: "linked peer a b" "linked peer' b a" "tp_network dp = Some a" "tp_network hp = Some b"
    using assms(1) by (simp_all add: tcp_link_def)
  have ne: "ctrl_bytes r \<noteq> []" "drop TCP_BUFFER_SIZE (ctrl_bytes r) = []"
    by (simp_all add: ctrl_bytes_def TCP_BUFFER_SIZE_def)
  have "tcp_request r None = Inr (ctrl_bytes r)"
    using assms(2) by (simp add: tcp_request_def is_in_def)
  then have send: "control_send peer dp r None w = Inr (w(fd0 b := ctrl_bytes r))"
    using proxy_send0 [OF l(1,3)] assms(3) by (simp add: control_send_def)
  have "wait_readable b 0 (w(fd0 b := ctrl_bytes r)) = Inr (Readable (ctrl_bytes r), w)"
    using wait0 [OF l(2)] ne assms(3) by (simp add: fun_upd_idem)
  then have "host_control hp (w(fd0 b := ctrl_bytes r)) = Inr ((1, Some (r, NoData, 0)), w)"
    using host_control_in [OF assms(2)] l(4) by (simp add: host_control_def the_network_def)
  with send show ?thesis by (simp add: control_transfer_def)
qed

lemma finish_waiting:
  assumes "tcp_link peer peer' dp hp a b" "w (fd0 a) = waiting late @ framed_answer ans"
    and "length (w (fd0 a)) \<le> TCP_BUFFER_SIZE"
  shows "control_finish dp r w =
    Inr (answer_result r (case late of None \<Rightarrow> ans | Some a \<Rightarrow> a), w(fd0 a := []))"
proof -
  have l: "linked peer a b" "tp_network dp = Some a" using assms(1) by (simp_all add: tcp_link_def)
  have "framed_answer ans \<noteq> []"
    by (cases ans) (simp_all add: host_send_data_def host_control_ack_def host_stall_ep_def)
  then have "wait_readable a 0 w = Inr (Readable (w (fd0 a)), w(fd0 a := []))"
    using wait0 [OF l(1)] assms(2,3) by simp
  moreover have "tcp_reply r (Readable (w (fd0 a))) =
      Inr (answer_result r (case late of None \<Rightarrow> ans | Some a \<Rightarrow> a))"
  proof (cases late)
    case None
    with assms reply_prefix [of ans "[]"] show ?thesis by (simp add: waiting_def)
  next
    case (Some x)
    with assms reply_prefix [of x "framed_answer ans"] show ?thesis by (simp add: waiting_def)
  qed
  ultimately show ?thesis using l(2) by (simp add: control_finish_def the_network_def)
qed

lemma transfer_without_answer:
  assumes "tcp_link peer peer' dp hp a b" "is_in r" "w (fd0 b) = []" "w (fd0 a) = []"
  shows "control_transfer peer peer' dp hp r None w = Inr ((1, Some (r, NoData, 0)), (-1, None, []), w)"
proof -
  have l: "linked peer a b" "tp_network dp = Some a" using assms(1) by (simp_all add: tcp_link_def)
  have "control_finish dp r w = Inr ((-1, None, []), w)"
    using wait0 [OF l(1)] assms(4) l(2)
    by (simp add: control_finish_def the_network_def tcp_reply_def tcp_receive_data_def)
  then show ?thesis using transfer_request [OF assms(1,2), of w None] assms(3) by simp
qed

lemma transfer_with_answer:
  assumes "tcp_link peer peer' dp hp a b" "is_in r" "w (fd0 b) = []" "w (fd0 a) = waiting late"
    and "length (waiting late @ framed_answer ans) \<le> TCP_BUFFER_SIZE"
  shows "control_transfer peer peer' dp hp r (Some ans) w =
    Inr ((1, Some (r, NoData, 0)), answer_result r (case late of None \<Rightarrow> ans | Some a \<Rightarrow> a), w(fd0 a := []))"
proof -
  have l: "linked peer' b a" "tp_network hp = Some b" using assms(1) by (simp_all add: tcp_link_def)
  have "host_answer peer' hp ans w = Inr (w(fd0 a := waiting late @ framed_answer ans))"
    using proxy_send0 [OF l] assms(4) by (simp add: host_answer_def)
  moreover have "control_finish dp r (w(fd0 a := waiting late @ framed_answer ans)) =
      Inr (answer_result r (case late of None \<Rightarrow> ans | Some a \<Rightarrow> a), w(fd0 a := []))"
    using finish_waiting [OF assms(1), of "w(fd0 a := waiting late @ framed_answer ans)" late ans r] assms(5)
    by simp
  ultimately show ?thesis using transfer_request [OF assms(1,2), of w "Some ans"] assms(3) by simp
qed

section \<open>Properties\<close>



end
