(* ===== verification/Device_Lifetime.thy ===== *)
theory Device_Lifetime
  imports Builtin_Device
begin

text \<open>
  The life of a device model: what the constructor reads through a proxy, the destructor releases.
\<close>

section \<open>What is read\<close>

definition configs_counted :: "config option list \<Rightarrow> u8 \<Rightarrow> bool" where
  "configs_counted cs n \<longleftrightarrow> length cs = unat n \<and> (\<forall>c. Some c \<in> set cs \<longrightarrow> config_counted c)"

definition device_counted :: "device \<Rightarrow> bool" where
  "device_counted dv \<longleftrightarrow>
     configs_counted (dv_configurations dv) (dd_bNumConfigurations (dv_descriptor dv)) \<and>
     (\<forall>q. dv_qualifier dv = Some q \<longrightarrow>
        configs_counted (q_configurations q) (dq_bNumConfigurations (q_descriptor q)))"

text \<open>Strings are added to the table only.\<close>

lemma set_zero_string_descriptor [simp]: "dv_descriptor (set_zero_string dv s) = dv_descriptor dv"
  by (simp add: set_zero_string_def split: list.split option.split)

lemma add_language_descriptor: "add_language dv l = Inr dv' \<Longrightarrow> dv_descriptor dv' = dv_descriptor dv"
  by (auto simp: add_language_def and_then_eq_Inr split: if_splits)

lemma add_string_descriptor: "add_string dv s = Inr dv' \<Longrightarrow> dv_descriptor dv' = dv_descriptor dv"
  by (auto simp: add_string_def grow_strings_def Let_def and_then_eq_Inr
      dest: add_language_descriptor split: if_splits)

lemma add_string_lang_descriptor:
  "add_string_lang creq i l st = Inr st' \<Longrightarrow> dv_descriptor (fst st') = dv_descriptor (fst st)"
  by (auto simp: add_string_lang_def and_then_eq_Inr split: prod.splits dest!: add_string_descriptor)

lemma fold_res_keeps:
  assumes "fold_res f xs st = Inr st'" "\<And>x st st'. f x st = Inr st' \<Longrightarrow> g st' = g st"
  shows "g st' = g st"
  using assms(1) by (induction xs arbitrary: st) (auto simp: and_then_eq_Inr dest: assms(2))

lemma add_string_all_descriptor:
  assumes "add_string_all creq i st = Inr st'"
  shows "dv_descriptor (fst st') = dv_descriptor (fst st)"
proof -
  have "dv_descriptor (fst st1) = dv_descriptor (fst st)"
    if "and_then (w_data z k) (\<lambda>l. add_string_lang creq i l st) = Inr st1" for z k st st1
    using that by (auto simp: and_then_eq_Inr dest: add_string_lang_descriptor)
  then have keeps: "dv_descriptor (fst st1) = dv_descriptor (fst st)"
    if "fold_res (\<lambda>k st. and_then (w_data z k) (\<lambda>l. add_string_lang creq i l st)) ks st = Inr st1" for z ks st st1
    using fold_res_keeps [where g = "\<lambda>st. dv_descriptor (fst st)", OF that] by blast
  obtain dv d where st: "st = (dv, d)" by (cases st)
  then obtain row where row: "index (dv_strings dv) 0 = Inr row"
    using assms by (auto simp: add_string_all_def and_then_eq_Inr)
  show ?thesis
  proof (cases "row = None \<or> row = Some []")
    case True
    with assms st row show ?thesis by (auto simp: add_string_all_def)
  next
    case False
    then obtain z zs where "row = Some (z # zs)" by (cases row) (auto simp: neq_Nil_conv)
    with assms st row show ?thesis by (auto simp: add_string_all_def and_then_eq_Inr dest: keeps)
  qed
qed

lemma add_strings_descriptor:
  "add_strings creq is st = Inr st' \<Longrightarrow> dv_descriptor (fst st') = dv_descriptor (fst st)"
  unfolding add_strings_def
  using fold_res_keeps [of "add_string_all creq" "is" st st' "\<lambda>st. dv_descriptor (fst st)"]
    add_string_all_descriptor by blast

lemma read_config_counted:
  assumes "read_config fuel creq otherSpeed i st = Inr (c, st')"
  shows "config_counted c" "dv_descriptor (fst st') = dv_descriptor (fst st)"
  using assms config_from_proxy_counted
  by (fastforce simp: read_config_def config_counted_def and_then_eq_Inr split: prod.splits
      dest: add_strings_descriptor)+

lemma read_configs_counted:
  "read_configs fuel creq otherSpeed is st = Inr (cs, st') \<Longrightarrow>
   length cs = length is \<and> (\<forall>c\<in>set cs. config_counted c) \<and> dv_descriptor (fst st') = dv_descriptor (fst st)"
proof (induction "is" arbitrary: st cs)
  case (Cons i "is")
  then obtain c st1 cs1 where "read_config fuel creq otherSpeed i st = Inr (c, st1)"
    "read_configs fuel creq otherSpeed is st1 = Inr (cs1, st')" "cs = c # cs1"
    by (auto simp: and_then_eq_Inr)
  with Cons.IH [of st1 cs1] read_config_counted [of fuel creq otherSpeed i st c st1] show ?case by simp
qed simp

lemma read_qualifier_counted:
  assumes "read_qualifier fuel creq st = Inr (q, st')"
  shows "dv_descriptor (fst st') = dv_descriptor (fst st) \<and>
    (\<forall>x. q = Some x \<longrightarrow> configs_counted (q_configurations x) (dq_bNumConfigurations (q_descriptor x)))"
  using assms
  by (fastforce simp: read_qualifier_def configs_counted_def Let_def and_then_eq_Inr
      split: prod.splits if_splits dest!: read_configs_counted)

text \<open>The steps of a constructor that ends well, one after the other.\<close>

lemma and_then_InrE: "and_then r f = Inr y \<Longrightarrow> (\<And>x. r = Inr x \<Longrightarrow> f x = Inr y \<Longrightarrow> P) \<Longrightarrow> P"
  by (auto simp: and_then_eq_Inr)

lemma pair_InrE: "(case p of (a, b) \<Rightarrow> f a b) = Inr y \<Longrightarrow> (\<And>a b. p = (a, b) \<Longrightarrow> f a b = Inr y \<Longrightarrow> P) \<Longrightarrow> P"
  by (cases p) simp

lemma if_InrE: "(if c then Inl e else r) = Inr y \<Longrightarrow> (\<not> c \<Longrightarrow> r = Inr y \<Longrightarrow> P) \<Longrightarrow> P"
  by (cases c) simp_all

lemmas res_elims = and_then_InrE pair_InrE if_InrE

lemma address_step:
  assumes "(if a then and_then t (\<lambda>(r, d5). case r of [] \<Rightarrow> Inl Uninit
      | result # _ \<Rightarrow> Inr (dv5\<lparr>dv_deviceConfigurationIndex := uint (result :: u8)\<rparr>, d5))
    else Inr (dv5\<lparr>dv_deviceConfigurationIndex := 0\<rparr>, d4)) = Inr (dv, d)"
  shows "dv_descriptor dv = dv_descriptor dv5 \<and> dv_configurations dv = dv_configurations dv5 \<and>
    dv_qualifier dv = dv_qualifier dv5"
proof (cases a)
  case True
  with assms obtain r d5 where "t = Inr (r, d5)" by (auto simp: and_then_eq_Inr)
  with True assms show ?thesis by (cases r) auto
next
  case False
  with assms show ?thesis by auto
qed

lemma device_from_proxy_counted:
  assumes "device_from_proxy fuel creq address highspeed d0 = Inr (dv, d)"
  shows "device_counted dv"
proof -
  obtain b d1 where b: "transfer creq (device_request USB_REQ_GET_DESCRIPTOR
      (push_bit 8 (ucast USB_DT_DEVICE)) 18) 18 d0 = Inr (b, d1)"
    using assms by (auto simp: device_from_proxy_def and_then_eq_Inr)
  define desc where "desc = device_of_bytes b"
  have dv0: "dv_descriptor ((device_of_descriptor desc)\<lparr>dv_strings := ss, dv_maxStringIdx := k, dv_next_id := n\<rparr>) = desc"
    for ss k n by (simp add: device_of_descriptor_def)
  obtain st1 st2 cs st3 q dv4 d4 where
    1: "dv_descriptor (fst st1) = desc"
    and 2: "add_strings creq (filter (\<lambda>i. i \<noteq> 0) [dd_iManufacturer desc, dd_iProduct desc, dd_iSerialNumber desc]) st1 = Inr st2"
    and 3: "read_configs fuel creq False [0..<unat (dd_bNumConfigurations desc)] st2 = Inr (cs, st3)"
    and 4: "read_qualifier fuel creq st3 = Inr (q, dv4, d4)"
    and 5: "(let dv5 = dv4\<lparr>dv_configurations := map Some cs, dv_qualifier := q,
                     dv_deviceAddress := address d4, dv_highspeed := highspeed d4\<rparr> in
                   if address d4 \<noteq> 0 then
                     and_then (transfer creq (device_request USB_REQ_GET_CONFIGURATION 0 1) 1 d4)
                       (\<lambda>(r, d5). case r of
                          [] \<Rightarrow> Inl Uninit
                        | result # _ \<Rightarrow>
                            Inr (dv5\<lparr>dv_deviceConfigurationIndex := uint result\<rparr>, d5))
                   else Inr (dv5\<lparr>dv_deviceConfigurationIndex := 0\<rparr>, d4)) = Inr (dv, d)"
    using assms unfolding device_from_proxy_def b and_then_Inr prod.case desc_def [symmetric] Let_def
    by (elim res_elims) (use dv0 in \<open>auto dest!: add_string_lang_descriptor simp del: filter.simps if_split_asm\<close>)
  from 5 have dv: "dv_descriptor dv = dv_descriptor dv4" "dv_configurations dv = map Some cs" "dv_qualifier dv = q"
    using address_step [OF 5 [unfolded Let_def]] by simp_all
  from 1 add_strings_descriptor [OF 2] read_configs_counted [OF 3] read_qualifier_counted [OF 4] dv
  show ?thesis by (auto simp: device_counted_def configs_counted_def)
qed

section \<open>What is deleted\<close>

lemma delete_igroup_counted:
  assumes "igroup_counted g"
  shows "\<exists>ps. delete_igroup g = Inr ps"
proof -
  let ?n = "unat (ig_alternateCount g)"
  have "?n \<le> length (ig_interfaces g)"
    using assms by (simp add: igroup_counted_def unat_of_nat)
  then have "the_interfaces g = Inr (take ?n (ig_interfaces g))" by (simp add: the_interfaces_def)
  moreover have "iface_wf ic" if "Some ic \<in> set (take ?n (ig_interfaces g))" for ic
    using assms that by (auto simp: igroup_counted_def dest: in_set_takeD)
  ultimately show ?thesis
    using delete_parts [of "take ?n (ig_interfaces g)" delete_iface iface_objects "\<lambda>ic. PInterface (if_descriptor ic)"]
    by (simp add: delete_igroup_def delete_iface_wf)
qed

lemma delete_config_counted:
  assumes "config_counted c"
  shows "\<exists>ps. delete_config c = Inr ps"
proof -
  have "\<exists>ps. delete_igroup g = Inr ps" if "Some g \<in> set (cf_groups c)" for g
    using assms that delete_igroup_counted by (auto simp: config_counted_def)
  then obtain objects where "\<And>g. Some g \<in> set (cf_groups c) \<Longrightarrow> delete_igroup g = Inr (objects g)" by metis
  then show ?thesis
    using delete_parts [of "cf_groups c" delete_igroup objects "\<lambda>g. PGroup (ig_number g)"] assms
    by (simp add: delete_config_def the_groups_def config_counted_def)
qed

lemma delete_configs_counted:
  assumes "configs_counted cs n"
  shows "\<exists>ps. and_then (first_n cs (unat n)) (concat_of (delete_part delete_config (\<lambda>c. PConfig (cf_descriptor c)))) = Inr ps"
proof -
  have "\<exists>ps. delete_config c = Inr ps" if "Some c \<in> set cs" for c
    using assms that delete_config_counted by (auto simp: configs_counted_def)
  then obtain objects where "\<And>c. Some c \<in> set cs \<Longrightarrow> delete_config c = Inr (objects c)" by metis
  then show ?thesis
    using delete_parts [of cs delete_config objects "\<lambda>c. PConfig (cf_descriptor c)"] assms
    by (simp add: configs_counted_def)
qed

lemma delete_device_counted:
  assumes "device_counted dv"
  shows "if distinct (deleted_strings dv) then \<exists>ps. delete_device dv = Inr ps
    else delete_device dv = Inl UseAfterFree"
proof -
  obtain cs where cs: "and_then (first_n (dv_configurations dv) (unat (dd_bNumConfigurations (dv_descriptor dv))))
      (concat_of (delete_part delete_config (\<lambda>c. PConfig (cf_descriptor c)))) = Inr cs"
    using assms delete_configs_counted [of "dv_configurations dv" "dd_bNumConfigurations (dv_descriptor dv)"]
    by (auto simp: device_counted_def)
  have "\<exists>ps. delete_part delete_qualifier (\<lambda>q. PQualifier (q_descriptor q)) (dv_qualifier dv) = Inr ps"
    using assms delete_configs_counted
    by (cases "dv_qualifier dv") (auto simp: delete_part_def delete_qualifier_def device_counted_def and_then_eq_Inr)
  with cs show ?thesis by (auto simp: delete_device_def)
qed

text \<open>An interface number with 256 settings counts as none, and its settings are not deleted.\<close>

definition settings_below_256 :: "config \<Rightarrow> bool" where
  "settings_below_256 c \<longleftrightarrow> (\<forall>g. Some g \<in> set (cf_groups c) \<longrightarrow> length (ig_interfaces g) < 256)"

lemma counted_wf: "config_counted c \<Longrightarrow> settings_below_256 c \<Longrightarrow> config_wf c"
  by (auto simp: config_counted_def settings_below_256_def config_wf_def igroup_counted_def igroup_wf_def unat_of_nat)

definition device_objects :: "device \<Rightarrow> part list" where
  "device_objects dv =
     (case dv_qualifier dv of None \<Rightarrow> []
      | Some q \<Rightarrow> configs_objects (q_configurations q) @ [PQualifier (q_descriptor q)])
     @ configs_objects (dv_configurations dv) @ map PString (deleted_strings dv)"

lemma all_configs_list:
  "list_all P (all_configs dv) \<longleftrightarrow>
     (\<forall>c. Some c \<in> set (dv_configurations dv) \<longrightarrow> P c) \<and>
     (\<forall>q. dv_qualifier dv = Some q \<longrightarrow> (\<forall>c. Some c \<in> set (q_configurations q) \<longrightarrow> P c))"
  by (cases "dv_qualifier dv") (auto simp: all_configs_def list_all_iff set_somes)

lemma delete_device_all:
  assumes "device_counted dv" "distinct (deleted_strings dv)" "list_all settings_below_256 (all_configs dv)"
  shows "delete_device dv = Inr (device_objects dv)"
proof -
  have "configurations_wf (dv_configurations dv) (dd_bNumConfigurations (dv_descriptor dv))"
    "\<And>q. dv_qualifier dv = Some q \<Longrightarrow> configurations_wf (q_configurations q) (dq_bNumConfigurations (q_descriptor q))"
    using assms(1,3) counted_wf
    by (auto simp: device_counted_def configs_counted_def configurations_wf_def all_configs_list)
  from device_teardown [OF this] assms(2) show ?thesis by (simp add: device_objects_def)
qed

section \<open>Properties\<close>


text \<open>The loopback proxy, and the same without a name for its interface.\<close>

definition unnamed_loopback :: loopback where
  "unnamed_loopback = loopback_of_config\<lparr>lb_interface := (lb_interface loopback_of_config)\<lparr>if_iInterface := 0\<rparr>\<rparr>"

lemma loopback_strings_deleted:
  "and_then (device_from_proxy 512 lb_creq (\<lambda>_. 1) (\<lambda>_. False) loopback_of_config)
     (\<lambda>(dv, d). Inr (distinct (deleted_strings dv))) = Inr False"
  "and_then (device_from_proxy 512 lb_creq (\<lambda>_. 1) (\<lambda>_. False) unnamed_loopback)
     (\<lambda>(dv, d). Inr (distinct (deleted_strings dv),
        map (\<lambda>c. map (\<lambda>g. map_option (\<lambda>g. length (ig_interfaces g)) g) (cf_groups c)) (all_configs dv),
        length (device_objects dv))) =
   Inr (True, [[Some 1]], 10)"
  by code_simp+


end
